(* ===== verification/Prelude.thy ===== *)
theory Prelude
  imports Main "HOL-Library.Word" "HOL-Library.Monad_Syntax"
begin

text \<open>
  Shared vocabulary of the development: the fixed-width integers of \<^verbatim>\<open>stdint.h\<close>, byte
  buffers with bounds-checked access, the little-endian images of 16 and 32 bit integers, the
  C string copy \<^verbatim>\<open>strncpy\<close>, and a small total-correctness logic for computations whose result
  may be undefined.

  A computation of the program is a value of an option type. \<open>None\<close> stands for an execution
  with no defined result: it touches memory outside the object it was given, or it never returns.
  A theorem that an operation equals \<open>Some\<close> of something therefore shows that it returns and that
  it stays inside its buffers.
\<close>

unbundle bit_operations_syntax

type_synonym u8 = "8 word"
type_synonym u16 = "16 word"
type_synonym u32 = "32 word"
type_synonym bytes = "u8 list"

named_theorems layout_simps \<open>sizes and offsets of the packed structures\<close>
named_theorems codec_simps \<open>encoding and decoding of the packed structures\<close>
named_theorems frame_simps \<open>fields an operation leaves alone\<close>

section \<open>Bounds-checked memory\<close>

text \<open>
  \<open>mem_read buf off n\<close> reads \<open>n\<close> bytes at \<open>buf + off\<close>, \<open>mem_write buf off bs\<close> is
  \<^verbatim>\<open>memcpy(buf + off, bs, n)\<close>. Both are undefined when they would leave the buffer.
\<close>

definition mem_read :: "'a list \<Rightarrow> nat \<Rightarrow> nat \<Rightarrow> 'a list option" where
  "mem_read buf off n = (if off + n \<le> length buf then Some (take n (drop off buf)) else None)"

definition mem_write :: "'a list \<Rightarrow> nat \<Rightarrow> 'a list \<Rightarrow> 'a list option" where
  "mem_write buf off bs =
     (if off + length bs \<le> length buf
      then Some (take off buf @ bs @ drop (off + length bs) buf) else None)"

definition memzero :: "nat \<Rightarrow> bytes" where
  "memzero n = replicate n 0"

text \<open>\<^verbatim>\<open>strncpy(dst, src, n)\<close>: the bytes of \<open>src\<close> up to its terminator, at most \<open>n\<close> of
  them, padded with zeros to exactly \<open>n\<close> bytes.\<close>

definition strncpy :: "bytes \<Rightarrow> nat \<Rightarrow> bytes" where
  "strncpy src n = (let s = takeWhile (\<lambda>c. c \<noteq> 0) (take n src) in s @ replicate (n - length s) 0)"

section \<open>Little-endian integers\<close>

definition le16 :: "u16 \<Rightarrow> bytes" where
  "le16 w = [ucast w, ucast (drop_bit 8 w)]"

definition le32 :: "u32 \<Rightarrow> bytes" where
  "le32 w = [ucast w, ucast (drop_bit 8 w), ucast (drop_bit 16 w), ucast (drop_bit 24 w)]"

definition u16_at :: "bytes \<Rightarrow> nat \<Rightarrow> u16" where
  "u16_at bs i = ucast (bs ! i) OR push_bit 8 (ucast (bs ! (i + 1)))"

definition u32_at :: "bytes \<Rightarrow> nat \<Rightarrow> u32" where
  "u32_at bs i = ucast (bs ! i) OR push_bit 8 (ucast (bs ! (i + 1)))
     OR push_bit 16 (ucast (bs ! (i + 2))) OR push_bit 24 (ucast (bs ! (i + 3)))"

section \<open>Total correctness of partial computations\<close>

definition returns :: "'a option \<Rightarrow> ('a \<Rightarrow> bool) \<Rightarrow> bool" where
  "returns m Q \<longleftrightarrow> (\<exists>x. m = Some x \<and> Q x)"

lemma returns_Some [simp]: "returns (Some x) Q = Q x"
  by (simp add: returns_def)

lemma returns_None [simp]: "\<not> returns None Q"
  by (simp add: returns_def)

lemma returns_bind [simp]: "returns (Option.bind m f) Q = returns m (\<lambda>x. returns (f x) Q)"
  by (cases m) simp_all

lemma returns_if: "returns (if b then m else n) Q = (if b then returns m Q else returns n Q)"
  by simp

lemma returns_mono: "returns m Q \<Longrightarrow> (\<And>x. Q x \<Longrightarrow> R x) \<Longrightarrow> returns m R"
  by (auto simp: returns_def)

lemma returnsI: "m = Some x \<Longrightarrow> Q x \<Longrightarrow> returns m Q"
  by simp

lemma returnsE: "returns m Q \<Longrightarrow> (\<And>x. m = Some x \<Longrightarrow> Q x \<Longrightarrow> thesis) \<Longrightarrow> thesis"
  by (auto simp: returns_def)

text \<open>The partial companion, \<open>after m Q\<close>: if \<open>m\<close> returns, its result satisfies \<open>Q\<close>. The rules go backwards through the body of an
  operation.\<close>

definition after :: "'a option \<Rightarrow> ('a \<Rightarrow> bool) \<Rightarrow> bool" where
  "after m Q \<longleftrightarrow> (\<forall>x. m = Some x \<longrightarrow> Q x)"

lemma after_simps [simp]:
  "after (Some x) Q = Q x" "after None Q"
  "after (Option.bind m f) Q = after m (\<lambda>x. after (f x) Q)"
  "after (if b then m1 else m2) Q = (if b then after m1 Q else after m2 Q)"
  "after (case p of (x, y) \<Rightarrow> g x y) Q = (case p of (x, y) \<Rightarrow> after (g x y) Q)"
  "after (case m of None \<Rightarrow> None | Some x \<Rightarrow> f x) Q = after m (\<lambda>x. after (f x) Q)"
  by (auto simp: after_def bind_eq_Some_conv split: prod.splits option.splits)

lemma afterD: "after m Q \<Longrightarrow> m = Some x \<Longrightarrow> Q x"
  by (simp add: after_def)

lemma afterI: "(\<And>x. m = Some x \<Longrightarrow> Q x) \<Longrightarrow> after m Q"
  by (simp add: after_def)

lemma after_weaken: "after m Q \<Longrightarrow> (\<And>x. Q x \<Longrightarrow> Q' x) \<Longrightarrow> after m Q'"
  by (auto simp: after_def)

lemma after_any: "(\<And>x. Q x) \<Longrightarrow> after m Q"
  by (simp add: after_def)

lemma returns_after: "m \<noteq> None \<Longrightarrow> after m Q \<Longrightarrow> returns m Q"
  by (auto simp: returns_def after_def)

lemma returns_case_prod [simp]:
  "returns (case p of (x, y) \<Rightarrow> g x y) Q = (case p of (x, y) \<Rightarrow> returns (g x y) Q)"
  by (simp split: prod.splits)

section \<open>Facts about memory\<close>

lemma mem_read_Some: "mem_read buf off n = Some bs \<Longrightarrow> off + n \<le> length buf \<and> length bs = n"
  by (auto simp: mem_read_def split: if_splits)

lemma mem_write_length: "mem_write buf off bs = Some buf' \<Longrightarrow> length buf' = length buf"
  by (auto simp: mem_write_def split: if_splits)

lemma after_mem_write: "after (mem_write buf off bs) (\<lambda>buf'. length buf' = length buf)"
  by (auto simp: after_def dest: mem_write_length)

lemmas after_mem_any = after_any [where m = "mem_write buf off bs" for buf off bs]

lemma mem_write_bounds: "mem_write buf off bs = Some buf' \<Longrightarrow> off + length bs \<le> length buf"
  by (auto simp: mem_write_def split: if_splits)

lemma mem_write_same:
  "mem_write buf off bs = Some buf' \<Longrightarrow> take (length bs) (drop off buf') = bs"
  by (auto simp: mem_write_def split: if_splits)

lemma mem_write_before:
  "mem_write buf off bs = Some buf' \<Longrightarrow> n \<le> off \<Longrightarrow> take n buf' = take n buf"
  by (auto simp: mem_write_def split: if_splits)

lemma mem_write_after:
  "mem_write buf off bs = Some buf' \<Longrightarrow> off + length bs \<le> n \<Longrightarrow> drop n buf' = drop n buf"
  by (auto simp: mem_write_def split: if_splits)

lemma length_memzero [simp]: "length (memzero n) = n"
  by (simp add: memzero_def)

lemma length_strncpy [simp]: "length (strncpy src n) = n"
proof -
  have "length (takeWhile (\<lambda>c. c \<noteq> 0) (take n src)) \<le> length (take n src)"
    by (rule length_takeWhile_le)
  then show ?thesis by (simp add: strncpy_def Let_def)
qed

text \<open>Copying a zero-padded array of the same length is the identity, so names survive the
  round trip through the header.\<close>

lemma strncpy_idem: "strncpy (strncpy src n) n = strncpy src n"
proof -
  define s where "s = takeWhile (\<lambda>c. c \<noteq> 0) (take n src)"
  have nz: "\<forall>c \<in> set s. c \<noteq> 0" unfolding s_def by (auto dest: set_takeWhileD)
  have len: "length s \<le> n" unfolding s_def
    by (metis length_takeWhile_le length_take min.boundedE order_trans)
  have "takeWhile (\<lambda>c. c \<noteq> 0) (s @ replicate (n - length s) 0) = s"
    using nz by (cases "n - length s") (simp_all add: takeWhile_append2 takeWhile_eq_all_conv)
  then show ?thesis using len by (simp add: strncpy_def Let_def s_def [symmetric])
qed

section \<open>Facts about little-endian integers\<close>

lemma length_le16 [simp, layout_simps]: "length (le16 w) = 2"
  by (simp add: le16_def)

lemma length_le32 [simp, layout_simps]: "length (le32 w) = 4"
  by (simp add: le32_def)

lemma u16_of_le16: "ucast (ucast w :: u8) OR push_bit 8 (ucast (ucast (drop_bit 8 w) :: u8)) = (w :: u16)"
  by (rule bit_word_eqI) (auto simp: bit_simps)

lemma u32_of_le32:
  "ucast (ucast w :: u8) OR push_bit 8 (ucast (ucast (drop_bit 8 w) :: u8))
     OR push_bit 16 (ucast (ucast (drop_bit 16 w) :: u8))
     OR push_bit 24 (ucast (ucast (drop_bit 24 w) :: u8)) = (w :: u32)"
proof (rule bit_word_eqI)
  fix n
  assume "n < LENGTH(32)"
  then consider "n < 8" | "8 \<le> n" "n < 16" | "16 \<le> n" "n < 24" | "24 \<le> n" "n < 32"
    by fastforce
  then show "bit (ucast (ucast w :: u8) OR push_bit 8 (ucast (ucast (drop_bit 8 w) :: u8))
     OR push_bit 16 (ucast (ucast (drop_bit 16 w) :: u8))
     OR push_bit 24 (ucast (ucast (drop_bit 24 w) :: u8)) :: u32) n = bit w n"
    by cases (auto simp: bit_simps)
qed

lemma bit_u8_high [simp]: "8 \<le> n \<Longrightarrow> \<not> bit (a :: u8) n"
  by (auto dest: bit_imp_le_length)

lemma le16_of_u16: "le16 (ucast (a :: u8) OR push_bit 8 (ucast (b :: u8))) = [a, b]"
  unfolding le16_def by (simp, intro conjI; rule bit_word_eqI; auto simp: bit_simps)

lemma le32_of_u32:
  "le32 (ucast (a :: u8) OR push_bit 8 (ucast (b :: u8)) OR push_bit 16 (ucast (c :: u8))
     OR push_bit 24 (ucast (d :: u8))) = [a, b, c, d]"
  unfolding le32_def by (simp, intro conjI; rule bit_word_eqI; auto simp: bit_simps)

lemma u16_at_le16 [codec_simps]:
  "i = length xs \<Longrightarrow> u16_at (xs @ le16 w @ ys) i = w"
  by (simp add: u16_at_def le16_def nth_append u16_of_le16)

lemma u32_at_le32 [codec_simps]:
  "i = length xs \<Longrightarrow> u32_at (xs @ le32 w @ ys) i = w"
  by (simp add: u32_at_def le32_def nth_append u32_of_le32)

lemma le16_u16_at [codec_simps]: "i + 2 \<le> length bs \<Longrightarrow> le16 (u16_at bs i) = take 2 (drop i bs)"
proof -
  assume "i + 2 \<le> length bs"
  then have "drop i bs = bs ! i # bs ! (i + 1) # drop (i + 2) bs"
    by (simp add: Cons_nth_drop_Suc)
  then show ?thesis by (simp add: u16_at_def le16_of_u16)
qed

lemma le32_u32_at [codec_simps]: "i + 4 \<le> length bs \<Longrightarrow> le32 (u32_at bs i) = take 4 (drop i bs)"
proof -
  assume "i + 4 \<le> length bs"
  then have "drop i bs = bs ! i # bs ! (i + 1) # bs ! (i + 2) # bs ! (i + 3) # drop (i + 4) bs"
    by (simp add: Cons_nth_drop_Suc numeral_eq_Suc)
  then show ?thesis by (simp add: u32_at_def le32_of_u32)
qed

text \<open>Cutting a field of \<open>n\<close> bytes off the front of the bytes from \<open>i\<close> on.\<close>

lemma drop_field: "drop i bs = take n (drop i bs) @ drop (i + n) bs"
  by (metis append_take_drop_id drop_drop add.commute)

end
