(* ===== verification/Crc16.thy ===== *)
theory Crc16
  imports Prelude
begin

text \<open>
  The checksum of \<^verbatim>\<open>fkfs.cpp\<close> (lines 39--63): a CRC-16 driven by a 16-entry table, one
  nibble at a time. Both the header blocks and every entry of the log are protected by it.
  The theory proves it equal to the bit-serial CRC-16 with the reflected polynomial
  \<open>0xA001\<close>, that it is linear over exclusive or, injective in its seed, and that a change
  confined to one byte of the message always changes it.
\<close>

section \<open>The table-driven checksum\<close>

definition crc16_table :: "u16 list" where
  "crc16_table =
     [0x0000, 0xCC01, 0xD801, 0x1400, 0xF001, 0x3C00, 0x2800, 0xE401,
      0xA001, 0x6C00, 0x7800, 0xB401, 0x5000, 0x9C01, 0x8801, 0x4400]"

text \<open>One half of the loop body: fold the nibble \<open>p\<close> into \<open>crc\<close>.\<close>

definition crc16_nibble :: "u16 \<Rightarrow> u8 \<Rightarrow> u16" where
  "crc16_nibble crc p =
     (let r = crc16_table ! unat (crc AND 0xF);
          crc = drop_bit 4 crc AND 0x0FFF
      in crc XOR r XOR crc16_table ! unat (p AND 0xF))"

definition crc16_byte :: "u16 \<Rightarrow> u8 \<Rightarrow> u16" where
  "crc16_byte crc p = crc16_nibble (crc16_nibble crc p) (drop_bit 4 p)"

text \<open>The loop \<^verbatim>\<open>while (n-- > 0)\<close> over the \<open>n\<close> bytes at \<open>p\<close>, which the model
  passes as a list.\<close>

fun crc16_update :: "u16 \<Rightarrow> bytes \<Rightarrow> u16" where
  "crc16_update crc [] = crc"
| "crc16_update crc (p # ps) = crc16_update (crc16_byte crc p) ps"

section \<open>The bit-serial reference\<close>

definition crc16_shift :: "u16 \<Rightarrow> u16" where
  "crc16_shift c = drop_bit 1 c XOR (if bit c 0 then 0xA001 else 0)"

definition crc16_ref_byte :: "u16 \<Rightarrow> u8 \<Rightarrow> u16" where
  "crc16_ref_byte c b = (crc16_shift ^^ 8) (c XOR ucast b)"

fun crc16_ref :: "u16 \<Rightarrow> bytes \<Rightarrow> u16" where
  "crc16_ref c [] = c"
| "crc16_ref c (b # bs) = crc16_ref (crc16_ref_byte c b) bs"

lemma xor_eq_0D: "a XOR b = 0 \<Longrightarrow> a = (b :: 'a::len word)"
proof (rule bit_word_eqI)
  fix n
  assume "a XOR b = 0"
  then have "\<not> bit (a XOR b) n" by simp
  then show "bit a n = bit b n" by (simp add: bit_xor_iff)
qed

lemma xor_right_cancel: "a XOR c = b XOR c \<Longrightarrow> a = (b :: 'a::len word)"
proof (rule bit_word_eqI)
  fix n
  assume "a XOR c = b XOR c"
  then have "bit (a XOR c) n = bit (b XOR c) n" by simp
  then show "bit a n = bit b n" by (auto simp: bit_xor_iff)
qed

section \<open>Linearity and injectivity of the shift register\<close>

lemma crc16_shift_xor: "crc16_shift (a XOR b) = crc16_shift a XOR crc16_shift b"
  unfolding crc16_shift_def
  by (rule bit_word_eqI) (auto simp: bit_simps)

lemma crc16_shift_pow_xor:
  "(crc16_shift ^^ n) (a XOR b) = (crc16_shift ^^ n) a XOR (crc16_shift ^^ n) b"
  by (induction n arbitrary: a b) (simp_all add: crc16_shift_xor del: funpow.simps add: funpow_swap1 funpow_Suc_right)

lemma crc16_shift_0 [simp]: "crc16_shift 0 = 0"
  by (simp add: crc16_shift_def)

lemma crc16_shift_eq_0: "crc16_shift c = 0 \<Longrightarrow> c = 0"
proof -
  assume z: "crc16_shift c = 0"
  have "\<not> bit c 0"
  proof
    assume "bit c 0"
    then have "bit (crc16_shift c) 15"
      by (simp add: crc16_shift_def bit_simps impossible_bit)
    with z show False by simp
  qed
  moreover have "\<not> bit c (Suc n)" for n
  proof -
    have "bit (crc16_shift c) n = bit c (Suc n)"
      using \<open>\<not> bit c 0\<close> by (simp add: crc16_shift_def bit_simps)
    with z show ?thesis by simp
  qed
  ultimately show "c = 0"
    by (intro bit_word_eqI) (metis bit_0_eq bot_fun_def bot_bool_def not0_implies_Suc)
qed

lemma crc16_shift_pow_eq_0: "(crc16_shift ^^ n) c = 0 \<Longrightarrow> c = 0"
  by (induction n) (auto dest: crc16_shift_eq_0)

lemma crc16_shift_pow_inj: "(crc16_shift ^^ n) a = (crc16_shift ^^ n) b \<Longrightarrow> a = b"
proof -
  assume "(crc16_shift ^^ n) a = (crc16_shift ^^ n) b"
  then have "(crc16_shift ^^ n) (a XOR b) = 0"
    by (simp add: crc16_shift_pow_xor)
  then have "a XOR b = 0" by (rule crc16_shift_pow_eq_0)
  then show "a = b" by (rule xor_eq_0D)
qed

section \<open>The table is the reference run on a nibble\<close>

text \<open>Entry \<open>i\<close> of the table is the register after shifting the nibble \<open>i\<close> out.\<close>

lemma crc16_table_shift:
  "i < 16 \<Longrightarrow> crc16_table ! i = (crc16_shift ^^ 4) (of_nat i)"
proof -
  have "\<forall>i \<in> set [0..<16]. crc16_table ! i = (crc16_shift ^^ 4) (of_nat i)"
    by code_simp
  then show "i < 16 \<Longrightarrow> crc16_table ! i = (crc16_shift ^^ 4) (of_nat i)"
    by simp
qed


lemma crc16_shift_even: "\<not> bit c 0 \<Longrightarrow> crc16_shift c = drop_bit 1 c"
  by (simp add: crc16_shift_def)

text \<open>With the low nibble clear, four shifts only move the register down.\<close>

lemma crc16_shift4_clear:
  assumes "c AND 0xF = 0"
  shows "(crc16_shift ^^ 4) c = drop_bit 4 c"
proof -
  have low: "\<not> bit c n" if "n < 4" for n
  proof -
    have "bit (0xF :: u16) n"
      using that by (auto simp: numeral_eq_Suc less_Suc_eq bit_simps)
    moreover have "\<not> bit (c AND 0xF) n" using assms by simp
    ultimately show ?thesis by (simp add: bit_and_iff)
  qed
  have step: "crc16_shift (drop_bit n c) = drop_bit (Suc n) c" if "n < 4" for n
    using low [OF that] by (simp add: crc16_shift_even bit_simps drop_bit_drop_bit)
  have "crc16_shift (crc16_shift (crc16_shift (crc16_shift (drop_bit 0 c)))) = drop_bit 4 c"
    by (simp only: step numeral_eq_Suc pred_numeral_simps arith_simps zero_less_Suc Suc_less_eq BitM.simps)
  then show ?thesis by (simp add: numeral_eq_Suc)
qed

lemma and_0xF: "c AND 0xF = take_bit 4 (c :: 'a::len word)"
proof -
  have "(0xF :: 'a word) = mask 4" by (simp add: mask_eq_exp_minus_1)
  then show ?thesis by (simp add: take_bit_eq_mask)
qed

lemma and_0x0FFF: "c AND 0x0FFF = take_bit 12 (c :: 'a::len word)"
proof -
  have "(0x0FFF :: 'a word) = mask 12" by (simp add: mask_eq_exp_minus_1)
  then show ?thesis by (simp add: take_bit_eq_mask)
qed

lemma nibble_lt: "unat (take_bit 4 c :: 'a::len word) < 16"
proof -
  have "unat (take_bit 4 c) = take_bit 4 (unat c)" by (simp add: unsigned_take_bit_eq)
  also have "\<dots> < 2 ^ 4" by (rule take_bit_nat_less_exp)
  finally show ?thesis by simp
qed

text \<open>Looking a nibble up is shifting it out.\<close>

lemma crc16_table_nibble:
  "crc16_table ! unat (take_bit 4 (w :: 'a::len word)) = (crc16_shift ^^ 4) (ucast (take_bit 4 w))"
  by (simp add: crc16_table_shift nibble_lt)

lemma crc16_nibble_ref: "crc16_nibble c p = (crc16_shift ^^ 4) (c XOR ucast (take_bit 4 p))"
proof -
  let ?hi = "c AND NOT (mask 4 :: u16)"
  have split: "c XOR ucast (take_bit 4 p) = ?hi XOR take_bit 4 c XOR ucast (take_bit 4 p)"
    by (rule bit_word_eqI) (auto simp: bit_simps)
  have clear: "?hi AND 0xF = 0"
    unfolding and_0xF by (rule bit_word_eqI) (auto simp: bit_simps)
  have mask: "drop_bit 4 ?hi = drop_bit 4 c AND 0x0FFF"
    unfolding and_0x0FFF
    by (rule bit_word_eqI) (auto simp: bit_simps dest: bit_imp_le_length)
  have "crc16_nibble c p = drop_bit 4 ?hi XOR (crc16_shift ^^ 4) (take_bit 4 c)
      XOR (crc16_shift ^^ 4) (ucast (take_bit 4 p))"
    using crc16_table_nibble [of c] crc16_table_nibble [of p]
    by (simp add: crc16_nibble_def Let_def mask [symmetric] and_0xF)
  then show ?thesis
    using crc16_shift4_clear [OF clear] by (simp add: split crc16_shift_pow_xor)
qed

lemma crc16_shift4_push:
  "(crc16_shift ^^ 4) (push_bit 4 (ucast (n :: u8))) = ucast n"
proof -
  have "push_bit 4 (ucast n :: u16) AND 0xF = 0"
    unfolding and_0xF by (rule bit_word_eqI) (auto simp: bit_simps)
  from crc16_shift4_clear [OF this] show ?thesis
    by (simp, intro bit_word_eqI) (auto simp: bit_simps dest: bit_imp_le_length)
qed

lemma crc16_byte_ref: "crc16_byte c b = crc16_ref_byte c b"
proof -
  let ?lo = "ucast (take_bit 4 b) :: u16" and ?hi = "ucast (drop_bit 4 b) :: u16"
  have b: "ucast b = ?lo XOR push_bit 4 ?hi"
    by (rule bit_word_eqI) (auto simp: bit_simps dest: bit_imp_le_length)
  have nib: "take_bit 4 (drop_bit 4 b) = drop_bit 4 b"
    by (rule bit_word_eqI) (auto simp: bit_simps dest: bit_imp_le_length)
  have "crc16_byte c b = (crc16_shift ^^ 4) ((crc16_shift ^^ 4) (c XOR ?lo) XOR ?hi)"
    by (simp add: crc16_byte_def crc16_nibble_ref nib)
  also have "\<dots> = (crc16_shift ^^ 4) ((crc16_shift ^^ 4) (c XOR ?lo XOR push_bit 4 ?hi))"
    by (simp add: crc16_shift_pow_xor crc16_shift4_push xor.assoc)
  also have "\<dots> = (crc16_shift ^^ 8) (c XOR ucast b)"
    by (simp add: b xor.assoc funpow_add [of 4 4 crc16_shift, simplified])
  finally show ?thesis by (simp add: crc16_ref_byte_def)
qed

section \<open>Properties of the checksum\<close>

lemma crc16_update_append: "crc16_update crc (xs @ ys) = crc16_update (crc16_update crc xs) ys"
  by (induction xs arbitrary: crc) simp_all

lemma crc16_byte_inj: "crc16_byte a b = crc16_byte a' b' \<Longrightarrow> a XOR ucast b = a' XOR ucast b'"
  unfolding crc16_byte_ref crc16_ref_byte_def by (rule crc16_shift_pow_inj)

lemma crc16_seed_inj: "crc16_update a bs = crc16_update b bs \<Longrightarrow> a = b"
proof (induction bs arbitrary: a b)
  case Nil
  then show ?case by simp
next
  case (Cons p ps)
  from Cons.prems have "crc16_update (crc16_byte a p) ps = crc16_update (crc16_byte b p) ps"
    by simp
  then have "crc16_byte a p = crc16_byte b p" by (rule Cons.IH)
  then have "a XOR ucast p = b XOR ucast p" by (rule crc16_byte_inj)
  then show ?case by (rule xor_right_cancel)
qed

lemma crc16_byte_message_inj: "crc16_byte c a = crc16_byte c b \<Longrightarrow> a = b"
proof -
  assume "crc16_byte c a = crc16_byte c b"
  then have "c XOR ucast a = c XOR ucast b" by (rule crc16_byte_inj)
  then have "ucast a XOR c = ucast b XOR c" by (simp only: xor.commute)
  then have "(ucast a :: u16) = ucast b" by (rule xor_right_cancel)
  then have eq: "bit (ucast a :: u16) n = bit (ucast b :: u16) n" for n by simp
  show "a = b"
  proof (rule bit_word_eqI)
    fix n
    assume "n < LENGTH(8)"
    with eq [of n] show "bit a n = bit b n" by (simp add: bit_ucast_iff)
  qed
qed

text \<open>C26: the table-driven checksum computes the bit-serial CRC-16 with the reflected
  polynomial 0xA001, for every seed and every message.\<close>

theorem crc16_update_is_reference: "crc16_update crc bs = crc16_ref crc bs"
  by (induction bs arbitrary: crc) (simp_all add: crc16_byte_ref)

text \<open>Two messages that differ only in the byte at one position have the same checksum
  exactly when that byte is the same, so any corruption confined to one byte is detected.\<close>

lemma crc16_detects_byte_corruption:
  "crc16_update s (xs @ a # ys) = crc16_update s (xs @ b # ys) \<longleftrightarrow> a = b"
proof
  assume "crc16_update s (xs @ a # ys) = crc16_update s (xs @ b # ys)"
  then have "crc16_byte (crc16_update s xs) a = crc16_byte (crc16_update s xs) b"
    by (auto simp: crc16_update_append dest: crc16_seed_inj)
  then show "a = b" by (rule crc16_byte_message_inj)
qed simp

end
