(* ===== verification/Fkfs_Types.thy ===== *)
theory Fkfs_Types
  imports Prelude
begin

text \<open>
  The structures of \<^verbatim>\<open>fkfs.h\<close>. The three packed ones (\<^verbatim>\<open>fkfs_file_t\<close>,
  \<^verbatim>\<open>fkfs_header_t\<close>, \<^verbatim>\<open>fkfs_entry_t\<close>) live on the card, and the code reads and writes them
  by casting a byte buffer; each has its little-endian image here, with both directions of the
  round trip. The others are plain run-time state.
\<close>

section \<open>Constants\<close>

abbreviation (input) SD_RAW_BLOCK_SIZE :: nat where "SD_RAW_BLOCK_SIZE \<equiv> 512"
abbreviation (input) FKFS_FILES_MAX :: nat where "FKFS_FILES_MAX \<equiv> 4"
abbreviation (input) FKFS_FILE_NAME_MAX :: nat where "FKFS_FILE_NAME_MAX \<equiv> 12"
abbreviation (input) FKFS_FIRST_BLOCK :: u32 where "FKFS_FIRST_BLOCK \<equiv> 8000"
abbreviation (input) FKFS_SEEK_BLOCKS_MAX :: nat where "FKFS_SEEK_BLOCKS_MAX \<equiv> 5"
abbreviation (input) UINT32_MAX :: u32 where "UINT32_MAX \<equiv> 0xFFFFFFFF"
abbreviation (input) UINT16_MAX :: u32 where "UINT16_MAX \<equiv> 0xFFFF"

text \<open>\<^verbatim>\<open>sizeof\<close> of the packed structures, and the offsets of their checksums.\<close>

abbreviation (input) sizeof_fkfs_file_t :: nat where "sizeof_fkfs_file_t \<equiv> 30"
abbreviation (input) sizeof_fkfs_header_t :: nat where "sizeof_fkfs_header_t \<equiv> 137"
abbreviation (input) sizeof_fkfs_entry_t :: nat where "sizeof_fkfs_entry_t \<equiv> 7"
abbreviation (input) FKFS_ENTRY_SIZE_MINUS_CRC :: nat where "FKFS_ENTRY_SIZE_MINUS_CRC \<equiv> 5"
abbreviation (input) FKFS_HEADER_SIZE_MINUS_CRC :: nat where "FKFS_HEADER_SIZE_MINUS_CRC \<equiv> 135"
abbreviation (input) FKFS_MAXIMUM_BLOCK_SIZE :: nat where "FKFS_MAXIMUM_BLOCK_SIZE \<equiv> 505"

section \<open>Structures on the card\<close>

record fkfs_file_t =
  file_name :: bytes
  file_version :: u16
  file_startBlock :: u32
  file_startOffset :: u16
  file_endBlock :: u32
  file_endOffset :: u16
  file_size :: u32

record fkfs_header_t =
  header_version :: u8
  header_generation :: u32
  header_block :: u32
  header_offset :: u16
  header_time :: u32
  header_files :: "fkfs_file_t list"
  header_crc :: u16

record fkfs_entry_t =
  entry_file :: u8
  entry_size :: u16
  entry_available :: u16
  entry_crc :: u16

definition file_bytes :: "fkfs_file_t \<Rightarrow> bytes" where
  "file_bytes f = file_name f @ le16 (file_version f) @ le32 (file_startBlock f)
     @ le16 (file_startOffset f) @ le32 (file_endBlock f) @ le16 (file_endOffset f)
     @ le32 (file_size f)"

definition file_of_bytes :: "bytes \<Rightarrow> fkfs_file_t" where
  "file_of_bytes bs =
     \<lparr> file_name = take 12 bs, file_version = u16_at bs 12, file_startBlock = u32_at bs 14,
       file_startOffset = u16_at bs 18, file_endBlock = u32_at bs 20,
       file_endOffset = u16_at bs 24, file_size = u32_at bs 26 \<rparr>"

definition header_bytes :: "fkfs_header_t \<Rightarrow> bytes" where
  "header_bytes h = [header_version h] @ le32 (header_generation h) @ le32 (header_block h)
     @ le16 (header_offset h) @ le32 (header_time h) @ concat (map file_bytes (header_files h))
     @ le16 (header_crc h)"

definition header_of_bytes :: "bytes \<Rightarrow> fkfs_header_t" where
  "header_of_bytes bs =
     \<lparr> header_version = bs ! 0, header_generation = u32_at bs 1, header_block = u32_at bs 5,
       header_offset = u16_at bs 9, header_time = u32_at bs 11,
       header_files = map (\<lambda>i. file_of_bytes (take 30 (drop (15 + 30 * i) bs))) [0..<4],
       header_crc = u16_at bs 135 \<rparr>"

text \<open>The fifteen bytes in front of the file table.\<close>

definition header_prefix :: "fkfs_header_t \<Rightarrow> bytes" where
  "header_prefix h = [header_version h] @ le32 (header_generation h) @ le32 (header_block h)
     @ le16 (header_offset h) @ le32 (header_time h)"

definition entry_bytes :: "fkfs_entry_t \<Rightarrow> bytes" where
  "entry_bytes e = [entry_file e] @ le16 (entry_size e) @ le16 (entry_available e)
     @ le16 (entry_crc e)"

definition entry_of_bytes :: "bytes \<Rightarrow> fkfs_entry_t" where
  "entry_of_bytes bs =
     \<lparr> entry_file = bs ! 0, entry_size = u16_at bs 1, entry_available = u16_at bs 3,
       entry_crc = u16_at bs 5 \<rparr>"

text \<open>\<^verbatim>\<open>headers[i]\<close>, with \<^verbatim>\<open>fkfs_header_t *headers = (fkfs_header_t *)buffer\<close>.\<close>

definition header_at :: "bytes \<Rightarrow> nat \<Rightarrow> fkfs_header_t" where
  "header_at buf i = header_of_bytes (take 137 (drop (137 * i) buf))"

text \<open>The arrays inside the structures have their declared lengths.\<close>

definition wf_file :: "fkfs_file_t \<Rightarrow> bool" where
  "wf_file f \<longleftrightarrow> length (file_name f) = FKFS_FILE_NAME_MAX"

definition wf_header :: "fkfs_header_t \<Rightarrow> bool" where
  "wf_header h \<longleftrightarrow> length (header_files h) = FKFS_FILES_MAX \<and> list_all wf_file (header_files h)"

section \<open>Run-time state\<close>

record fkfs_file_runtime_settings_t =
  settings_sync :: u8
  settings_priority :: u8

record fkfs_file_info_t =
  info_size :: u32
  info_sync :: u8
  info_priority :: u8
  info_version :: u16
  info_name :: bytes

record fkfs_statistics_t =
  stat_blockReads :: u32
  stat_blockWrites :: u32
  stat_iterateCalls :: u32
  stat_iterateTime :: u32
  stat_writeTime :: u32
  stat_readTime :: u32

record 'd fkfs_t =
  fs_headerIndex :: u8
  fs_cachedBlockDirty :: bool
  fs_cachedBlockNumber :: u32
  fs_numberOfBlocks :: u32
  fs_header :: fkfs_header_t
  fs_sd :: 'd
  fs_buffer :: bytes
  fs_files :: "fkfs_file_runtime_settings_t list"
  fs_statistics :: fkfs_statistics_t

record fkfs_iterator_token_t =
  token_file :: u8
  token_block :: u32
  token_offset :: u16
  token_lastBlock :: u32
  token_lastOffset :: u16
  token_size :: u32

record fkfs_iterator_config_t =
  config_maxBlocks :: u32
  config_maxTime :: u32
  config_manualNext :: bool

text \<open>The \<^verbatim>\<open>data\<close> pointer of an iterator always points into \<^verbatim>\<open>fs->buffer\<close>; the model
  keeps its offset there, \<open>None\<close> for a pointer not set yet.\<close>

record fkfs_file_iter_t =
  iter_token :: fkfs_iterator_token_t
  iter_data :: "nat option"
  iter_size :: u16
  iter_iterated :: u32

definition fkfs_token_empty :: fkfs_iterator_token_t where
  "fkfs_token_empty = \<lparr> token_file = 0, token_block = 0, token_offset = 0, token_lastBlock = 0,
     token_lastOffset = 0, token_size = 0 \<rparr>"

section \<open>Sizes and round trips\<close>

lemma length_file_bytes [layout_simps]: "wf_file f \<Longrightarrow> length (file_bytes f) = 30"
  by (simp add: file_bytes_def wf_file_def)

lemma length_entry_bytes [simp, layout_simps]: "length (entry_bytes e) = 7"
  by (simp add: entry_bytes_def)

lemma length_concat_files:
  "list_all wf_file fs \<Longrightarrow> length (concat (map file_bytes fs)) = 30 * length fs"
  by (induction fs) (simp_all add: layout_simps)

lemma length_header_bytes [layout_simps]: "wf_header h \<Longrightarrow> length (header_bytes h) = 137"
  by (simp add: header_bytes_def wf_header_def length_concat_files)

lemma file_roundtrip [codec_simps]: "wf_file f \<Longrightarrow> file_of_bytes (file_bytes f) = f"
  by (simp add: wf_file_def file_bytes_def file_of_bytes_def u16_at_def u32_at_def le16_def
      le32_def nth_append u16_of_le16 u32_of_le32)

lemma entry_roundtrip [codec_simps]: "entry_of_bytes (entry_bytes e @ xs) = e"
  by (simp add: entry_bytes_def entry_of_bytes_def u16_at_def le16_def u16_of_le16)

lemma wf_file_of_bytes: "30 \<le> length bs \<Longrightarrow> wf_file (file_of_bytes bs)"
  by (simp add: wf_file_def file_of_bytes_def)

lemma wf_header_of_bytes: "137 \<le> length bs \<Longrightarrow> wf_header (header_of_bytes bs)"
  by (auto simp: wf_header_def header_of_bytes_def list_all_iff intro!: wf_file_of_bytes)

lemma file_bytes_of_bytes:
  assumes "length bs = 30"
  shows "file_bytes (file_of_bytes bs) = bs"
proof -
  have "bs = take 12 bs @ drop 12 bs" by simp
  also have "drop 12 bs = take 2 (drop 12 bs) @ drop 14 bs" using drop_field [of 12 bs 2] by simp
  also have "drop 14 bs = take 4 (drop 14 bs) @ drop 18 bs" using drop_field [of 14 bs 4] by simp
  also have "drop 18 bs = take 2 (drop 18 bs) @ drop 20 bs" using drop_field [of 18 bs 2] by simp
  also have "drop 20 bs = take 4 (drop 20 bs) @ drop 24 bs" using drop_field [of 20 bs 4] by simp
  also have "drop 24 bs = take 2 (drop 24 bs) @ drop 26 bs" using drop_field [of 24 bs 2] by simp
  also have "drop 26 bs = take 4 (drop 26 bs)" using assms by simp
  finally show ?thesis
    using assms by (simp add: file_bytes_def file_of_bytes_def codec_simps)
qed

lemma four_files:
  assumes "wf_header h"
  obtains a b c d where "header_files h = [a, b, c, d]" "wf_file a" "wf_file b" "wf_file c" "wf_file d"
proof -
  from assms have "length (header_files h) = 4" and wf: "list_all wf_file (header_files h)"
    by (simp_all add: wf_header_def)
  then obtain a b c d where "header_files h = [a, b, c, d]"
    by (auto simp: length_Suc_conv numeral_eq_Suc)
  with wf that show thesis by simp
qed

lemma length_header_prefix [simp]: "length (header_prefix h) = 15"
  by (simp add: header_prefix_def)

lemma header_prefix_fields:
  "(header_prefix h @ xs) ! 0 = header_version h"
  "u32_at (header_prefix h @ xs) 1 = header_generation h"
  "u32_at (header_prefix h @ xs) 5 = header_block h"
  "u16_at (header_prefix h @ xs) 9 = header_offset h"
  "u32_at (header_prefix h @ xs) 11 = header_time h"
  by (simp_all add: header_prefix_def u16_at_def u32_at_def le16_def le32_def u16_of_le16
      u32_of_le32)

lemma header_roundtrip [codec_simps]:
  assumes "wf_header h"
  shows "header_of_bytes (header_bytes h @ xs) = h"
proof -
  obtain a b c d where f: "header_files h = [a, b, c, d]"
    and wf: "wf_file a" "wf_file b" "wf_file c" "wf_file d"
    using assms by (rule four_files)
  have bytes: "header_bytes h @ xs = header_prefix h @ file_bytes a @ file_bytes b @ file_bytes c
      @ file_bytes d @ le16 (header_crc h) @ xs"
    by (simp add: header_bytes_def header_prefix_def f)
  have crc: "u16_at (header_bytes h @ xs) 135 = header_crc h"
    using wf u16_at_le16 [of 135 "header_prefix h @ file_bytes a @ file_bytes b @ file_bytes c
      @ file_bytes d" "header_crc h" xs]
    by (simp add: bytes length_file_bytes)
  have files: "map (\<lambda>i. file_of_bytes (take 30 (drop (15 + 30 * i) (header_bytes h @ xs)))) [0..<4]
      = [a, b, c, d]"
    using wf by (simp add: bytes upt_rec length_file_bytes file_roundtrip)
  show ?thesis
    unfolding header_of_bytes_def crc files
    by (simp add: bytes header_prefix_fields header_prefix_fields(2) [simplified] f [symmetric])
qed

lemma header_bytes_of_bytes:
  assumes "length bs = 137"
  shows "header_bytes (header_of_bytes bs) = bs"
proof -
  let ?f = "\<lambda>i. take 30 (drop i bs)"
  have "bs = take 1 bs @ drop 1 bs" by simp
  also have "drop 1 bs = take 4 (drop 1 bs) @ drop 5 bs" using drop_field [of 1 bs 4] by simp
  also have "drop 5 bs = take 4 (drop 5 bs) @ drop 9 bs" using drop_field [of 5 bs 4] by simp
  also have "drop 9 bs = take 2 (drop 9 bs) @ drop 11 bs" using drop_field [of 9 bs 2] by simp
  also have "drop 11 bs = take 4 (drop 11 bs) @ drop 15 bs" using drop_field [of 11 bs 4] by simp
  also have "drop 15 bs = ?f 15 @ drop 45 bs" using drop_field [of 15 bs 30] by simp
  also have "drop 45 bs = ?f 45 @ drop 75 bs" using drop_field [of 45 bs 30] by simp
  also have "drop 75 bs = ?f 75 @ drop 105 bs" using drop_field [of 75 bs 30] by simp
  also have "drop 105 bs = ?f 105 @ drop 135 bs" using drop_field [of 105 bs 30] by simp
  also have "drop 135 bs = take 2 (drop 135 bs)" using assms by simp
  finally have split: "bs = take 1 bs @ take 4 (drop 1 bs) @ take 4 (drop 5 bs) @ take 2 (drop 9 bs)
    @ take 4 (drop 11 bs) @ (?f 15 @ ?f 45 @ ?f 75 @ ?f 105) @ take 2 (drop 135 bs)"
    by simp
  have files: "concat (map file_bytes (header_files (header_of_bytes bs))) =
      ?f 15 @ ?f 45 @ ?f 75 @ ?f 105"
    using assms by (simp add: header_of_bytes_def upt_rec file_bytes_of_bytes)
  have first: "[bs ! 0] = take 1 bs"
    using assms by (simp add: take_Suc_conv_app_nth)
  have "header_bytes (header_of_bytes bs) = take 1 bs @ take 4 (drop 1 bs) @ take 4 (drop 5 bs)
    @ take 2 (drop 9 bs) @ take 4 (drop 11 bs) @ (?f 15 @ ?f 45 @ ?f 75 @ ?f 105)
    @ take 2 (drop 135 bs)"
    unfolding header_bytes_def files using assms first by (simp add: header_of_bytes_def codec_simps)
  with split show ?thesis by simp
qed

end
