(* ===== verification/Block_Device.thy ===== *)
theory Block_Device
  imports Fkfs_Types
begin

text \<open>
  The interface between the file system and the platform it is linked with. \<^verbatim>\<open>fkfs.cpp\<close> calls
  \<^verbatim>\<open>sd_raw_read_block\<close>, \<^verbatim>\<open>sd_raw_write_block\<close>, \<^verbatim>\<open>sd_raw_card_size\<close>, \<^verbatim>\<open>millis\<close> and
  \<^verbatim>\<open>random\<close>; the build decides whether \<^verbatim>\<open>sd_raw.cpp\<close> or \<^verbatim>\<open>testing/hal.cpp\<close> provides the
  first three. The operations are a record that every definition of the file system takes as an
  argument, and the contract the file system relies on is a pair of locales: what a block store
  does when an operation succeeds and what it leaves alone, and, on top of it, a device on which
  the operations do succeed.
\<close>

section \<open>The operations\<close>

text \<open>
  \<open>'d\<close> is the state behind \<^verbatim>\<open>fs->sd\<close>: the driver's own structure and the world it drives. A
  read is given the old contents of the destination, which a driver may leave as they are.
\<close>

record 'd platform =
  plat_read_block :: "'d \<Rightarrow> u32 \<Rightarrow> bytes \<Rightarrow> (bool \<times> bytes \<times> 'd) option"
  plat_write_block :: "'d \<Rightarrow> u32 \<Rightarrow> bytes \<Rightarrow> (bool \<times> 'd) option"
  plat_card_size :: "'d \<Rightarrow> (u32 \<times> 'd) option"
  plat_memzero :: "'d \<Rightarrow> 'd"
  plat_millis :: "'d \<Rightarrow> u32 \<times> 'd"
  plat_random :: "'d \<Rightarrow> u32 \<Rightarrow> u32 \<times> 'd"

section \<open>What a block store promises\<close>

locale block_store =
  fixes P :: "'d platform"
    and invar :: "'d \<Rightarrow> bool"
    and addressable :: "u32 \<Rightarrow> bool"
    and readable :: "'d \<Rightarrow> u32 \<Rightarrow> bool"
    and contents :: "'d \<Rightarrow> u32 \<Rightarrow> bytes"
  assumes contents_length:
      "\<lbrakk>invar d; readable d b\<rbrakk> \<Longrightarrow> length (contents d b) = SD_RAW_BLOCK_SIZE"
    and read_sound:
      "\<lbrakk>invar d; length buf = SD_RAW_BLOCK_SIZE; readable d b;
        plat_read_block P d b buf = Some (True, buf', d')\<rbrakk> \<Longrightarrow> buf' = contents d b"
    and read_frame:
      "\<lbrakk>invar d; length buf = SD_RAW_BLOCK_SIZE; plat_read_block P d b buf = Some (r, buf', d')\<rbrakk>
        \<Longrightarrow> invar d' \<and> contents d' = contents d \<and> readable d' = readable d
            \<and> length buf' = SD_RAW_BLOCK_SIZE"
    and write_sound:
      "\<lbrakk>invar d; length src = SD_RAW_BLOCK_SIZE; addressable b;
        plat_write_block P d b src = Some (True, d')\<rbrakk>
        \<Longrightarrow> contents d' b = src \<and> readable d' b"
    and write_frame:
      "\<lbrakk>invar d; length src = SD_RAW_BLOCK_SIZE; addressable b; b \<noteq> c; readable d c;
        plat_write_block P d b src = Some (r, d')\<rbrakk>
        \<Longrightarrow> contents d' c = contents d c \<and> readable d' c"
    and write_invar:
      "\<lbrakk>invar d; length src = SD_RAW_BLOCK_SIZE; addressable b;
        plat_write_block P d b src = Some (r, d')\<rbrakk> \<Longrightarrow> invar d'"
    and card_size_frame:
      "\<lbrakk>invar d; plat_card_size P d = Some (n, d')\<rbrakk>
        \<Longrightarrow> invar d' \<and> contents d' = contents d \<and> readable d' = readable d"
    and millis_frame:
      "invar d \<Longrightarrow> invar (snd (plat_millis P d)) \<and> contents (snd (plat_millis P d)) = contents d
        \<and> readable (snd (plat_millis P d)) = readable d"
    and random_frame:
      "invar d \<Longrightarrow> invar (snd (plat_random P d m)) \<and> contents (snd (plat_random P d m)) = contents d
        \<and> readable (snd (plat_random P d m)) = readable d"
begin

lemma read_after_write:
  assumes "invar d" "length src = SD_RAW_BLOCK_SIZE" "addressable b"
    and "plat_write_block P d b src = Some (True, d')"
    and "length buf = SD_RAW_BLOCK_SIZE" "plat_read_block P d' b buf = Some (True, buf', d'')"
  shows "buf' = src"
  using assms write_sound write_invar read_sound by metis

end

text \<open>A device whose addressable blocks can be read and written without failure.\<close>

locale reliable_device = block_store +
  assumes read_total:
      "\<lbrakk>invar d; length buf = SD_RAW_BLOCK_SIZE; addressable b\<rbrakk>
        \<Longrightarrow> \<exists>buf' d'. plat_read_block P d b buf = Some (True, buf', d')"
    and write_total:
      "\<lbrakk>invar d; length src = SD_RAW_BLOCK_SIZE; addressable b\<rbrakk>
        \<Longrightarrow> \<exists>d'. plat_write_block P d b src = Some (True, d')"
    and card_size_total: "invar d \<Longrightarrow> \<exists>n d'. plat_card_size P d = Some (n, d')"
begin

lemma read_returns:
  assumes "invar d" "length buf = SD_RAW_BLOCK_SIZE" "addressable b" "readable d b"
  shows "returns (plat_read_block P d b buf) (\<lambda>(ok, buf', d').
    ok \<and> buf' = contents d b \<and> length buf' = SD_RAW_BLOCK_SIZE \<and> invar d' \<and>
    contents d' = contents d \<and> readable d' = readable d)"
proof -
  obtain buf' d' where r: "plat_read_block P d b buf = Some (True, buf', d')"
    using read_total assms(1-3) by blast
  then show ?thesis
    using read_sound [OF assms(1,2,4) r] read_frame [OF assms(1,2) r] by simp
qed

lemma write_returns:
  assumes "invar d" "length src = SD_RAW_BLOCK_SIZE" "addressable b"
  shows "returns (plat_write_block P d b src) (\<lambda>(ok, d').
    ok \<and> invar d' \<and> contents d' b = src \<and> readable d' b \<and>
    (\<forall>c. readable d c \<longrightarrow> c \<noteq> b \<longrightarrow> contents d' c = contents d c \<and> readable d' c))"
proof -
  obtain d' where r: "plat_write_block P d b src = Some (True, d')"
    using write_total assms by blast
  then show ?thesis
    using write_sound [OF assms r] write_invar [OF assms r]
      write_frame [OF assms _ _ r] by auto
qed

end

section \<open>What holds of every platform\<close>

text \<open>A read fills the destination it was given and no more.\<close>

locale sized_platform =
  fixes P :: "'d platform"
  assumes read_length:
    "\<lbrakk>length buf = SD_RAW_BLOCK_SIZE; plat_read_block P d b buf = Some (ok, buf', d')\<rbrakk>
      \<Longrightarrow> length buf' = SD_RAW_BLOCK_SIZE"

text \<open>The transfers of the platform return, whether they succeed or not.\<close>

definition transfers_return :: "'d platform \<Rightarrow> bool" where
  "transfers_return P \<longleftrightarrow> (\<forall>d b buf. length buf = SD_RAW_BLOCK_SIZE \<longrightarrow>
     plat_read_block P d b buf \<noteq> None \<and> plat_write_block P d b buf \<noteq> None)"

end
