(* ===== verification/Fkfs_Core.thy ===== *)
theory Fkfs_Core
  imports Crc16 Block_Device
begin

text \<open>
  The first half of \<^verbatim>\<open>fkfs.cpp\<close>: header checksums, creation and configuration of a file system
  object, block reads and writes with their statistics, the header block with its two slots, and
  mounting (\<^verbatim>\<open>fkfs_initialize\<close>). Logging macros expand to nothing and are left out.
\<close>

section \<open>Header checksums\<close>

definition fkfs_header_crc :: "fkfs_header_t \<Rightarrow> u16" where
  "fkfs_header_crc h = crc16_update 31337 (take FKFS_HEADER_SIZE_MINUS_CRC (header_bytes h))"

definition fkfs_header_crc_valid :: "fkfs_header_t \<Rightarrow> bool" where
  "fkfs_header_crc_valid h \<longleftrightarrow> header_crc h = fkfs_header_crc h"

definition fkfs_header_crc_update :: "fkfs_header_t \<Rightarrow> u8 \<times> fkfs_header_t" where
  "fkfs_header_crc_update h =
     (let actual = fkfs_header_crc h in (ucast actual, h\<lparr>header_crc := actual\<rparr>))"

section \<open>Creation and configuration\<close>

definition fkfs_statistics_zero :: fkfs_statistics_t where
  "fkfs_statistics_zero = \<lparr> stat_blockReads = 0, stat_blockWrites = 0, stat_iterateCalls = 0,
     stat_iterateTime = 0, stat_writeTime = 0, stat_readTime = 0 \<rparr>"

definition file_zero :: fkfs_file_t where
  "file_zero = \<lparr> file_name = memzero FKFS_FILE_NAME_MAX, file_version = 0, file_startBlock = 0,
     file_startOffset = 0, file_endBlock = 0, file_endOffset = 0, file_size = 0 \<rparr>"

definition header_zero :: fkfs_header_t where
  "header_zero = \<lparr> header_version = 0, header_generation = 0, header_block = 0,
     header_offset = 0, header_time = 0, header_files = replicate FKFS_FILES_MAX file_zero,
     header_crc = 0 \<rparr>"

definition settings_zero :: fkfs_file_runtime_settings_t where
  "settings_zero = \<lparr> settings_sync = 0, settings_priority = 0 \<rparr>"

definition fkfs_create :: "'d platform \<Rightarrow> 'd fkfs_t \<Rightarrow> bool \<times> 'd fkfs_t" where
  "fkfs_create P fs =
     (True, \<lparr> fs_headerIndex = 0, fs_cachedBlockDirty = False, fs_cachedBlockNumber = 0,
        fs_numberOfBlocks = 0, fs_header = header_zero, fs_sd = plat_memzero P (fs_sd fs),
        fs_buffer = memzero SD_RAW_BLOCK_SIZE,
        fs_files = replicate FKFS_FILES_MAX settings_zero,
        fs_statistics = fkfs_statistics_zero \<rparr>)"

text \<open>\<^verbatim>\<open>fs->header.files[n] = f(fs->header.files[n])\<close>\<close>

definition fs_file_update :: "u8 \<Rightarrow> (fkfs_file_t \<Rightarrow> fkfs_file_t) \<Rightarrow> 'd fkfs_t \<Rightarrow> 'd fkfs_t" where
  "fs_file_update n g fs = fs\<lparr>fs_header := (fs_header fs)
     \<lparr>header_files := (header_files (fs_header fs))
        [unat n := g (header_files (fs_header fs) ! unat n)]\<rparr>\<rparr>"

definition fkfs_initialize_file ::
  "'d platform \<Rightarrow> 'd fkfs_t \<Rightarrow> u8 \<Rightarrow> u8 \<Rightarrow> u8 \<Rightarrow> bytes \<Rightarrow> (bool \<times> 'd fkfs_t) option" where
  "fkfs_initialize_file P fs fileNumber priority sync name =
     (if unat fileNumber < FKFS_FILES_MAX then
        let fs = fs\<lparr>fs_files := (fs_files fs)
              [unat fileNumber := \<lparr>settings_sync = sync, settings_priority = priority\<rparr>]\<rparr>;
            (r, sd) = plat_random P (fs_sd fs) UINT16_MAX;
            fs = fs\<lparr>fs_sd := sd\<rparr>
        in Some (True, fs_file_update fileNumber (\<lambda>file. file
              \<lparr> file_name := strncpy name FKFS_FILE_NAME_MAX,
                file_version := ucast r,
                file_startBlock := FKFS_FIRST_BLOCK,
                file_startOffset := 0,
                file_endOffset := 0 \<rparr>) fs)
      else None)"

fun number_of_files_loop :: "u8 \<Rightarrow> fkfs_file_t list \<Rightarrow> u8" where
  "number_of_files_loop counter [] = 0"
| "number_of_files_loop counter (file # files) =
     (if file_name file ! 0 = 0 then counter else number_of_files_loop (counter + 1) files)"

definition fkfs_number_of_files :: "'d fkfs_t \<Rightarrow> u8" where
  "fkfs_number_of_files fs = number_of_files_loop 0 (header_files (fs_header fs))"

definition fkfs_get_file ::
  "'d fkfs_t \<Rightarrow> u8 \<Rightarrow> fkfs_file_info_t \<Rightarrow> (bool \<times> fkfs_file_info_t) option" where
  "fkfs_get_file fs fileNumber info =
     (if unat fileNumber < FKFS_FILES_MAX then
        let settings = fs_files fs ! unat fileNumber;
            file = header_files (fs_header fs) ! unat fileNumber
        in Some (True, info
             \<lparr> info_sync := settings_sync settings, info_priority := settings_priority settings,
               info_name := strncpy (file_name file) FKFS_FILE_NAME_MAX,
               info_version := file_version file, info_size := file_size file \<rparr>)
      else None)"

section \<open>Block reads and writes\<close>

definition fs_millis :: "'d platform \<Rightarrow> 'd fkfs_t \<Rightarrow> u32 \<times> 'd fkfs_t" where
  "fs_millis P fs = (let (t, sd) = plat_millis P (fs_sd fs) in (t, fs\<lparr>fs_sd := sd\<rparr>))"

definition fs_stat_update ::
  "(fkfs_statistics_t \<Rightarrow> fkfs_statistics_t) \<Rightarrow> 'd fkfs_t \<Rightarrow> 'd fkfs_t" where
  "fs_stat_update g fs = fs\<lparr>fs_statistics := g (fs_statistics fs)\<rparr>"

definition fkfs_read_block ::
  "'d platform \<Rightarrow> 'd fkfs_t \<Rightarrow> u32 \<Rightarrow> bytes \<Rightarrow> (bool \<times> bytes \<times> 'd fkfs_t) option" where
  "fkfs_read_block P fs block buffer =
     (let fs = fs_stat_update (\<lambda>s. s\<lparr>stat_blockReads := stat_blockReads s + 1\<rparr>) fs;
          (started, fs) = fs_millis P fs
      in do {
        (status, buffer, sd) \<leftarrow> plat_read_block P (fs_sd fs) block buffer;
        let (now, fs) = fs_millis P (fs\<lparr>fs_sd := sd\<rparr>);
        Some (status, buffer,
          fs_stat_update (\<lambda>s. s\<lparr>stat_readTime := stat_readTime s + (now - started)\<rparr>) fs)
      })"

definition fkfs_write_block ::
  "'d platform \<Rightarrow> 'd fkfs_t \<Rightarrow> u32 \<Rightarrow> bytes \<Rightarrow> (bool \<times> 'd fkfs_t) option" where
  "fkfs_write_block P fs block buffer =
     (let fs = fs_stat_update (\<lambda>s. s\<lparr>stat_blockWrites := stat_blockWrites s + 1\<rparr>) fs;
          (started, fs) = fs_millis P fs
      in do {
        (status, sd) \<leftarrow> plat_write_block P (fs_sd fs) block buffer;
        let (now, fs) = fs_millis P (fs\<lparr>fs_sd := sd\<rparr>);
        Some (status,
          fs_stat_update (\<lambda>s. s\<lparr>stat_writeTime := stat_writeTime s + (now - started)\<rparr>) fs)
      })"

definition fkfs_header_write :: "'d platform \<Rightarrow> 'd fkfs_t \<Rightarrow> bool \<Rightarrow> (bool \<times> 'd fkfs_t) option" where
  "fkfs_header_write P fs wipe = do {
     (ok, buffer, fs) \<leftarrow>
       (if \<not> wipe then fkfs_read_block P fs 0 (memzero SD_RAW_BLOCK_SIZE)
        else Some (True, memzero SD_RAW_BLOCK_SIZE, fs));
     if \<not> ok then Some (False, fs)
     else do {
       let fs = fs\<lparr>fs_header := snd (fkfs_header_crc_update (fs_header fs))\<rparr>;
       buffer \<leftarrow> mem_write buffer (sizeof_fkfs_header_t * unat (fs_headerIndex fs))
                   (header_bytes (fs_header fs));
       (ok, fs) \<leftarrow> fkfs_write_block P fs 0 buffer;
       if \<not> ok then Some (False, fs) else Some (True, fs)
     }
   }"

definition fkfs_block_ensure :: "'d platform \<Rightarrow> 'd fkfs_t \<Rightarrow> u32 \<Rightarrow> (bool \<times> 'd fkfs_t) option" where
  "fkfs_block_ensure P fs block =
     (if fs_cachedBlockNumber fs \<noteq> block then do {
        (ok, buffer, fs) \<leftarrow> fkfs_read_block P fs block (fs_buffer fs);
        let fs = fs\<lparr>fs_buffer := buffer\<rparr>;
        if \<not> ok then Some (False, fs)
        else Some (True, fs\<lparr>fs_cachedBlockNumber := block, fs_cachedBlockDirty := False\<rparr>)
      }
      else Some (True, fs))"

section \<open>Mounting\<close>

text \<open>The loop that gives every file a fresh version and an empty extent at \<open>block\<close>.\<close>

fun fresh_files :: "'d platform \<Rightarrow> u32 \<Rightarrow> fkfs_file_t list \<Rightarrow> 'd \<Rightarrow> fkfs_file_t list \<times> 'd" where
  "fresh_files P block [] sd = ([], sd)"
| "fresh_files P block (file # files) sd =
     (let (r, sd) = plat_random P sd UINT16_MAX;
          file = file\<lparr> file_version := ucast r, file_size := 0,
                       file_startBlock := block, file_startOffset := 0,
                       file_endBlock := block, file_endOffset := 0 \<rparr>;
          (files, sd) = fresh_files P block files sd
      in (file # files, sd))"

definition copy_name :: "fkfs_file_t \<Rightarrow> fkfs_file_t \<Rightarrow> fkfs_file_t" where
  "copy_name dst src = dst\<lparr>file_name := strncpy (file_name src) FKFS_FILE_NAME_MAX\<rparr>"

text \<open>Which of the two header slots a mount trusts.\<close>

definition select_header_index :: "fkfs_header_t \<Rightarrow> fkfs_header_t \<Rightarrow> u8" where
  "select_header_index h0 h1 =
     (if \<not> fkfs_header_crc_valid h1 then 0
      else if \<not> fkfs_header_crc_valid h0 then 1
      else if header_generation h0 > header_generation h1 then 0
      else 1)"

text \<open>The branch of \<^verbatim>\<open>fkfs_initialize\<close> for a new card or a requested wipe.\<close>

definition fkfs_initialize_wipe :: "'d platform \<Rightarrow> 'd fkfs_t \<Rightarrow> (bool \<times> 'd fkfs_t) option" where
  "fkfs_initialize_wipe P fs =
     (let h = (fs_header fs)\<lparr>header_block := FKFS_FIRST_BLOCK, header_generation := 0\<rparr>;
          (files, sd) = fresh_files P (header_block h) (header_files h) (fs_sd fs);
          fs = fs\<lparr>fs_header := h\<lparr>header_files := files\<rparr>, fs_sd := sd\<rparr>
      in do {
        buffer \<leftarrow> mem_write (fs_buffer fs) (sizeof_fkfs_header_t * unat (fs_headerIndex fs))
                    (header_bytes (fs_header fs));
        (ok, fs) \<leftarrow> fkfs_header_write P (fs\<lparr>fs_buffer := buffer\<rparr>) True;
        if \<not> ok then Some (False, fs)
        else do {
          let fs = fs\<lparr>fs_header := (fs_header fs)\<lparr>header_generation := 1\<rparr>, fs_headerIndex := 1\<rparr>;
          buffer \<leftarrow> mem_write (fs_buffer fs) (sizeof_fkfs_header_t * unat (fs_headerIndex fs))
                      (header_bytes (fs_header fs));
          (ok, fs) \<leftarrow> fkfs_header_write P (fs\<lparr>fs_buffer := buffer\<rparr>) False;
          if \<not> ok then Some (False, fs) else Some (True, fs)
        }
      })"

text \<open>The branch that loads one of the two headers, keeping the configured names.\<close>

definition fkfs_initialize_load :: "'d fkfs_t \<Rightarrow> (bool \<times> 'd fkfs_t) option" where
  "fkfs_initialize_load fs =
     (let index = select_header_index (header_at (fs_buffer fs) 0) (header_at (fs_buffer fs) 1);
          h = header_at (fs_buffer fs) (unat index);
          h = h\<lparr>header_files := map2 copy_name (header_files h) (header_files (fs_header fs))\<rparr>
      in do {
        buffer \<leftarrow> mem_write (fs_buffer fs) (sizeof_fkfs_header_t * unat index) (header_bytes h);
        Some (True, fs\<lparr>fs_headerIndex := index, fs_buffer := buffer, fs_header := h\<rparr>)
      })"

definition fkfs_initialize :: "'d platform \<Rightarrow> 'd fkfs_t \<Rightarrow> bool \<Rightarrow> (bool \<times> 'd fkfs_t) option" where
  "fkfs_initialize P fs wipe = do {
     (n, sd) \<leftarrow> plat_card_size P (fs_sd fs);
     let fs = fs\<lparr>fs_numberOfBlocks := n, fs_sd := sd\<rparr>;
     \<comment> \<open>\<^verbatim>\<open>memzero(fs->buffer, sizeof(SD_RAW_BLOCK_SIZE))\<close>: the size of a \<^verbatim>\<open>uint16_t\<close>, two bytes\<close>
     buffer \<leftarrow> mem_write (fs_buffer fs) 0 (memzero 2);
     let fs = fs\<lparr>fs_buffer := buffer, fs_statistics := fkfs_statistics_zero\<rparr>;
     (ok, buffer, fs) \<leftarrow> fkfs_read_block P fs 0 (fs_buffer fs);
     let fs = fs\<lparr>fs_buffer := buffer\<rparr>;
     if \<not> ok then Some (False, fs)
     else if wipe \<or> (\<not> fkfs_header_crc_valid (header_at (fs_buffer fs) 0)
                     \<and> \<not> fkfs_header_crc_valid (header_at (fs_buffer fs) 1))
     then fkfs_initialize_wipe P fs
     else fkfs_initialize_load fs
   }"

end
