(* ===== verification/Fkfs_Append.thy ===== *)
theory Fkfs_Append
  imports Fkfs_Core
begin

text \<open>
  The write path of \<^verbatim>\<open>fkfs.cpp\<close>: the check of one entry of a block, the search for a free
  offset in a block, synchronisation with the card, allocation over at most five blocks, and
  \<^verbatim>\<open>fkfs_file_append\<close>.

  A pointer into a buffer is the list of bytes from that point to the end of the buffer, so that
  reading past the end is visible as a list that is too short.
\<close>

section \<open>Checking an entry\<close>

datatype search_status =
    FKFS_OFFSET_SEARCH_STATUS_GOOD
  | FKFS_OFFSET_SEARCH_STATUS_SIZE
  | FKFS_OFFSET_SEARCH_STATUS_CRC
  | FKFS_OFFSET_SEARCH_STATUS_PRIORITY
  | FKFS_OFFSET_SEARCH_STATUS_EOB

fun block_check_str :: "search_status \<Rightarrow> string" where
  "block_check_str FKFS_OFFSET_SEARCH_STATUS_GOOD = ''good''"
| "block_check_str FKFS_OFFSET_SEARCH_STATUS_SIZE = ''size''"
| "block_check_str FKFS_OFFSET_SEARCH_STATUS_CRC = ''crc''"
| "block_check_str FKFS_OFFSET_SEARCH_STATUS_PRIORITY = ''priority''"
| "block_check_str FKFS_OFFSET_SEARCH_STATUS_EOB = ''eob''"

record fkfs_offset_search_t =
  search_offset :: u16
  search_status :: search_status

definition fkfs_block_crc :: "fkfs_file_t \<Rightarrow> fkfs_entry_t \<Rightarrow> bytes \<Rightarrow> u16 option" where
  "fkfs_block_crc file entry data =
     (let crc = crc16_update (file_version file)
                  (take FKFS_ENTRY_SIZE_MINUS_CRC (entry_bytes entry))
      in map_option (crc16_update crc) (mem_read data 0 (unat (entry_size entry))))"

definition fkfs_block_check :: "'d fkfs_t \<Rightarrow> bytes \<Rightarrow> search_status option" where
  "fkfs_block_check fs ptr = do {
     bs \<leftarrow> mem_read ptr 0 sizeof_fkfs_entry_t;
     let entry = entry_of_bytes bs;
     if unat (entry_file entry) \<ge> FKFS_FILES_MAX then Some FKFS_OFFSET_SEARCH_STATUS_SIZE
     else if entry_size entry = 0 \<or> unat (entry_size entry) \<ge> SD_RAW_BLOCK_SIZE \<or>
             entry_available entry = 0 \<or> unat (entry_available entry) \<ge> SD_RAW_BLOCK_SIZE
     then Some FKFS_OFFSET_SEARCH_STATUS_SIZE
     else do {
       let blockFile = header_files (fs_header fs) ! unat (entry_file entry);
       expected \<leftarrow> fkfs_block_crc blockFile entry (drop sizeof_fkfs_entry_t ptr);
       if entry_crc entry \<noteq> expected then Some FKFS_OFFSET_SEARCH_STATUS_CRC
       else Some FKFS_OFFSET_SEARCH_STATUS_GOOD
     }
   }"

text \<open>What a check that is not a size error says about the entry under the pointer.\<close>

lemma fkfs_block_check_bounds:
  assumes "fkfs_block_check fs ptr = Some s" "s \<noteq> FKFS_OFFSET_SEARCH_STATUS_SIZE"
  defines "entry \<equiv> entry_of_bytes (take 7 ptr)"
  shows "7 + unat (entry_size entry) \<le> length ptr"
    "0 < unat (entry_size entry)" "unat (entry_size entry) < 512"
    "0 < unat (entry_available entry)" "unat (entry_available entry) < 512"
    "unat (entry_file entry) < 4"
    "s = FKFS_OFFSET_SEARCH_STATUS_CRC \<or> s = FKFS_OFFSET_SEARCH_STATUS_GOOD"
  using assms
  by (auto simp: fkfs_block_check_def fkfs_block_crc_def mem_read_def bind_eq_Some_conv Let_def
      unat_gt_0 split: if_splits)

lemma fkfs_block_check_good:
  assumes "fkfs_block_check fs ptr = Some FKFS_OFFSET_SEARCH_STATUS_GOOD"
  defines "entry \<equiv> entry_of_bytes (take 7 ptr)"
  shows "entry_crc entry = crc16_update
    (crc16_update (file_version (header_files (fs_header fs) ! unat (entry_file entry))) (take 5 (entry_bytes entry)))
    (take (unat (entry_size entry)) (drop 7 ptr))"
  using assms
  by (auto simp: fkfs_block_check_def fkfs_block_crc_def mem_read_def bind_eq_Some_conv Let_def split: if_splits)

section \<open>Searching a block for a place\<close>

text \<open>
  The \<^verbatim>\<open>do ... while\<close> loop of \<^verbatim>\<open>fkfs_block_available_offset\<close>. \<open>search->offset\<close> is a
  \<^verbatim>\<open>uint16_t\<close>; the loop condition is evaluated in \<^verbatim>\<open>int\<close>, so it does not wrap. The array
  behind \<open>buffer\<close> has \<^verbatim>\<open>SD_RAW_BLOCK_SIZE\<close> bytes. The \<^verbatim>\<open>file\<close> argument is only logged.
\<close>

function fkfs_block_available_offset ::
  "'d fkfs_t \<Rightarrow> u8 \<Rightarrow> u16 \<Rightarrow> bytes \<Rightarrow> u16 \<Rightarrow> (bool \<times> fkfs_offset_search_t) option" where
  "fkfs_block_available_offset fs priority required buffer offset =
     (let iter = drop (unat offset) (take SD_RAW_BLOCK_SIZE buffer);
          entry = entry_of_bytes (take sizeof_fkfs_entry_t iter)
      in case fkfs_block_check fs iter of
        None \<Rightarrow> None
      | Some status \<Rightarrow>
          if status = FKFS_OFFSET_SEARCH_STATUS_SIZE \<or> status = FKFS_OFFSET_SEARCH_STATUS_CRC
          then Some (True, \<lparr> search_offset = offset, search_status = status \<rparr>)
          else if settings_priority (fs_files fs ! unat (entry_file entry)) > priority
                  \<and> entry_available entry \<ge> required
          then Some (True, \<lparr> search_offset = offset,
                             search_status = FKFS_OFFSET_SEARCH_STATUS_PRIORITY \<rparr>)
          else let occupied = 7 + entry_available entry; offset' = offset + occupied
            in if unat offset' + unat required < SD_RAW_BLOCK_SIZE
               then fkfs_block_available_offset fs priority required buffer offset'
               else Some (False, \<lparr> search_offset = offset',
                                   search_status = FKFS_OFFSET_SEARCH_STATUS_EOB \<rparr>))"
  by pat_completeness auto

lemma unat_entry_advance:
  assumes "unat (offset :: u16) < 512" "unat (avail :: u16) < 512"
  shows "unat (offset + (7 + avail)) = unat offset + 7 + unat avail"
  using assms by (simp add: unat_word_ariths)

lemma available_offset_step:
  assumes "fkfs_block_check fs (drop (unat offset) (take SD_RAW_BLOCK_SIZE buffer)) = Some s"
    and "s \<noteq> FKFS_OFFSET_SEARCH_STATUS_SIZE"
    and "entry = entry_of_bytes (take 7 (drop (unat offset) (take SD_RAW_BLOCK_SIZE buffer)))"
  shows "unat (offset + (7 + entry_available entry))
      = unat offset + 7 + unat (entry_available entry)"
    and "unat offset \<le> 504" and "0 < unat (entry_available entry)"
proof -
  note b = fkfs_block_check_bounds [OF assms(1,2), folded assms(3)]
  from b(1,2) show "unat offset \<le> 504" by simp
  then show "unat (offset + (7 + entry_available entry))
      = unat offset + 7 + unat (entry_available entry)"
    using b(5) by (intro unat_entry_advance) simp_all
  from b(4) show "0 < unat (entry_available entry)" .
qed

termination fkfs_block_available_offset
proof (relation "measure (\<lambda>(fs, p, r, b, offset). 512 - unat offset)", goal_cases)
  case 1
  show ?case by simp
next
  case (2 fs priority required buffer offset iter entry status occupied offset')
  then have s: "status \<noteq> FKFS_OFFSET_SEARCH_STATUS_SIZE" by simp
  note st = available_offset_step [OF 2(3) [unfolded 2(1)] s, OF 2(2) [unfolded 2(1)]]
  from st 2(6,7) show ?case by simp
qed

declare fkfs_block_available_offset.simps [simp del]

section \<open>Synchronisation with the card\<close>

definition fs_header_map :: "(fkfs_header_t \<Rightarrow> fkfs_header_t) \<Rightarrow> 'd fkfs_t \<Rightarrow> 'd fkfs_t" where
  "fs_header_map g fs = fs\<lparr>fs_header := g (fs_header fs)\<rparr>"

definition fkfs_fsync :: "'d platform \<Rightarrow> 'd fkfs_t \<Rightarrow> (bool \<times> 'd fkfs_t) option" where
  "fkfs_fsync P fs =
     (if fs_cachedBlockDirty fs then do {
        (ok, fs) \<leftarrow> fkfs_write_block P fs (header_block (fs_header fs)) (fs_buffer fs);
        if \<not> ok then Some (False, fs)
        else do {
          let fs = fs\<lparr>fs_cachedBlockNumber := UINT32_MAX, fs_cachedBlockDirty := False\<rparr>;
          let fs = fs_header_map (\<lambda>h. h\<lparr>header_generation := header_generation h + 1\<rparr>) fs;
          let fs = fs\<lparr>fs_headerIndex := (fs_headerIndex fs + 1) mod 2\<rparr>;
          (ok, fs) \<leftarrow> fkfs_header_write P fs False;
          if \<not> ok then Some (False, fs)
          else Some (True, fs\<lparr>fs_cachedBlockNumber := UINT32_MAX, fs_cachedBlockDirty := False\<rparr>)
        }
      }
      else Some (True, fs))"

definition fkfs_touch :: "'d platform \<Rightarrow> 'd fkfs_t \<Rightarrow> u32 \<Rightarrow> (bool \<times> 'd fkfs_t) option" where
  "fkfs_touch P fs time = do {
     (ok, fs) \<leftarrow> fkfs_header_write P (fs_header_map (\<lambda>h. h\<lparr>header_time := time\<rparr>) fs) False;
     if \<not> ok then Some (False, fs) else Some (True, fs)
   }"

definition fkfs_flush :: "'d platform \<Rightarrow> 'd fkfs_t \<Rightarrow> (bool \<times> 'd fkfs_t) option" where
  "fkfs_flush P fs = do {
     let (now, fs) = fs_millis P fs;
     (ok, fs) \<leftarrow> fkfs_touch P fs now;
     if \<not> ok then Some (False, fs)
     else do {
       (ok, fs) \<leftarrow> fkfs_fsync P fs;
       if \<not> ok then Some (False, fs) else Some (True, fs)
     }
   }"

section \<open>Allocation\<close>

text \<open>Moving the head of the log to the next block, with the wrap around at the end of the
  card.\<close>

definition next_log_block :: "u32 \<Rightarrow> u32 \<Rightarrow> u32" where
  "next_log_block numberOfBlocks block =
     (let block = block + 1
      in if block = numberOfBlocks - 2 \<or> block = UINT32_MAX then FKFS_FIRST_BLOCK else block)"

text \<open>The first part of the loop body: flush and move on when the entry cannot fit.\<close>

definition allocate_move ::
  "'d platform \<Rightarrow> 'd fkfs_t \<Rightarrow> u16 \<Rightarrow> u16 \<Rightarrow> nat \<Rightarrow> (bool \<times> 'd fkfs_t \<times> u16 \<times> nat) option" where
  "allocate_move P fs required newOffset visitedBlocks =
     (if unat required + unat newOffset > SD_RAW_BLOCK_SIZE then do {
        (ok, fs) \<leftarrow> fkfs_fsync P fs;
        if \<not> ok then Some (False, fs, newOffset, visitedBlocks)
        else Some (True,
          fs_header_map (\<lambda>h. h\<lparr> header_block := next_log_block (fs_numberOfBlocks fs) (header_block h),
                                header_offset := 0 \<rparr>) fs,
          0, visitedBlocks + 1)
      }
      else Some (True, fs, newOffset, visitedBlocks))"

function allocate_loop ::
  "'d platform \<Rightarrow> u8 \<Rightarrow> u16 \<Rightarrow> 'd fkfs_t \<Rightarrow> u16 \<Rightarrow> nat \<Rightarrow> (bool \<times> 'd fkfs_t) option" where
  "allocate_loop P fileNumber required fs newOffset visitedBlocks =
     (case allocate_move P fs required newOffset visitedBlocks of
        None \<Rightarrow> None
      | Some (ok, fs, newOffset, visitedBlocks) \<Rightarrow>
          if \<not> ok then Some (False, fs)
          else case fkfs_block_ensure P fs (header_block (fs_header fs)) of
            None \<Rightarrow> None
          | Some (ok, fs) \<Rightarrow>
              if \<not> ok then Some (False, fs)
              else case fkfs_block_available_offset fs
                          (settings_priority (fs_files fs ! unat fileNumber))
                          required (fs_buffer fs) newOffset of
                None \<Rightarrow> None
              | Some (found, search) \<Rightarrow>
                  if found
                  then Some (True, fs_header_map (\<lambda>h. h\<lparr>header_offset := search_offset search\<rparr>) fs)
                  else if visitedBlocks < FKFS_SEEK_BLOCKS_MAX
                  then allocate_loop P fileNumber required fs 512 visitedBlocks
                  else Some (False, fs))"
  by pat_completeness auto

lemma available_offset_in_block:
  "fkfs_block_available_offset fs priority required buffer offset = Some r \<Longrightarrow> unat offset < 512"
  by (subst (asm) fkfs_block_available_offset.simps)
    (auto simp: Let_def fkfs_block_check_def mem_read_def split: option.splits if_splits)

termination allocate_loop
proof (relation "measures [\<lambda>(P, f, r, fs, newOffset, visited). 5 - visited,
    \<lambda>(P, f, r, fs, newOffset, visited). 512 - unat newOffset]", goal_cases)
  case 1
  show ?case by simp
next
  case 2
  then show ?case
    by (auto simp: allocate_move_def bind_eq_Some_conv split: if_splits
        dest!: available_offset_in_block)
qed

declare allocate_loop.simps [simp del]

definition fkfs_file_allocate_block ::
  "'d platform \<Rightarrow> 'd fkfs_t \<Rightarrow> u8 \<Rightarrow> u16 \<Rightarrow> (bool \<times> 'd fkfs_t) option" where
  "fkfs_file_allocate_block P fs fileNumber required =
     allocate_loop P fileNumber required fs (header_offset (fs_header fs)) 0"

section \<open>Appending\<close>

definition fkfs_file_append ::
  "'d platform \<Rightarrow> 'd fkfs_t \<Rightarrow> u8 \<Rightarrow> u16 \<Rightarrow> bytes \<Rightarrow> (bool \<times> 'd fkfs_t) option" where
  "fkfs_file_append P fs fileNumber sz data =
     (if unat fileNumber \<ge> FKFS_FILES_MAX then None
      else let required = 7 + sz in
      if sz = 0 \<or> unat required > SD_RAW_BLOCK_SIZE then Some (False, fs)
      else do {
        (ok, fs) \<leftarrow> fkfs_file_allocate_block P fs fileNumber required;
        if \<not> ok then Some (False, fs)
        else do {
          let file = header_files (fs_header fs) ! unat fileNumber;
          let entry = \<lparr> entry_file = fileNumber, entry_size = sz, entry_available = sz,
                        entry_crc = 0 \<rparr>;
          crc \<leftarrow> fkfs_block_crc file entry data;
          let entry = entry\<lparr>entry_crc := crc\<rparr>;
          let offset = unat (header_offset (fs_header fs));
          buffer \<leftarrow> mem_write (fs_buffer fs) offset (entry_bytes entry);
          payload \<leftarrow> mem_read data 0 (unat sz);
          buffer \<leftarrow> mem_write buffer (offset + sizeof_fkfs_entry_t) payload;
          let fs = fs\<lparr>fs_buffer := buffer, fs_cachedBlockDirty := True\<rparr>;
          let fs = fs_header_map (\<lambda>h. h\<lparr>header_offset := header_offset h + required\<rparr>) fs;
          let fs = fs_file_update fileNumber (\<lambda>file. file
                \<lparr> file_endBlock := header_block (fs_header fs),
                  file_endOffset := header_offset (fs_header fs),
                  file_size := file_size file + ucast sz \<rparr>) fs;
          if settings_sync (fs_files fs ! unat fileNumber) \<noteq> 0 then do {
            (ok, fs) \<leftarrow> fkfs_fsync P fs;
            if \<not> ok then Some (False, fs) else Some (True, fs)
          }
          else Some (True, fs)
        }
      })"

end
