(* ===== verification/Fkfs_Iter.thy ===== *)
theory Fkfs_Iter
  imports Fkfs_Append
begin

text \<open>
  The read path of \<^verbatim>\<open>fkfs.cpp\<close>: iterator tokens, \<^verbatim>\<open>fkfs_file_iterate\<close> and truncation. The
  scan loop of \<^verbatim>\<open>fkfs_file_iterate\<close> has no bound of its own when the configuration sets none, so it
  is a partial function; the loop of \<^verbatim>\<open>calculate_file_size\<close>, which calls it, is one too.
\<close>

section \<open>Tokens\<close>

definition fkfs_file_iterator_create ::
  "'d fkfs_t \<Rightarrow> u8 \<Rightarrow> fkfs_file_iter_t \<Rightarrow> (bool \<times> fkfs_file_iter_t) option" where
  "fkfs_file_iterator_create fs fileNumber iter =
     (if unat fileNumber < FKFS_FILES_MAX then
        let file = header_files (fs_header fs) ! unat fileNumber
        in Some (True, iter\<lparr>iter_token :=
             \<lparr> token_file = fileNumber, token_block = file_startBlock file,
               token_offset = file_startOffset file, token_lastBlock = file_endBlock file,
               token_lastOffset = file_endOffset file, token_size = file_size file \<rparr>\<rparr>)
      else None)"

definition fkfs_file_iterator_reopen ::
  "'d fkfs_t \<Rightarrow> fkfs_file_iter_t \<Rightarrow> fkfs_iterator_token_t \<Rightarrow> (bool \<times> fkfs_file_iter_t) option" where
  "fkfs_file_iterator_reopen fs iter token =
     (if unat (token_file token) < FKFS_FILES_MAX then
        let file = header_files (fs_header fs) ! unat (token_file token)
        in if file_size file < token_size token then do {
             (_, iter) \<leftarrow> fkfs_file_iterator_create fs (token_file token) iter;
             Some (True, iter)
           }
           else Some (True, iter\<lparr>iter_token :=
             \<lparr> token_file = token_file token, token_block = token_block token,
               token_offset = token_offset token, token_lastBlock = file_endBlock file,
               token_lastOffset = file_endOffset file, token_size = file_size file \<rparr>\<rparr>)
      else None)"

definition fkfs_file_iterator_resume ::
  "'d fkfs_t \<Rightarrow> fkfs_file_iter_t \<Rightarrow> fkfs_iterator_token_t \<Rightarrow> (bool \<times> fkfs_file_iter_t) option" where
  "fkfs_file_iterator_resume fs iter token =
     (if unat (token_file token) < FKFS_FILES_MAX then
        let file = header_files (fs_header fs) ! unat (token_file token)
        in if file_size file < token_size token then do {
             (_, iter) \<leftarrow> fkfs_file_iterator_create fs (token_file token) iter;
             Some (True, iter)
           }
           else Some (True, iter\<lparr>iter_token :=
             \<lparr> token_file = token_file token, token_block = token_block token,
               token_offset = token_offset token, token_lastBlock = token_lastBlock token,
               token_lastOffset = token_lastOffset token, token_size = token_size token \<rparr>\<rparr>)
      else None)"

definition fkfs_file_iterator_done :: "fkfs_file_iter_t \<Rightarrow> bool" where
  "fkfs_file_iterator_done iter =
     (let t = iter_token iter
      in token_block t > token_lastBlock t
         \<or> (token_block t = token_lastBlock t \<and> token_offset t \<ge> token_lastOffset t))"

definition fkfs_file_iterator_valid :: "'d fkfs_t \<Rightarrow> fkfs_file_iter_t \<Rightarrow> bool" where
  "fkfs_file_iterator_valid fs iter =
     (let t = iter_token iter
      in token_block t > 0 \<and> token_block t \<le> header_block (fs_header fs)
         \<and> (token_block t < token_lastBlock t
            \<or> (token_block t = token_lastBlock t \<and> token_offset t \<le> token_lastOffset t)))"

definition token_map ::
  "(fkfs_iterator_token_t \<Rightarrow> fkfs_iterator_token_t) \<Rightarrow> fkfs_file_iter_t \<Rightarrow> fkfs_file_iter_t" where
  "token_map g iter = iter\<lparr>iter_token := g (iter_token iter)\<rparr>"

definition fkfs_file_iterator_move_end :: "fkfs_file_iter_t \<Rightarrow> bool \<times> fkfs_file_iter_t" where
  "fkfs_file_iterator_move_end iter =
     (True, token_map (\<lambda>t. t\<lparr>token_block := token_lastBlock t, token_offset := token_lastOffset t\<rparr>) iter)"

text \<open>\<^verbatim>\<open>iter->token.offset += entry->available + sizeof(fkfs_entry_t)\<close>, in \<^verbatim>\<open>uint16_t\<close>\<close>

definition advance_token :: "fkfs_entry_t \<Rightarrow> fkfs_file_iter_t \<Rightarrow> fkfs_file_iter_t" where
  "advance_token entry = token_map (\<lambda>t. t\<lparr>token_offset := token_offset t + (entry_available entry + 7)\<rparr>)"

text \<open>\<^verbatim>\<open>fs->buffer + iter->token.offset\<close>\<close>

definition iter_ptr :: "'d fkfs_t \<Rightarrow> fkfs_file_iter_t \<Rightarrow> bytes" where
  "iter_ptr fs iter = drop (unat (token_offset (iter_token iter))) (take SD_RAW_BLOCK_SIZE (fs_buffer fs))"

definition fkfs_file_iterate_move ::
  "'d fkfs_t \<Rightarrow> bool \<Rightarrow> fkfs_file_iter_t \<Rightarrow> (bool \<times> fkfs_file_iter_t) option" where
  "fkfs_file_iterate_move fs checkBlock iter = do {
     let ptr = iter_ptr fs iter;
     ok \<leftarrow> (if checkBlock then do {
              check \<leftarrow> fkfs_block_check fs ptr;
              Some (\<not> (check \<noteq> FKFS_OFFSET_SEARCH_STATUS_CRC \<and> check \<noteq> FKFS_OFFSET_SEARCH_STATUS_GOOD))
            }
            else Some True);
     if \<not> ok then Some (False, iter)
     else do {
       bs \<leftarrow> mem_read ptr 0 sizeof_fkfs_entry_t;
       Some (True, advance_token (entry_of_bytes bs) iter)
     }
   }"

datatype ensure_status = FKFS_ENSURE_FAILED | FKFS_ENSURE_LOADED | FKFS_ENSURE_NOOP

definition fkfs_file_iterator_ensure ::
  "'d platform \<Rightarrow> 'd fkfs_t \<Rightarrow> fkfs_file_iter_t \<Rightarrow> (ensure_status \<times> 'd fkfs_t) option" where
  "fkfs_file_iterator_ensure P fs iter =
     (if fs_cachedBlockNumber fs = token_block (iter_token iter) then Some (FKFS_ENSURE_NOOP, fs)
      else do {
        (ok, fs) \<leftarrow> fkfs_block_ensure P fs (token_block (iter_token iter));
        if \<not> ok then Some (FKFS_ENSURE_FAILED, fs) else Some (FKFS_ENSURE_LOADED, fs)
      })"

section \<open>The scan\<close>

text \<open>
  One pass of the \<^verbatim>\<open>do ... while (true)\<close> loop. Leaving it by \<^verbatim>\<open>break\<close> is \<open>Inl\<close>, with the
  value of \<^verbatim>\<open>success\<close>; going round again is \<open>Inr\<close>, with the variables the loop carries.
\<close>

type_synonym 'd scan_state = "'d fkfs_t \<times> fkfs_file_iter_t \<times> u32 \<times> u32"

definition status_tick :: "'d platform \<Rightarrow> 'd fkfs_t \<Rightarrow> u32 \<Rightarrow> 'd fkfs_t \<times> u32" where
  "status_tick P fs lastStatus =
     (let (now, fs) = fs_millis P fs
      in if now - lastStatus > 1000 then (let (now, fs) = fs_millis P fs in (fs, now))
         else (fs, lastStatus))"

text \<open>The block the scan goes to after \<open>block\<close> was exhausted, and whether it stops there.\<close>

definition wrap_token :: "'d fkfs_t \<Rightarrow> fkfs_file_iter_t \<Rightarrow> fkfs_file_iter_t" where
  "wrap_token fs iter =
     (if token_block (iter_token iter) = fs_numberOfBlocks fs - 2
         \<or> token_block (iter_token iter) = UINT32_MAX
      then token_map (\<lambda>t. t\<lparr>token_block := FKFS_FIRST_BLOCK\<rparr>) iter else iter)"

definition scan_next_block ::
  "'d platform \<Rightarrow> fkfs_iterator_config_t \<Rightarrow> u32 \<Rightarrow> 'd fkfs_t \<Rightarrow> fkfs_file_iter_t \<Rightarrow> u32
     \<Rightarrow> bool \<times> 'd fkfs_t \<times> fkfs_file_iter_t \<times> u32" where
  "scan_next_block P config started fs iter maxBlocks =
     (let iter = token_map (\<lambda>t. t\<lparr>token_block := token_block t + 1, token_offset := 0\<rparr>) iter
      in if fkfs_file_iterator_done iter then (True, fs, iter, maxBlocks)
         else let iter = wrap_token fs iter;
                  maxBlocks = (if config_maxBlocks config > 0 then maxBlocks - 1 else maxBlocks);
                  maxBlocksReached = (config_maxBlocks config > 0 \<and> maxBlocks = 0);
                  (maxTimeReached, fs) =
                    (if config_maxTime config > 0
                     then (let (now, fs) = fs_millis P fs in (now - started > config_maxTime config, fs))
                     else (False, fs))
              in (maxBlocksReached \<or> maxTimeReached, fs, iter, maxBlocks))"

definition scan_body ::
  "'d platform \<Rightarrow> fkfs_iterator_config_t \<Rightarrow> u32 \<Rightarrow> 'd scan_state
     \<Rightarrow> ((bool \<times> 'd fkfs_t \<times> fkfs_file_iter_t) + 'd scan_state) option" where
  "scan_body P config started = (\<lambda>(fs, iter, lastStatus, maxBlocks). do {
     (ok, fs) \<leftarrow> fkfs_block_ensure P fs (token_block (iter_token iter));
     if \<not> ok then Some (Inl (False, fs, iter))
     else do {
       let ptr = iter_ptr fs iter;
       check \<leftarrow> fkfs_block_check fs ptr;
       if check = FKFS_OFFSET_SEARCH_STATUS_CRC \<or> check = FKFS_OFFSET_SEARCH_STATUS_GOOD then do {
         let entry = entry_of_bytes (take sizeof_fkfs_entry_t ptr);
         if check = FKFS_OFFSET_SEARCH_STATUS_GOOD \<and> entry_file entry = token_file (iter_token iter)
         then do {
           let iter = iter\<lparr> iter_size := entry_size entry,
                            iter_data := Some (unat (token_offset (iter_token iter)) + sizeof_fkfs_entry_t),
                            iter_iterated := iter_iterated iter + ucast (entry_size entry) \<rparr>;
           Some (Inl (True, fs, if \<not> config_manualNext config then advance_token entry iter else iter))
         }
         else do {
           let iter = advance_token entry iter;
           if fkfs_file_iterator_done iter then Some (Inl (False, fs, iter))
           else do {
             let (fs, lastStatus) = status_tick P fs lastStatus;
             Some (Inr (fs, iter, lastStatus, maxBlocks))
           }
         }
       }
       else do {
         let (stop, fs, iter, maxBlocks) = scan_next_block P config started fs iter maxBlocks;
         if stop then Some (Inl (False, fs, iter))
         else do {
           let (fs, lastStatus) = status_tick P fs lastStatus;
           Some (Inr (fs, iter, lastStatus, maxBlocks))
         }
       }
     }
   })"

partial_function (option) scan_loop ::
  "'d platform \<Rightarrow> fkfs_iterator_config_t \<Rightarrow> u32 \<Rightarrow> 'd scan_state
     \<Rightarrow> (bool \<times> 'd fkfs_t \<times> fkfs_file_iter_t) option" where
  "scan_loop P config started st = do {
     r \<leftarrow> scan_body P config started st;
     case r of Inl result \<Rightarrow> Some result | Inr st' \<Rightarrow> scan_loop P config started st'
   }"

definition fkfs_file_iterate ::
  "'d platform \<Rightarrow> 'd fkfs_t \<Rightarrow> fkfs_iterator_config_t \<Rightarrow> fkfs_file_iter_t
     \<Rightarrow> (bool \<times> 'd fkfs_t \<times> fkfs_file_iter_t) option" where
  "fkfs_file_iterate P fs config iter =
     (let fs = fs_stat_update (\<lambda>s. s\<lparr>stat_iterateCalls := stat_iterateCalls s + 1\<rparr>) fs
      in if \<not> fkfs_file_iterator_valid fs iter then Some (False, fs, iter)
         else if fkfs_file_iterator_done iter then Some (False, fs, iter)
         else do {
           let (started, fs) = fs_millis P fs;
           (success, fs, iter) \<leftarrow> scan_loop P config started (fs, iter, started, config_maxBlocks config);
           let (now, fs) = fs_millis P fs;
           Some (success,
             fs_stat_update (\<lambda>s. s\<lparr>stat_iterateTime := stat_iterateTime s + (now - started)\<rparr>) fs, iter)
         })"

section \<open>Truncation\<close>

definition fkfs_file_truncate :: "'d fkfs_t \<Rightarrow> u8 \<Rightarrow> (bool \<times> 'd fkfs_t) option" where
  "fkfs_file_truncate fs fileNumber =
     (if unat fileNumber < FKFS_FILES_MAX then
        Some (True, fs_file_update fileNumber (\<lambda>file. file
          \<lparr> file_version := file_version file + 1,
            file_startBlock := header_block (fs_header fs),
            file_endBlock := header_block (fs_header fs),
            file_startOffset := 0, file_endOffset := 0, file_size := 0 \<rparr>) fs)
      else None)"

fun truncate_loop :: "'d fkfs_t \<Rightarrow> u8 list \<Rightarrow> (bool \<times> 'd fkfs_t) option" where
  "truncate_loop fs [] = Some (True, fs)"
| "truncate_loop fs (i # is) = do { (_, fs) \<leftarrow> fkfs_file_truncate fs i; truncate_loop fs is }"

definition fkfs_file_truncate_all :: "'d fkfs_t \<Rightarrow> (bool \<times> 'd fkfs_t) option" where
  "fkfs_file_truncate_all fs = truncate_loop fs [0, 1, 2, 3]"

partial_function (option) file_size_loop ::
  "'d platform \<Rightarrow> fkfs_iterator_config_t \<Rightarrow> u8 \<Rightarrow> 'd fkfs_t \<Rightarrow> fkfs_file_iter_t
     \<Rightarrow> (bool \<times> 'd fkfs_t) option" where
  "file_size_loop P config fileNumber fs iter = do {
     (more, fs, iter) \<leftarrow> fkfs_file_iterate P fs config iter;
     if more
     then file_size_loop P config fileNumber
            (fs_file_update fileNumber (\<lambda>file. file\<lparr>file_size := file_size file + ucast (iter_size iter)\<rparr>) fs)
            iter
     else Some (True, fs)
   }"

text \<open>\<open>iter\<close> is a local variable the source does not initialise: the argument is whatever the
  stack holds.\<close>

definition calculate_file_size ::
  "'d platform \<Rightarrow> 'd fkfs_t \<Rightarrow> u8 \<Rightarrow> fkfs_file_iter_t \<Rightarrow> (bool \<times> 'd fkfs_t) option" where
  "calculate_file_size P fs fileNumber iter = do {
     let fs = fs_file_update fileNumber (\<lambda>file. file\<lparr>file_size := 0\<rparr>) fs;
     (_, iter) \<leftarrow> fkfs_file_iterator_create fs fileNumber iter;
     file_size_loop P \<lparr> config_maxBlocks = 10, config_maxTime = 0, config_manualNext = False \<rparr>
       fileNumber fs iter
   }"

definition fkfs_file_truncate_at ::
  "'d platform \<Rightarrow> 'd fkfs_t \<Rightarrow> fkfs_file_iter_t \<Rightarrow> fkfs_file_iter_t \<Rightarrow> (bool \<times> 'd fkfs_t) option" where
  "fkfs_file_truncate_at P fs iter stack =
     (let t = iter_token iter
      in if unat (token_file t) < FKFS_FILES_MAX then
           calculate_file_size P
             (fs_file_update (token_file t) (\<lambda>file. file\<lparr>file_startBlock := token_lastBlock t\<rparr>) fs)
             (token_file t) stack
         else None)"

end
