(* ===== verification/Fkfs_Persist.thy ===== *)
theory Fkfs_Persist
  imports Fkfs_Append
begin

text \<open>
  What the header block keeps. The file system writes its header alternately into two slots of
  block 0; a mount picks the slot whose checksum is valid and whose generation is highest. The
  theory shows, for every device that satisfies the contract, that a synchronisation puts the
  cached block and the header on the card and that the next mount finds exactly that header.
\<close>

section \<open>The state predicate\<close>

text \<open>The arrays inside the file system object have their declared lengths, and the header index
  names one of the two slots.\<close>

definition wf_fs :: "'d fkfs_t \<Rightarrow> bool" where
  "wf_fs fs \<longleftrightarrow> length (fs_buffer fs) = SD_RAW_BLOCK_SIZE \<and> wf_header (fs_header fs)
     \<and> length (fs_files fs) = FKFS_FILES_MAX \<and> unat (fs_headerIndex fs) < 2"

definition put_header :: "bytes \<Rightarrow> nat \<Rightarrow> fkfs_header_t \<Rightarrow> bytes" where
  "put_header buf i h = take (137 * i) buf @ header_bytes h @ drop (137 * i + 137) buf"

definition seal_header :: "fkfs_header_t \<Rightarrow> fkfs_header_t" where
  "seal_header h = h\<lparr>header_crc := fkfs_header_crc h\<rparr>"

text \<open>
  The file system object and block 0 agree: the slot the object points at holds a valid header of
  the object's generation, and a mount would choose that slot.
\<close>

definition mounted :: "bytes \<Rightarrow> 'd fkfs_t \<Rightarrow> bool" where
  "mounted block0 fs \<longleftrightarrow>
     (let i = fs_headerIndex fs; cur = header_at block0 (unat i)
      in unat i < 2 \<and> fkfs_header_crc_valid cur
         \<and> header_generation cur = header_generation (fs_header fs)
         \<and> select_header_index (header_at block0 0) (header_at block0 1) = i)"

text \<open>A header with the file names replaced by the configured ones.\<close>

definition with_names :: "fkfs_header_t \<Rightarrow> fkfs_header_t \<Rightarrow> fkfs_header_t" where
  "with_names h cfg = h\<lparr>header_files := map2 copy_name (header_files h) (header_files cfg)\<rparr>"

text \<open>A file with nothing in it, starting at \<open>block\<close>.\<close>

definition empty_file_at :: "u32 \<Rightarrow> fkfs_file_t \<Rightarrow> bool" where
  "empty_file_at block f \<longleftrightarrow> file_size f = 0 \<and> file_startBlock f = block \<and> file_startOffset f = 0
     \<and> file_endBlock f = block \<and> file_endOffset f = 0"

section \<open>Slots\<close>

lemma wf_header_upd [simp]:
  "wf_header (h\<lparr>header_crc := c\<rparr>) = wf_header h"
  "wf_header (h\<lparr>header_generation := g\<rparr>) = wf_header h"
  "wf_header (h\<lparr>header_time := t\<rparr>) = wf_header h"
  "wf_header (h\<lparr>header_block := b\<rparr>) = wf_header h"
  "wf_header (h\<lparr>header_offset := off\<rparr>) = wf_header h"
  by (simp_all add: wf_header_def)

lemma fkfs_header_crc_upd [simp]:
  assumes "wf_header h"
  shows "fkfs_header_crc (h\<lparr>header_crc := c\<rparr>) = fkfs_header_crc h"
proof -
  have "take 135 (header_bytes (h\<lparr>header_crc := c\<rparr>)) = take 135 (header_bytes h)"
    using assms by (simp add: header_bytes_def wf_header_def length_concat_files)
  then show ?thesis by (simp add: fkfs_header_crc_def)
qed

lemma seal_header_valid: "wf_header h \<Longrightarrow> fkfs_header_crc_valid (seal_header h)"
  by (simp add: fkfs_header_crc_valid_def seal_header_def)

lemma seal_header_fields [simp]:
  "header_generation (seal_header h) = header_generation h"
  "header_block (seal_header h) = header_block h"
  "header_offset (seal_header h) = header_offset h"
  "header_files (seal_header h) = header_files h"
  "header_time (seal_header h) = header_time h"
  "wf_header (seal_header h) = wf_header h"
  by (simp_all add: seal_header_def)

lemma fkfs_header_crc_update_eq: "snd (fkfs_header_crc_update h) = seal_header h"
  by (simp add: fkfs_header_crc_update_def seal_header_def Let_def)

lemma put_header_length:
  "length buf = 512 \<Longrightarrow> wf_header h \<Longrightarrow> i < 2 \<Longrightarrow> length (put_header buf i h) = 512"
  by (auto simp: put_header_def length_header_bytes)

lemma put_header_write:
  "length buf = 512 \<Longrightarrow> wf_header h \<Longrightarrow> i < 2 \<Longrightarrow>
   mem_write buf (137 * i) (header_bytes h) = Some (put_header buf i h)"
  by (auto simp: mem_write_def put_header_def length_header_bytes)

lemma header_at_put_same:
  "length buf = 512 \<Longrightarrow> wf_header h \<Longrightarrow> i < 2 \<Longrightarrow> header_at (put_header buf i h) i = h"
  using header_roundtrip [of h "[]"]
  by (auto simp: header_at_def put_header_def length_header_bytes min_def)

lemma header_at_put_other:
  assumes "length buf = 512" "wf_header h" "i < 2" "j < 2" "i \<noteq> j"
  shows "header_at (put_header buf i h) j = header_at buf j"
proof -
  consider "i = 0" "j = 1" | "i = 1" "j = 0" using assms(3-5) by linarith
  then show ?thesis
    by cases (use assms(1,2) in \<open>simp_all add: header_at_def put_header_def length_header_bytes\<close>)
qed

text \<open>A write of a block that was cut off: every byte is the old one or the new one.\<close>

definition torn_write :: "bytes \<Rightarrow> bytes \<Rightarrow> bytes \<Rightarrow> bool" where
  "torn_write old new blk \<longleftrightarrow>
     length blk = length old \<and> (\<forall>i < length old. blk ! i = old ! i \<or> blk ! i = new ! i)"

lemma torn_write_other:
  assumes "length old = 512" "wf_header h" "i < 2" "j < 2" "i \<noteq> j" "torn_write old (put_header old i h) blk"
  shows "header_at blk j = header_at old j"
proof -
  have j: "137 * j + 137 \<le> 512" using assms(4) by simp
  have same: "put_header old i h ! k = old ! k" if "137 * j \<le> k" "k < 137 * j + 137" for k
    using that assms(1-5)
    by (cases "i = 0") (auto simp: put_header_def nth_append length_header_bytes)
  have "blk ! (137 * j + k) = old ! (137 * j + k)" if "k < 137" for k
  proof -
    have "137 * j + k < 512" using j that by simp
    then have "blk ! (137 * j + k) = old ! (137 * j + k) \<or> blk ! (137 * j + k) = put_header old i h ! (137 * j + k)"
      using assms(1,6) by (simp add: torn_write_def)
    then show ?thesis using same [of "137 * j + k"] that by simp
  qed
  then have "take 137 (drop (137 * j) blk) = take 137 (drop (137 * j) old)"
    using assms(1,6) j by (intro nth_equalityI) (auto simp: torn_write_def)
  then show ?thesis by (simp add: header_at_def)
qed

lemma wf_header_at: "length buf = 512 \<Longrightarrow> i < 2 \<Longrightarrow> wf_header (header_at buf i)"
  unfolding header_at_def by (rule wf_header_of_bytes) auto

lemma select_header_index_lt2: "unat (select_header_index a b) < 2"
  by (simp add: select_header_index_def)

lemma u8_lt2: "unat (i :: u8) < 2 \<Longrightarrow> i = 0 \<or> i = 1"
  by (auto simp: word_unat_eq_iff less_2_cases_iff)

lemma flip_index:
  assumes "unat (i :: u8) < 2"
  shows "(i + 1) mod 2 = (if i = 0 then 1 else 0)"
  using u8_lt2 [OF assms] by auto

lemma wf_file_copy_name [simp]: "wf_file (copy_name a b)"
  by (simp add: wf_file_def copy_name_def)

lemma wf_with_names: "wf_header h \<Longrightarrow> wf_header cfg \<Longrightarrow> wf_header (with_names h cfg)"
  by (auto simp: wf_header_def with_names_def list_all_iff set_zip)

lemma with_names_fields [simp]:
  "header_generation (with_names h cfg) = header_generation h"
  "header_block (with_names h cfg) = header_block h"
  "header_offset (with_names h cfg) = header_offset h"
  by (simp_all add: with_names_def)

text \<open>Writing a valid header of a higher generation into the slot that is not current makes that
  slot the one a mount chooses.\<close>

lemma select_after_flip:
  assumes "length blk = 512" "wf_header h" "unat i < 2" "fkfs_header_crc_valid h"
    and "j = (i + 1) mod 2" "header_generation (header_at blk (unat i)) < header_generation h"
  shows "select_header_index (header_at (put_header blk (unat j) h) 0)
    (header_at (put_header blk (unat j) h) 1) = j"
proof -
  consider "i = 0" "j = 1" | "i = 1" "j = 0"
    using u8_lt2 [OF assms(3)] assms(5) by auto
  then show ?thesis
  proof cases
    case 1
    then show ?thesis
      using assms header_at_put_same [of blk h 1] header_at_put_other [of blk h 1 0]
      by (auto simp: select_header_index_def)
  next
    case 2
    then show ?thesis
      using assms header_at_put_same [of blk h 0] header_at_put_other [of blk h 0 1]
      by (auto simp: select_header_index_def)
  qed
qed

lemma select_valid:
  "fkfs_header_crc_valid h0 \<or> fkfs_header_crc_valid h1 \<Longrightarrow>
   fkfs_header_crc_valid (if select_header_index h0 h1 = 0 then h0 else h1)"
  by (auto simp: select_header_index_def)

lemma crc16_zeros: "crc16_update 0 (replicate n 0) = 0"
proof -
  have "crc16_byte 0 0 = 0" by code_simp
  then show ?thesis by (induction n) simp_all
qed

lemma header_of_zeros: "wf_header header_zero" "header_bytes header_zero = replicate 137 0"
proof -
  show wf: "wf_header header_zero"
    by (simp add: wf_header_def header_zero_def list_all_iff wf_file_def file_zero_def)
  show "header_bytes header_zero = replicate 137 0"
    by code_simp
qed

text \<open>A zeroed slot never passes for a header.\<close>

lemma zero_slot_invalid:
  assumes "i < 2"
  shows "\<not> fkfs_header_crc_valid (header_at (memzero 512) i)"
proof -
  have "header_at (memzero 512) i = header_of_bytes (header_bytes header_zero)"
    using assms by (auto simp: header_at_def memzero_def header_of_zeros(2))
  also have "\<dots> = header_zero"
    using header_roundtrip [OF header_of_zeros(1), of "[]"] by simp
  finally have h: "header_at (memzero 512) i = header_zero" .
  have "fkfs_header_crc header_zero = crc16_update 31337 (replicate 135 0)"
    unfolding fkfs_header_crc_def header_of_zeros(2) by simp
  moreover have "crc16_update 31337 (replicate 135 0) \<noteq> 0"
    using crc16_seed_inj [of 31337 "replicate 135 0" 0] by (auto simp: crc16_zeros)
  ultimately show ?thesis by (simp add: h fkfs_header_crc_valid_def header_zero_def)
qed

lemma fresh_files_props:
  assumes "fresh_files P block files sd = (files', sd')"
  shows "length files' = length files \<and> list_all (empty_file_at block) files'
    \<and> map file_name files' = map file_name files"
  using assms
proof (induction files arbitrary: sd files' sd')
  case Nil
  then show ?case by simp
next
  case (Cons f files)
  obtain r d where r: "plat_random P sd UINT16_MAX = (r, d)" by fastforce
  obtain fs d' where f: "fresh_files P block files d = (fs, d')" by fastforce
  show ?case using Cons.IH [OF f] Cons.prems by (auto simp: r f empty_file_at_def)
qed

lemma wf_fresh_files:
  assumes "fresh_files P block files sd = (files', sd')" "list_all wf_file files"
  shows "list_all wf_file files'"
proof -
  have "list_all (\<lambda>n. length n = 12) (map file_name files)"
    using assms(2) by (simp add: list_all_iff wf_file_def)
  then have "list_all (\<lambda>n. length n = 12) (map file_name files')"
    using fresh_files_props [OF assms(1)] by simp
  then show ?thesis by (simp add: list_all_iff wf_file_def)
qed

text \<open>Block 0 after a wipe: a header of generation 0 in the slot that was current, then one of
  generation 1 in slot 1. A mount takes slot 1, whether or not the first header survives.\<close>

lemma mounted_after_wipe:
  assumes "wf_header h0" "wf_header h1" "i < 2" "fkfs_header_crc_valid h0" "fkfs_header_crc_valid h1"
    and "header_generation h0 = 0" "header_generation h1 = 1"
    and "fs_headerIndex fs = 1" "fs_header fs = h1"
  shows "mounted (put_header (put_header (memzero 512) i h0) 1 h1) fs"
proof -
  let ?b = "put_header (memzero 512) i h0"
  have len: "length ?b = 512" using assms(1,3) by (intro put_header_length) simp_all
  have cur: "header_at (put_header ?b 1 h1) 1 = h1"
    using len assms(2) by (intro header_at_put_same) simp_all
  have oth: "header_at (put_header ?b 1 h1) 0 = header_at ?b 0"
    using len assms(2) by (intro header_at_put_other) simp_all
  consider "i = 0" | "i = 1" using assms(3) by linarith
  then have "select_header_index (header_at ?b 0) h1 = 1"
  proof cases
    case 1
    have "header_at ?b 0 = h0"
      unfolding 1 using assms(1) by (intro header_at_put_same) simp_all
    then show ?thesis using assms(4-7) by (simp add: select_header_index_def)
  next
    case 2
    have "header_at ?b 0 = header_at (memzero 512) 0"
      unfolding 2 using assms(1) by (intro header_at_put_other) simp_all
    then show ?thesis using assms(5) zero_slot_invalid [of 0] by (simp add: select_header_index_def)
  qed
  then show ?thesis using assms(5,8,9) cur oth by (simp add: mounted_def Let_def)
qed

section \<open>Block operations under the contract\<close>

text \<open>Each operation is given in the form in which its clients use it: on a reliable device it
  returns, with these fields changed and these blocks written.\<close>

context reliable_device
begin

lemma millis_obtain:
  assumes "invar d"
  obtains t d' where "plat_millis P d = (t, d')" "invar d'" "contents d' = contents d"
    "readable d' = readable d"
  using millis_frame [OF assms] by (cases "plat_millis P d") (auto intro: that)

lemma fkfs_read_block_ok:
  assumes "invar (fs_sd fs)" "length buf = 512" "addressable b" "readable (fs_sd fs) b"
  obtains sd st where
    "fkfs_read_block P fs b buf =
       Some (True, contents (fs_sd fs) b, fs\<lparr>fs_sd := sd, fs_statistics := st\<rparr>)"
    "invar sd" "contents sd = contents (fs_sd fs)" "readable sd = readable (fs_sd fs)"
proof -
  obtain t d where m: "plat_millis P (fs_sd fs) = (t, d)" and d: "invar d"
    "contents d = contents (fs_sd fs)" "readable d = readable (fs_sd fs)"
    using millis_obtain [OF assms(1)] by blast
  have "returns (plat_read_block P d b buf) (\<lambda>(ok, buf', d'). ok \<and> buf' = contents d b \<and>
      length buf' = 512 \<and> invar d' \<and> contents d' = contents d \<and> readable d' = readable d)"
    using assms d by (intro read_returns) simp_all
  then obtain d1 where r: "plat_read_block P d b buf = Some (True, contents d b, d1)"
    and d1: "invar d1" "contents d1 = contents d" "readable d1 = readable d"
    by (auto simp: returns_def)
  obtain t' d2 where m': "plat_millis P d1 = (t', d2)" and d2: "invar d2"
    "contents d2 = contents d1" "readable d2 = readable d1"
    using millis_obtain [OF d1(1)] by blast
  show thesis
    by (rule that [of "(fs_statistics fs)\<lparr>stat_blockReads := stat_blockReads (fs_statistics fs) + 1,
          stat_readTime := stat_readTime (fs_statistics fs) + (t' - t)\<rparr>" d2])
      (simp_all add: fkfs_read_block_def fs_stat_update_def fs_millis_def m r m' d d1 d2)
qed

lemma fkfs_write_block_ok:
  assumes "invar (fs_sd fs)" "length src = 512" "addressable b"
  obtains sd st where
    "fkfs_write_block P fs b src = Some (True, fs\<lparr>fs_sd := sd, fs_statistics := st\<rparr>)"
    "invar sd" "contents sd b = src" "readable sd b"
    "\<And>c. readable (fs_sd fs) c \<Longrightarrow> c \<noteq> b \<Longrightarrow> contents sd c = contents (fs_sd fs) c \<and> readable sd c"
proof -
  obtain t d where m: "plat_millis P (fs_sd fs) = (t, d)" and d: "invar d"
    "contents d = contents (fs_sd fs)" "readable d = readable (fs_sd fs)"
    using millis_obtain [OF assms(1)] by blast
  from write_returns [OF d(1) assms(2,3)]
  obtain d1 where r: "plat_write_block P d b src = Some (True, d1)"
    and d1: "invar d1" "contents d1 b = src" "readable d1 b"
      "\<And>c. readable d c \<Longrightarrow> c \<noteq> b \<Longrightarrow> contents d1 c = contents d c \<and> readable d1 c"
    by (auto simp: returns_def)
  obtain t' d2 where m': "plat_millis P d1 = (t', d2)" and d2: "invar d2"
    "contents d2 = contents d1" "readable d2 = readable d1"
    using millis_obtain [OF d1(1)] by blast
  show thesis
    by (rule that [of "(fs_statistics fs)\<lparr>stat_blockWrites := stat_blockWrites (fs_statistics fs) + 1,
          stat_writeTime := stat_writeTime (fs_statistics fs) + (t' - t)\<rparr>" d2])
      (use d1(4) in \<open>simp_all add: fkfs_write_block_def fs_stat_update_def fs_millis_def m r m' d d1 d2\<close>)
qed

lemma fkfs_header_write_ok:
  assumes "invar (fs_sd fs)" "wf_header (fs_header fs)" "unat (fs_headerIndex fs) < 2"
    and "addressable 0" "readable (fs_sd fs) 0 \<or> wipe"
  obtains sd st where
    "fkfs_header_write P fs wipe =
       Some (True, fs\<lparr>fs_header := seal_header (fs_header fs), fs_sd := sd, fs_statistics := st\<rparr>)"
    "invar sd" "readable sd 0"
    "contents sd 0 = put_header (if wipe then memzero 512 else contents (fs_sd fs) 0)
       (unat (fs_headerIndex fs)) (seal_header (fs_header fs))"
    "\<And>c. readable (fs_sd fs) c \<Longrightarrow> c \<noteq> 0 \<Longrightarrow> contents sd c = contents (fs_sd fs) c \<and> readable sd c"
proof -
  define blk where "blk = (if wipe then memzero 512 else contents (fs_sd fs) 0)"
  have len: "length blk = 512"
    using assms(1,5) contents_length by (auto simp: blk_def)
  obtain sd st where r: "(if \<not> wipe then fkfs_read_block P fs 0 (memzero 512)
        else Some (True, memzero 512, fs)) = Some (True, blk, fs\<lparr>fs_sd := sd, fs_statistics := st\<rparr>)"
    and sd: "invar sd" "contents sd = contents (fs_sd fs)" "readable sd = readable (fs_sd fs)"
  proof (cases wipe)
    case True
    show thesis
      by (rule that [of "fs_statistics fs" "fs_sd fs"]) (simp_all add: True blk_def assms(1))
  next
    case False
    with assms(5) have "readable (fs_sd fs) 0" by simp
    with assms(1,4) False that show thesis
      by (elim fkfs_read_block_ok [of fs "memzero 512" 0]) (simp_all add: blk_def)
  qed
  let ?h = "seal_header (fs_header fs)"
  let ?fs = "fs\<lparr>fs_sd := sd, fs_statistics := st, fs_header := ?h\<rparr>"
  have w: "mem_write blk (137 * unat (fs_headerIndex fs)) (header_bytes ?h) =
      Some (put_header blk (unat (fs_headerIndex fs)) ?h)"
    using len assms(2,3) by (intro put_header_write) simp_all
  have len': "length (put_header blk (unat (fs_headerIndex fs)) ?h) = 512"
    using len assms(2,3) by (intro put_header_length) simp_all
  have pre: "invar (fs_sd ?fs)" using sd(1) by simp
  obtain sd2 st2 where w2: "fkfs_write_block P ?fs 0 (put_header blk (unat (fs_headerIndex fs)) ?h) =
      Some (True, ?fs\<lparr>fs_sd := sd2, fs_statistics := st2\<rparr>)"
    and sd2: "invar sd2" "contents sd2 0 = put_header blk (unat (fs_headerIndex fs)) ?h"
      "readable sd2 0"
      "\<And>c. readable (fs_sd ?fs) c \<Longrightarrow> c \<noteq> 0 \<Longrightarrow>
         contents sd2 c = contents (fs_sd ?fs) c \<and> readable sd2 c"
    using fkfs_write_block_ok [OF pre len' assms(4)] by blast
  have "fkfs_header_write P fs wipe =
      Some (True, fs\<lparr>fs_header := ?h, fs_sd := sd2, fs_statistics := st2\<rparr>)"
    unfolding fkfs_header_write_def
    by (simp only: r Option.bind.bind_lunit prod.case) (simp add: fkfs_header_crc_update_eq w w2)
  with sd2 sd that show thesis by (simp add: blk_def)
qed

lemma fkfs_block_ensure_ok:
  assumes "invar (fs_sd fs)" "length (fs_buffer fs) = 512" "addressable b" "readable (fs_sd fs) b"
    and "fs_cachedBlockNumber fs \<noteq> b"
  obtains sd st where
    "fkfs_block_ensure P fs b = Some (True, fs\<lparr>fs_buffer := contents (fs_sd fs) b,
       fs_cachedBlockNumber := b, fs_cachedBlockDirty := False, fs_sd := sd, fs_statistics := st\<rparr>)"
    "invar sd" "contents sd = contents (fs_sd fs)" "readable sd = readable (fs_sd fs)"
proof -
  obtain sd st where r: "fkfs_read_block P fs b (fs_buffer fs) =
       Some (True, contents (fs_sd fs) b, fs\<lparr>fs_sd := sd, fs_statistics := st\<rparr>)"
    and sd: "invar sd" "contents sd = contents (fs_sd fs)" "readable sd = readable (fs_sd fs)"
    using fkfs_read_block_ok [OF assms(1-4)] by blast
  have "fkfs_block_ensure P fs b = Some (True, fs\<lparr>fs_buffer := contents (fs_sd fs) b,
       fs_cachedBlockNumber := b, fs_cachedBlockDirty := False, fs_sd := sd, fs_statistics := st\<rparr>)"
    using assms(5) by (simp add: fkfs_block_ensure_def r)
  then show thesis using sd by (rule that)
qed

lemma fkfs_fsync_ok:
  assumes "invar (fs_sd fs)" "wf_fs fs" "addressable 0" "readable (fs_sd fs) 0"
    and "fs_cachedBlockDirty fs" "header_block (fs_header fs) = b" "addressable b" "b \<noteq> 0"
  defines "i \<equiv> (fs_headerIndex fs + 1) mod 2"
  defines "h \<equiv> seal_header ((fs_header fs)\<lparr>header_generation := header_generation (fs_header fs) + 1\<rparr>)"
  obtains sd st where
    "fkfs_fsync P fs = Some (True, fs\<lparr>fs_cachedBlockNumber := UINT32_MAX,
       fs_cachedBlockDirty := False, fs_headerIndex := i, fs_header := h, fs_sd := sd,
       fs_statistics := st\<rparr>)"
    "invar sd" "readable sd 0" "readable sd b" "contents sd b = fs_buffer fs"
    "contents sd 0 = put_header (contents (fs_sd fs) 0) (unat i) h"
    "\<And>c. readable (fs_sd fs) c \<Longrightarrow> c \<noteq> 0 \<Longrightarrow> c \<noteq> b \<Longrightarrow>
       contents sd c = contents (fs_sd fs) c \<and> readable sd c"
proof -
  have len: "length (fs_buffer fs) = 512" and wfh: "wf_header (fs_header fs)"
    and idx: "unat (fs_headerIndex fs) < 2"
    using assms(2) by (simp_all add: wf_fs_def)
  obtain sd st where w: "fkfs_write_block P fs b (fs_buffer fs) =
      Some (True, fs\<lparr>fs_sd := sd, fs_statistics := st\<rparr>)"
    and sd: "invar sd" "contents sd b = fs_buffer fs" "readable sd b"
      "\<And>c. readable (fs_sd fs) c \<Longrightarrow> c \<noteq> b \<Longrightarrow> contents sd c = contents (fs_sd fs) c \<and> readable sd c"
    using fkfs_write_block_ok [OF assms(1) len assms(7)] by blast
  let ?fs = "fs\<lparr>fs_sd := sd, fs_statistics := st, fs_cachedBlockNumber := UINT32_MAX,
    fs_cachedBlockDirty := False,
    fs_header := (fs_header fs)\<lparr>header_generation := header_generation (fs_header fs) + 1\<rparr>,
    fs_headerIndex := i\<rparr>"
  have i: "unat i < 2" unfolding i_def using flip_index [OF idx] by auto
  have pre: "invar (fs_sd ?fs)" "wf_header (fs_header ?fs)" "unat (fs_headerIndex ?fs) < 2"
    "readable (fs_sd ?fs) 0 \<or> False"
    using sd assms(4,8) wfh i by auto
  obtain sd2 st2 where hw: "fkfs_header_write P ?fs False =
       Some (True, ?fs\<lparr>fs_header := seal_header (fs_header ?fs), fs_sd := sd2, fs_statistics := st2\<rparr>)"
    and sd2: "invar sd2" "readable sd2 0"
      "contents sd2 0 = put_header (if False then memzero 512 else contents (fs_sd ?fs) 0)
         (unat (fs_headerIndex ?fs)) (seal_header (fs_header ?fs))"
      "\<And>c. readable (fs_sd ?fs) c \<Longrightarrow> c \<noteq> 0 \<Longrightarrow> contents sd2 c = contents (fs_sd ?fs) c \<and> readable sd2 c"
    using fkfs_header_write_ok [OF pre(1-3) assms(3) pre(4)] by blast
  have "fkfs_fsync P fs = Some (True, fs\<lparr>fs_cachedBlockNumber := UINT32_MAX,
       fs_cachedBlockDirty := False, fs_headerIndex := i, fs_header := h, fs_sd := sd2,
       fs_statistics := st2\<rparr>)"
    using assms(5) w hw assms(6) by (simp add: fkfs_fsync_def fs_header_map_def h_def i_def)
  moreover have "readable sd2 b" "contents sd2 b = fs_buffer fs"
    using sd2(4) [of b] sd assms(8) by simp_all
  moreover have "contents sd2 0 = put_header (contents (fs_sd fs) 0) (unat i) h"
    using sd2(3) sd(4) [OF assms(4)] assms(8) by (simp add: h_def)
  moreover have "contents sd2 c = contents (fs_sd fs) c \<and> readable sd2 c"
    if "readable (fs_sd fs) c" "c \<noteq> 0" "c \<noteq> b" for c
    using sd2(4) [of c] sd(4) [OF that(1,3)] that by simp
  ultimately show thesis using sd2(1,2) by (intro that)
qed

lemma fkfs_touch_ok:
  fixes time :: u32
  assumes "invar (fs_sd fs)" "wf_fs fs" "addressable 0" "readable (fs_sd fs) 0"
  defines "h \<equiv> seal_header ((fs_header fs)\<lparr>header_time := time\<rparr>)"
  obtains sd st where
    "fkfs_touch P fs time = Some (True, fs\<lparr>fs_header := h, fs_sd := sd, fs_statistics := st\<rparr>)"
    "invar sd" "readable sd 0"
    "contents sd 0 = put_header (contents (fs_sd fs) 0) (unat (fs_headerIndex fs)) h"
    "\<And>c. readable (fs_sd fs) c \<Longrightarrow> c \<noteq> 0 \<Longrightarrow> contents sd c = contents (fs_sd fs) c \<and> readable sd c"
proof -
  let ?fs = "fs\<lparr>fs_header := (fs_header fs)\<lparr>header_time := time\<rparr>\<rparr>"
  have pre: "invar (fs_sd ?fs)" "wf_header (fs_header ?fs)" "unat (fs_headerIndex ?fs) < 2"
    "readable (fs_sd ?fs) 0 \<or> False"
    using assms(1,2,4) by (simp_all add: wf_fs_def)
  obtain sd st where hw: "fkfs_header_write P ?fs False =
       Some (True, ?fs\<lparr>fs_header := seal_header (fs_header ?fs), fs_sd := sd, fs_statistics := st\<rparr>)"
    and sd: "invar sd" "readable sd 0"
      "contents sd 0 = put_header (if False then memzero 512 else contents (fs_sd ?fs) 0)
         (unat (fs_headerIndex ?fs)) (seal_header (fs_header ?fs))"
      "\<And>c. readable (fs_sd ?fs) c \<Longrightarrow> c \<noteq> 0 \<Longrightarrow> contents sd c = contents (fs_sd ?fs) c \<and> readable sd c"
    using fkfs_header_write_ok [OF pre(1-3) assms(3) pre(4)] by blast
  show thesis
    by (rule that [of st sd])
      (use hw sd in \<open>simp_all add: fkfs_touch_def fs_header_map_def h_def\<close>)
qed

lemma fkfs_initialize_load_ok:
  assumes "invar (fs_sd fs)" "wf_fs fs" "addressable 0" "readable (fs_sd fs) 0"
  defines "blk \<equiv> contents (fs_sd fs) 0"
  assumes "fkfs_header_crc_valid (header_at blk 0) \<or> fkfs_header_crc_valid (header_at blk 1)"
  defines "i \<equiv> select_header_index (header_at blk 0) (header_at blk 1)"
  defines "h \<equiv> with_names (header_at blk (unat i)) (fs_header fs)"
  obtains n sd st where
    "fkfs_initialize P fs False = Some (True, fs\<lparr>fs_numberOfBlocks := n, fs_headerIndex := i,
       fs_header := h, fs_buffer := put_header blk (unat i) h, fs_sd := sd, fs_statistics := st\<rparr>)"
    "invar sd" "contents sd = contents (fs_sd fs)" "readable sd = readable (fs_sd fs)"
proof -
  obtain n d where c: "plat_card_size P (fs_sd fs) = Some (n, d)"
    using card_size_total [OF assms(1)] by blast
  have d: "invar d" "contents d = contents (fs_sd fs)" "readable d = readable (fs_sd fs)"
    using card_size_frame [OF assms(1) c] by simp_all
  have lenb: "length (fs_buffer fs) = 512" and wfh: "wf_header (fs_header fs)"
    using assms(2) by (simp_all add: wf_fs_def)
  have lenblk: "length blk = 512" unfolding blk_def using assms(1,4) by (rule contents_length)
  let ?buf = "memzero 2 @ drop 2 (fs_buffer fs)"
  let ?fs = "fs\<lparr>fs_numberOfBlocks := n, fs_sd := d, fs_buffer := ?buf,
    fs_statistics := fkfs_statistics_zero\<rparr>"
  have mw: "mem_write (fs_buffer fs) 0 (memzero 2) = Some ?buf"
    using lenb by (simp add: mem_write_def numeral_2_eq_2)
  have pre: "invar (fs_sd ?fs)" "length ?buf = 512" "readable (fs_sd ?fs) 0"
    using d lenb assms(4) by simp_all
  obtain sd st where r: "fkfs_read_block P ?fs 0 ?buf =
      Some (True, contents (fs_sd ?fs) 0, ?fs\<lparr>fs_sd := sd, fs_statistics := st\<rparr>)"
    and sd: "invar sd" "contents sd = contents (fs_sd ?fs)" "readable sd = readable (fs_sd ?fs)"
    using fkfs_read_block_ok [OF pre(1,2) assms(3) pre(3)] by blast
  have i2: "unat i < 2" unfolding i_def by (rule select_header_index_lt2)
  have wfn: "wf_header h"
    unfolding h_def using wf_header_at [OF lenblk i2] wfh by (rule wf_with_names)
  have "fkfs_initialize P fs False = Some (True, fs\<lparr>fs_numberOfBlocks := n, fs_headerIndex := i,
       fs_header := h, fs_buffer := put_header blk (unat i) h, fs_sd := sd, fs_statistics := st\<rparr>)"
    using assms(6) put_header_write [OF lenblk wfn i2] r d
    by (auto simp: fkfs_initialize_def c mw fkfs_initialize_load_def blk_def [symmetric]
        i_def [symmetric] with_names_def [symmetric] h_def [symmetric] Let_def simp del: One_nat_def)
  then show thesis using sd d that by auto
qed

lemma fresh_files_frame:
  assumes "invar sd" "fresh_files P block files sd = (files', sd')"
  shows "invar sd' \<and> contents sd' = contents sd \<and> readable sd' = readable sd"
  using assms
proof (induction files arbitrary: sd files' sd')
  case Nil
  then show ?case by simp
next
  case (Cons f files)
  obtain r d where r: "plat_random P sd UINT16_MAX = (r, d)" by fastforce
  obtain fs d' where f: "fresh_files P block files d = (fs, d')" by fastforce
  have d: "invar d" "contents d = contents sd" "readable d = readable sd"
    using random_frame [OF Cons.prems(1), of UINT16_MAX] r by simp_all
  show ?case using Cons.IH [OF d(1) f] Cons.prems(2) d by (auto simp: r f)
qed

text \<open>Wiping leaves an object that agrees with block 0: slot 1 is current, with generation 1.\<close>

lemma fkfs_initialize_wipe_ok:
  assumes "invar (fs_sd fs)" "wf_fs fs" "addressable 0"
  obtains fs' where "fkfs_initialize_wipe P fs = Some (True, fs')"
    "invar (fs_sd fs')" "readable (fs_sd fs') 0" "wf_fs fs'" "mounted (contents (fs_sd fs') 0) fs'"
    "header_at (contents (fs_sd fs') 0) (unat (fs_headerIndex fs')) = fs_header fs'"
    "header_block (fs_header fs') = FKFS_FIRST_BLOCK" "header_generation (fs_header fs') = 1"
    "header_offset (fs_header fs') = header_offset (fs_header fs)"
    "list_all (empty_file_at FKFS_FIRST_BLOCK) (header_files (fs_header fs'))"
    "map file_name (header_files (fs_header fs')) = map file_name (header_files (fs_header fs))"
    "fs_files fs' = fs_files fs" "fs_cachedBlockNumber fs' = fs_cachedBlockNumber fs"
    "fs_cachedBlockDirty fs' = fs_cachedBlockDirty fs"
    "\<And>c. readable (fs_sd fs) c \<Longrightarrow> c \<noteq> 0 \<Longrightarrow>
       contents (fs_sd fs') c = contents (fs_sd fs) c \<and> readable (fs_sd fs') c"
proof -
  define h where "h = (fs_header fs)\<lparr>header_block := FKFS_FIRST_BLOCK, header_generation := 0\<rparr>"
  obtain files d where ff: "fresh_files P FKFS_FIRST_BLOCK (header_files h) (fs_sd fs) = (files, d)"
    by fastforce
  have d: "invar d" "contents d = contents (fs_sd fs)" "readable d = readable (fs_sd fs)"
    using fresh_files_frame [OF assms(1) ff] by simp_all
  have hb: "header_block h = FKFS_FIRST_BLOCK" by (simp add: h_def)
  define h0 where "h0 = h\<lparr>header_files := files\<rparr>"
  have wf: "wf_header (fs_header fs)" "length (fs_buffer fs) = 512" "unat (fs_headerIndex fs) < 2"
    using assms(2) by (simp_all add: wf_fs_def)
  have wf0: "wf_header h0"
    using wf(1) fresh_files_props [OF ff] wf_fresh_files [OF ff]
    by (simp add: wf_header_def h0_def h_def)
  let ?i = "unat (fs_headerIndex fs)"
  let ?fs0 = "fs\<lparr>fs_header := h0, fs_sd := d, fs_buffer := put_header (fs_buffer fs) ?i h0\<rparr>"
  have pre0: "invar (fs_sd ?fs0)" "wf_header (fs_header ?fs0)" "unat (fs_headerIndex ?fs0) < 2"
    "readable (fs_sd ?fs0) 0 \<or> True"
    using d wf0 wf by simp_all
  obtain sd st where w0: "fkfs_header_write P ?fs0 True = Some (True,
      ?fs0\<lparr>fs_header := seal_header (fs_header ?fs0), fs_sd := sd, fs_statistics := st\<rparr>)"
    and sd: "invar sd" "readable sd 0"
      "contents sd 0 = put_header (if True then memzero 512 else contents (fs_sd ?fs0) 0)
         (unat (fs_headerIndex ?fs0)) (seal_header (fs_header ?fs0))"
      "\<And>c. readable (fs_sd ?fs0) c \<Longrightarrow> c \<noteq> 0 \<Longrightarrow> contents sd c = contents (fs_sd ?fs0) c \<and> readable sd c"
    using fkfs_header_write_ok [OF pre0(1-3) assms(3) pre0(4)] by blast
  define h1 where "h1 = (seal_header h0)\<lparr>header_generation := 1\<rparr>"
  have wf1: "wf_header h1" using wf0 by (simp add: h1_def)
  let ?buf0 = "put_header (fs_buffer fs) ?i h0"
  have lb0: "length ?buf0 = 512" using wf(2,3) wf0 by (intro put_header_length) simp_all
  let ?fs1 = "?fs0\<lparr>fs_sd := sd, fs_statistics := st, fs_header := h1, fs_headerIndex := 1,
    fs_buffer := put_header ?buf0 1 h1\<rparr>"
  have pre1: "invar (fs_sd ?fs1)" "wf_header (fs_header ?fs1)" "unat (fs_headerIndex ?fs1) < 2"
    "readable (fs_sd ?fs1) 0 \<or> False"
    using sd wf1 by simp_all
  obtain sd' st' where w1: "fkfs_header_write P ?fs1 False = Some (True,
      ?fs1\<lparr>fs_header := seal_header (fs_header ?fs1), fs_sd := sd', fs_statistics := st'\<rparr>)"
    and sd': "invar sd'" "readable sd' 0"
      "contents sd' 0 = put_header (if False then memzero 512 else contents (fs_sd ?fs1) 0)
         (unat (fs_headerIndex ?fs1)) (seal_header (fs_header ?fs1))"
      "\<And>c. readable (fs_sd ?fs1) c \<Longrightarrow> c \<noteq> 0 \<Longrightarrow> contents sd' c = contents (fs_sd ?fs1) c \<and> readable sd' c"
    using fkfs_header_write_ok [OF pre1(1-3) assms(3) pre1(4)] by blast
  have eq: "fkfs_initialize_wipe P fs = Some (True, fs\<lparr>fs_headerIndex := 1, fs_header := seal_header h1,
       fs_buffer := put_header ?buf0 1 h1, fs_sd := sd', fs_statistics := st'\<rparr>)"
    using w0 w1 put_header_write [OF wf(2) wf0 wf(3)] put_header_write [OF lb0 wf1, of 1]
    by (simp add: fkfs_initialize_wipe_def h_def [symmetric] hb ff h0_def [symmetric]
        h1_def [symmetric])
  have c0: "contents sd' 0 = put_header (put_header (memzero 512) ?i (seal_header h0)) 1 (seal_header h1)"
    using sd(3) sd'(3) by simp
  let ?fs' = "fs\<lparr>fs_headerIndex := 1, fs_header := seal_header h1, fs_buffer := put_header ?buf0 1 h1,
    fs_sd := sd', fs_statistics := st'\<rparr>"
  have "mounted (put_header (put_header (memzero 512) ?i (seal_header h0)) 1 (seal_header h1)) ?fs'"
    using wf0 wf1 wf(3)
    by (intro mounted_after_wipe seal_header_valid) (simp_all add: h0_def h1_def h_def)
  then have m: "mounted (contents (fs_sd ?fs') 0) ?fs'" by (simp add: c0)
  have lz: "length (put_header (memzero 512) ?i (seal_header h0)) = 512"
    using wf0 wf(3) by (intro put_header_length) simp_all
  have cur: "header_at (contents (fs_sd ?fs') 0) (unat (fs_headerIndex ?fs')) = fs_header ?fs'"
    using header_at_put_same [OF lz, of "seal_header h1" 1] wf1 c0 by simp
  have fr: "contents sd' c = contents (fs_sd fs) c \<and> readable sd' c"
    if "readable (fs_sd fs) c" "c \<noteq> 0" for c
    using sd(4) [of c] sd'(4) [of c] d that by simp
  have files: "list_all (empty_file_at FKFS_FIRST_BLOCK) files"
    "map file_name files = map file_name (header_files (fs_header fs))"
    using fresh_files_props [OF ff] by (simp_all add: h_def)
  have lb1: "length (put_header ?buf0 1 h1) = 512"
    using lb0 wf1 by (rule put_header_length) simp
  have wffs: "wf_fs ?fs'" using assms(2) wf1 lb1 by (simp add: wf_fs_def)
  show thesis
    by (rule that [OF eq _ _ wffs m cur])
      (use sd'(1,2) files fr in \<open>simp_all add: h1_def h0_def h_def\<close>)
qed

end

text \<open>A requested wipe, and the wipe of a card on which neither slot is valid.\<close>

context reliable_device
begin

lemma fkfs_initialize_wipes:
  assumes "invar (fs_sd fs)" "wf_fs fs" "addressable 0" "readable (fs_sd fs) 0"
    and "wipe \<or> (\<not> fkfs_header_crc_valid (header_at (contents (fs_sd fs) 0) 0)
           \<and> \<not> fkfs_header_crc_valid (header_at (contents (fs_sd fs) 0) 1))"
  obtains fs' where "fkfs_initialize P fs wipe = Some (True, fs')"
    "invar (fs_sd fs')" "readable (fs_sd fs') 0" "wf_fs fs'" "mounted (contents (fs_sd fs') 0) fs'"
    "header_at (contents (fs_sd fs') 0) (unat (fs_headerIndex fs')) = fs_header fs'"
    "header_block (fs_header fs') = FKFS_FIRST_BLOCK" "header_generation (fs_header fs') = 1"
    "header_offset (fs_header fs') = header_offset (fs_header fs)"
    "list_all (empty_file_at FKFS_FIRST_BLOCK) (header_files (fs_header fs'))"
    "map file_name (header_files (fs_header fs')) = map file_name (header_files (fs_header fs))"
    "fs_files fs' = fs_files fs" "fs_cachedBlockNumber fs' = fs_cachedBlockNumber fs"
    "fs_cachedBlockDirty fs' = fs_cachedBlockDirty fs"
    "\<And>c. readable (fs_sd fs) c \<Longrightarrow> c \<noteq> 0 \<Longrightarrow>
       contents (fs_sd fs') c = contents (fs_sd fs) c \<and> readable (fs_sd fs') c"
proof -
  obtain n d where c: "plat_card_size P (fs_sd fs) = Some (n, d)"
    using card_size_total [OF assms(1)] by blast
  have d: "invar d" "contents d = contents (fs_sd fs)" "readable d = readable (fs_sd fs)"
    using card_size_frame [OF assms(1) c] by simp_all
  have lenb: "length (fs_buffer fs) = 512" using assms(2) by (simp add: wf_fs_def)
  let ?buf = "memzero 2 @ drop 2 (fs_buffer fs)"
  let ?fs = "fs\<lparr>fs_numberOfBlocks := n, fs_sd := d, fs_buffer := ?buf,
    fs_statistics := fkfs_statistics_zero\<rparr>"
  have mw: "mem_write (fs_buffer fs) 0 (memzero 2) = Some ?buf"
    using lenb by (simp add: mem_write_def numeral_2_eq_2)
  have pre: "invar (fs_sd ?fs)" "length ?buf = 512" "readable (fs_sd ?fs) 0"
    using d lenb assms(4) by simp_all
  obtain sd st where r: "fkfs_read_block P ?fs 0 ?buf =
      Some (True, contents (fs_sd ?fs) 0, ?fs\<lparr>fs_sd := sd, fs_statistics := st\<rparr>)"
    and sd: "invar sd" "contents sd = contents (fs_sd ?fs)" "readable sd = readable (fs_sd ?fs)"
    using fkfs_read_block_ok [OF pre(1,2) assms(3) pre(3)] by blast
  let ?fs1 = "fs\<lparr>fs_numberOfBlocks := n, fs_sd := sd, fs_statistics := st,
    fs_buffer := contents (fs_sd fs) 0\<rparr>"
  have eq: "fkfs_initialize P fs wipe = fkfs_initialize_wipe P ?fs1"
    using assms(5) r d by (auto simp: fkfs_initialize_def c mw Let_def simp del: One_nat_def)
  have "length (contents (fs_sd fs) 0) = 512" using assms(1,4) by (rule contents_length)
  then have wf1: "wf_fs ?fs1" using assms(2) by (simp add: wf_fs_def)
  have inv1: "invar (fs_sd ?fs1)" using sd by simp
  show thesis
  proof (rule fkfs_initialize_wipe_ok [OF inv1 wf1 assms(3)])
    fix fs'
    assume "fkfs_initialize_wipe P ?fs1 = Some (True, fs')"
      and "header_offset (fs_header fs') = header_offset (fs_header ?fs1)"
      and "map file_name (header_files (fs_header fs')) = map file_name (header_files (fs_header ?fs1))"
      and "fs_files fs' = fs_files ?fs1" "fs_cachedBlockNumber fs' = fs_cachedBlockNumber ?fs1"
        "fs_cachedBlockDirty fs' = fs_cachedBlockDirty ?fs1"
      and "\<And>c. readable (fs_sd ?fs1) c \<Longrightarrow> c \<noteq> 0 \<Longrightarrow>
        contents (fs_sd fs') c = contents (fs_sd ?fs1) c \<and> readable (fs_sd fs') c"
      and "invar (fs_sd fs')" "readable (fs_sd fs') 0" "wf_fs fs'" "mounted (contents (fs_sd fs') 0) fs'"
        "header_at (contents (fs_sd fs') 0) (unat (fs_headerIndex fs')) = fs_header fs'"
        "header_block (fs_header fs') = FKFS_FIRST_BLOCK" "header_generation (fs_header fs') = 1"
        "list_all (empty_file_at FKFS_FIRST_BLOCK) (header_files (fs_header fs'))"
    then show thesis by (intro that [of fs']) (use eq sd d in simp_all)
  qed
qed

end

section \<open>Properties\<close>

lemma mounted_torn:
  assumes "mounted blk fs" "header_at blk' (unat (fs_headerIndex fs)) = header_at blk (unat (fs_headerIndex fs))"
    and "\<not> fkfs_header_crc_valid (header_at blk' (1 - unat (fs_headerIndex fs)))
      \<or> header_at blk' (1 - unat (fs_headerIndex fs)) = header_at blk (1 - unat (fs_headerIndex fs))"
  shows "mounted blk' (fs\<lparr>fs_header := header_at blk (unat (fs_headerIndex fs))\<rparr>)"
proof -
  have "unat (fs_headerIndex fs) < 2" using assms(1) by (simp add: mounted_def Let_def)
  from u8_lt2 [OF this] show ?thesis
    using assms by (auto simp: mounted_def Let_def select_header_index_def)
qed

lemma mounted_after_fsync:
  assumes "mounted blk fs" "length blk = 512" "wf_header (fs_header fs)"
    and "header_generation (fs_header fs) < UINT32_MAX"
    and "fs_headerIndex fs' = (fs_headerIndex fs + 1) mod 2"
    and "fs_header fs' = seal_header ((fs_header fs)\<lparr>header_generation := header_generation (fs_header fs) + 1\<rparr>)"
  shows "mounted (put_header blk (unat (fs_headerIndex fs')) (fs_header fs')) fs'"
proof -
  let ?i = "fs_headerIndex fs" and ?j = "fs_headerIndex fs'" and ?h = "fs_header fs'"
  have i: "unat ?i < 2" and g: "header_generation (header_at blk (unat ?i)) = header_generation (fs_header fs)"
    using assms(1) by (simp_all add: mounted_def Let_def)
  have j: "unat ?j < 2" using flip_index [OF i] assms(5) by auto
  have h: "wf_header ?h" "fkfs_header_crc_valid ?h" using assms(3,6) by (simp_all add: seal_header_valid)
  have "header_generation (fs_header fs) < header_generation (fs_header fs) + 1"
    using assms(4) by (simp add: word_less_nat_alt unat_word_ariths)
  then have "header_generation (header_at blk (unat ?i)) < header_generation ?h"
    using g assms(6) by simp
  then have "select_header_index (header_at (put_header blk (unat ?j) ?h) 0)
      (header_at (put_header blk (unat ?j) ?h) 1) = ?j"
    using assms(2) h i assms(5) by (intro select_after_flip)
  then show ?thesis
    using j h header_at_put_same [OF assms(2) h(1) j] by (simp add: mounted_def Let_def)
qed

text \<open>Mounting a card whose block 0 agrees with an object gives that object's header back.\<close>

lemma remount:
  assumes dev: "reliable_device P invar addressable readable contents"
    and "invar (fs_sd fs2)" "wf_fs fs2" "addressable 0" "readable (fs_sd fs2) 0"
    and "mounted (contents (fs_sd fs2) 0) fs1"
    and "header_at (contents (fs_sd fs2) 0) (unat (fs_headerIndex fs1)) = fs_header fs1"
  shows "\<exists>fs3. fkfs_initialize P fs2 False = Some (True, fs3) \<and>
    fs_headerIndex fs3 = fs_headerIndex fs1 \<and>
    fs_header fs3 = with_names (fs_header fs1) (fs_header fs2) \<and>
    contents (fs_sd fs3) = contents (fs_sd fs2)"
proof -
  let ?blk = "contents (fs_sd fs2) 0"
  have i: "unat (fs_headerIndex fs1) < 2"
    and sel: "select_header_index (header_at ?blk 0) (header_at ?blk 1) = fs_headerIndex fs1"
    and valid: "fkfs_header_crc_valid (header_at ?blk (unat (fs_headerIndex fs1)))"
    using assms(6) by (simp_all add: mounted_def Let_def)
  have v: "fkfs_header_crc_valid (header_at ?blk 0) \<or> fkfs_header_crc_valid (header_at ?blk 1)"
    using valid u8_lt2 [OF i] by auto
  from reliable_device.fkfs_initialize_load_ok [OF dev assms(2-5) v]
  obtain n sd st where "fkfs_initialize P fs2 False = Some (True, fs2\<lparr>fs_numberOfBlocks := n,
      fs_headerIndex := select_header_index (header_at ?blk 0) (header_at ?blk 1),
      fs_header := with_names (header_at ?blk (unat (select_header_index (header_at ?blk 0)
        (header_at ?blk 1)))) (fs_header fs2),
      fs_buffer := put_header ?blk (unat (select_header_index (header_at ?blk 0) (header_at ?blk 1)))
        (with_names (header_at ?blk (unat (select_header_index (header_at ?blk 0)
          (header_at ?blk 1)))) (fs_header fs2)),
      fs_sd := sd, fs_statistics := st\<rparr>)" "contents sd = contents (fs_sd fs2)"
    by blast
  then show ?thesis using sel assms(7) by simp
qed

text \<open>C12: on every device that meets the contract, synchronising a mounted object that is dirty and whose
  generation is below the largest 32 bit number writes the cached block to the block of the header, which
  is not block 0, and a header of the next generation with the same file table; and a later mount of the
  same card, by any object, finds exactly that header (with the names the mounting object was configured
  with). A clean object writes nothing, and the largest generation wraps to 0; other properties say what
  happens then.\<close>

theorem fsync_survives_remount:
  assumes dev: "reliable_device P invar addressable readable contents"
    and fs: "invar (fs_sd fs)" "wf_fs fs" "addressable 0" "readable (fs_sd fs) 0"
    and dirty: "fs_cachedBlockDirty fs" "addressable (header_block (fs_header fs))"
      "header_block (fs_header fs) \<noteq> 0"
    and m: "mounted (contents (fs_sd fs) 0) fs"
    and gen: "header_generation (fs_header fs) < UINT32_MAX"
  shows "\<exists>fs1. fkfs_fsync P fs = Some (True, fs1)
    \<and> contents (fs_sd fs1) (header_block (fs_header fs)) = fs_buffer fs
    \<and> header_generation (fs_header fs1) = header_generation (fs_header fs) + 1
    \<and> header_files (fs_header fs1) = header_files (fs_header fs)
    \<and> header_offset (fs_header fs1) = header_offset (fs_header fs)
    \<and> (\<forall>fs2. fs_sd fs2 = fs_sd fs1 \<and> wf_fs fs2 \<longrightarrow>
         (\<exists>fs3. fkfs_initialize P fs2 False = Some (True, fs3)
            \<and> fs_headerIndex fs3 = fs_headerIndex fs1
            \<and> fs_header fs3 = with_names (fs_header fs1) (fs_header fs2)))"
proof -
  let ?b = "header_block (fs_header fs)" and ?blk = "contents (fs_sd fs) 0"
  let ?i = "(fs_headerIndex fs + 1) mod 2"
  let ?h = "seal_header ((fs_header fs)\<lparr>header_generation := header_generation (fs_header fs) + 1\<rparr>)"
  from reliable_device.fkfs_fsync_ok [OF dev fs dirty(1) refl dirty(2,3)]
  obtain sd st where eq: "fkfs_fsync P fs = Some (True, fs\<lparr>fs_cachedBlockNumber := UINT32_MAX,
       fs_cachedBlockDirty := False, fs_headerIndex := ?i, fs_header := ?h, fs_sd := sd,
       fs_statistics := st\<rparr>)" (is "_ = Some (True, ?fs1)")
    and sd: "invar sd" "readable sd 0" "contents sd ?b = fs_buffer fs"
      "contents sd 0 = put_header ?blk (unat ?i) ?h"
    by blast
  have store: "block_store P invar addressable readable contents"
    using dev by (simp add: reliable_device_def)
  have len: "length ?blk = 512"
    using block_store.contents_length [OF store] fs(1,4) by blast
  have wfh: "wf_header (fs_header fs)" using fs(2) by (simp add: wf_fs_def)
  have m1: "mounted (contents sd 0) ?fs1"
    using mounted_after_fsync [OF m len wfh gen, of ?fs1] sd(4) by simp
  have cur: "header_at (contents sd 0) (unat (fs_headerIndex ?fs1)) = fs_header ?fs1"
    using m1 wfh len sd(4) by (simp add: mounted_def Let_def header_at_put_same)
  have "\<exists>fs3. fkfs_initialize P fs2 False = Some (True, fs3) \<and> fs_headerIndex fs3 = fs_headerIndex ?fs1
      \<and> fs_header fs3 = with_names (fs_header ?fs1) (fs_header fs2)"
    if "fs_sd fs2 = fs_sd ?fs1" "wf_fs fs2" for fs2
    using remount [OF dev _ that(2) fs(3), of ?fs1] sd(1,2) m1 cur that(1) by auto
  then show ?thesis using eq sd(3) by auto
qed

text \<open>C16: wiping a card, on every device that meets the contract, leaves four empty files at the
  first log block under their configured names, touches no block but block 0, and a later mount
  finds that file system.\<close>

theorem wipe_then_remount:
  assumes dev: "reliable_device P invar addressable readable contents"
    and fs: "invar (fs_sd fs)" "wf_fs fs" "addressable 0" "readable (fs_sd fs) 0"
  shows "\<exists>fs1. fkfs_initialize P fs True = Some (True, fs1)
    \<and> header_block (fs_header fs1) = FKFS_FIRST_BLOCK
    \<and> list_all (empty_file_at FKFS_FIRST_BLOCK) (header_files (fs_header fs1))
    \<and> map file_name (header_files (fs_header fs1)) = map file_name (header_files (fs_header fs))
    \<and> (\<forall>c. readable (fs_sd fs) c \<and> c \<noteq> 0 \<longrightarrow> contents (fs_sd fs1) c = contents (fs_sd fs) c)
    \<and> (\<forall>fs2. fs_sd fs2 = fs_sd fs1 \<and> wf_fs fs2 \<longrightarrow>
         (\<exists>fs3. fkfs_initialize P fs2 False = Some (True, fs3)
            \<and> fs_headerIndex fs3 = fs_headerIndex fs1
            \<and> fs_header fs3 = with_names (fs_header fs1) (fs_header fs2)))"
proof -
  from reliable_device.fkfs_initialize_wipes [OF dev fs, of True]
  obtain fs1 where eq: "fkfs_initialize P fs True = Some (True, fs1)"
    and sd: "invar (fs_sd fs1)" "readable (fs_sd fs1) 0"
    and m: "mounted (contents (fs_sd fs1) 0) fs1"
      "header_at (contents (fs_sd fs1) 0) (unat (fs_headerIndex fs1)) = fs_header fs1"
    and h: "header_block (fs_header fs1) = FKFS_FIRST_BLOCK" "header_generation (fs_header fs1) = 1"
      "list_all (empty_file_at FKFS_FIRST_BLOCK) (header_files (fs_header fs1))"
      "map file_name (header_files (fs_header fs1)) = map file_name (header_files (fs_header fs))"
    and fr: "\<And>c. readable (fs_sd fs) c \<Longrightarrow> c \<noteq> 0 \<Longrightarrow>
       contents (fs_sd fs1) c = contents (fs_sd fs) c \<and> readable (fs_sd fs1) c"
    by blast
  have "\<exists>fs3. fkfs_initialize P fs2 False = Some (True, fs3) \<and> fs_headerIndex fs3 = fs_headerIndex fs1
      \<and> fs_header fs3 = with_names (fs_header fs1) (fs_header fs2)"
    if "fs_sd fs2 = fs_sd fs1" "wf_fs fs2" for fs2
    using remount [OF dev _ that(2) fs(3), of fs1] sd m that(1) by auto
  then show ?thesis using eq h fr by auto
qed

text \<open>C15: a mount that does not wipe takes a slot whose checksum is valid, and of the valid slots
  the one with the highest generation; the card is not changed.\<close>

theorem mount_takes_newest_valid:
  assumes dev: "reliable_device P invar addressable readable contents"
    and fs: "invar (fs_sd fs)" "wf_fs fs" "addressable 0" "readable (fs_sd fs) 0"
    and v: "fkfs_header_crc_valid (header_at (contents (fs_sd fs) 0) j)" "j < 2"
  shows "\<exists>fs1 i. fkfs_initialize P fs False = Some (True, fs1) \<and> i < 2
    \<and> fkfs_header_crc_valid (header_at (contents (fs_sd fs) 0) i)
    \<and> header_generation (header_at (contents (fs_sd fs) 0) j)
        \<le> header_generation (header_at (contents (fs_sd fs) 0) i)
    \<and> unat (fs_headerIndex fs1) = i
    \<and> fs_header fs1 = with_names (header_at (contents (fs_sd fs) 0) i) (fs_header fs)
    \<and> contents (fs_sd fs1) = contents (fs_sd fs)"
proof -
  let ?blk = "contents (fs_sd fs) 0"
  let ?i = "select_header_index (header_at ?blk 0) (header_at ?blk 1)"
  have j: "j = 0 \<or> j = 1" using v(2) by linarith
  have v': "fkfs_header_crc_valid (header_at ?blk 0) \<or> fkfs_header_crc_valid (header_at ?blk 1)"
    using v(1) j by auto
  from reliable_device.fkfs_initialize_load_ok [OF dev fs v']
  obtain n sd st where eq: "fkfs_initialize P fs False = Some (True, fs\<lparr>fs_numberOfBlocks := n,
      fs_headerIndex := ?i, fs_header := with_names (header_at ?blk (unat ?i)) (fs_header fs),
      fs_buffer := put_header ?blk (unat ?i) (with_names (header_at ?blk (unat ?i)) (fs_header fs)),
      fs_sd := sd, fs_statistics := st\<rparr>)" "contents sd = contents (fs_sd fs)"
    by blast
  have "unat ?i < 2" by (rule select_header_index_lt2)
  moreover have "fkfs_header_crc_valid (header_at ?blk (unat ?i))"
    "header_generation (header_at ?blk j) \<le> header_generation (header_at ?blk (unat ?i))"
    using v(1) j by (auto simp: select_header_index_def)
  ultimately show ?thesis using eq by auto
qed

text \<open>C13: a header write that is cut off does not lose the file system. Synchronising a dirty, mounted
  object succeeds; and when the power fails during its write of block 0, so that every byte of the block
  is the one before or the one after the write, and the slot written either fails its checksum or is
  still as it was, then the next mount, by any object, succeeds and goes back to the header that was
  current on the card before the synchronisation. (A mixed slot that passes its checksum by chance is not
  excluded by the code. \<^verbatim>\<open>fkfs_touch\<close> writes the current slot in place and has no such guarantee.)\<close>

theorem torn_header_write_falls_back:
  assumes dev: "reliable_device P invar addressable readable contents"
    and fs: "invar (fs_sd fs)" "wf_fs fs" "addressable 0" "readable (fs_sd fs) 0"
    and dirty: "fs_cachedBlockDirty fs" "addressable (header_block (fs_header fs))"
      "header_block (fs_header fs) \<noteq> 0"
    and m: "mounted (contents (fs_sd fs) 0) fs"
  shows "\<exists>fs1. fkfs_fsync P fs = Some (True, fs1)
    \<and> (\<forall>fs2 slot. invar (fs_sd fs2) \<and> wf_fs fs2 \<and> readable (fs_sd fs2) 0
         \<and> torn_write (contents (fs_sd fs) 0) (contents (fs_sd fs1) 0) (contents (fs_sd fs2) 0)
         \<and> slot = header_at (contents (fs_sd fs2) 0) (unat (fs_headerIndex fs1))
         \<and> (\<not> fkfs_header_crc_valid slot
            \<or> slot = header_at (contents (fs_sd fs) 0) (unat (fs_headerIndex fs1))) \<longrightarrow>
         (\<exists>fs3. fkfs_initialize P fs2 False = Some (True, fs3) \<and> fs_headerIndex fs3 = fs_headerIndex fs
            \<and> fs_header fs3 = with_names
                (header_at (contents (fs_sd fs) 0) (unat (fs_headerIndex fs))) (fs_header fs2)))"
proof -
  let ?blk = "contents (fs_sd fs) 0" and ?j = "fs_headerIndex fs"
  let ?i = "(fs_headerIndex fs + 1) mod 2"
  let ?h = "seal_header ((fs_header fs)\<lparr>header_generation := header_generation (fs_header fs) + 1\<rparr>)"
  from reliable_device.fkfs_fsync_ok [OF dev fs dirty(1) refl dirty(2,3)]
  obtain sd st where eq: "fkfs_fsync P fs = Some (True, fs\<lparr>fs_cachedBlockNumber := UINT32_MAX,
       fs_cachedBlockDirty := False, fs_headerIndex := ?i, fs_header := ?h, fs_sd := sd,
       fs_statistics := st\<rparr>)" (is "_ = Some (True, ?fs1)")
    and sd: "contents sd 0 = put_header ?blk (unat ?i) ?h"
    by blast
  have len: "length ?blk = 512"
    using block_store.contents_length [OF reliable_device.axioms(1) [OF dev]] fs(1,4) by blast
  have wfh: "wf_header ?h" "unat ?j < 2" using fs(2) by (simp_all add: wf_fs_def)
  have ij: "unat ?i < 2" "unat ?i \<noteq> unat ?j" using flip_index [OF wfh(2)] u8_lt2 [OF wfh(2)] by auto
  let ?fsj = "fs\<lparr>fs_header := header_at ?blk (unat ?j)\<rparr>"
  have "\<exists>fs3. fkfs_initialize P fs2 False = Some (True, fs3) \<and> fs_headerIndex fs3 = ?j
      \<and> fs_header fs3 = with_names (header_at ?blk (unat ?j)) (fs_header fs2)"
    if h: "invar (fs_sd fs2)" "wf_fs fs2" "readable (fs_sd fs2) 0"
      "torn_write ?blk (contents sd 0) (contents (fs_sd fs2) 0)"
      "\<not> fkfs_header_crc_valid (header_at (contents (fs_sd fs2) 0) (unat ?i))
        \<or> header_at (contents (fs_sd fs2) 0) (unat ?i) = header_at ?blk (unat ?i)" for fs2
  proof -
    have kept: "header_at (contents (fs_sd fs2) 0) (unat ?j) = header_at ?blk (unat ?j)"
      using torn_write_other [OF len wfh(1) ij(1) wfh(2) ij(2)] h(4) sd by simp
    then have "mounted (contents (fs_sd fs2) 0) ?fsj"
      using mounted_torn [OF m kept] h(5) u8_lt2 [OF wfh(2)] by auto
    then show ?thesis using remount [OF dev h(1,2) fs(3) h(3), of ?fsj] kept by auto
  qed
  then show ?thesis using eq by auto
qed

text \<open>C21: the generation is a 32 bit counter that wraps. A synchronisation at its last value writes
  a header of generation 0, and the next mount prefers the older header in the other slot: the
  file table of the synchronisation is not the one that is mounted.\<close>

theorem generation_wrap_mounts_old_header:
  assumes dev: "reliable_device P invar addressable readable contents"
    and fs: "invar (fs_sd fs)" "wf_fs fs" "addressable 0" "readable (fs_sd fs) 0"
    and dirty: "fs_cachedBlockDirty fs" "addressable (header_block (fs_header fs))"
      "header_block (fs_header fs) \<noteq> 0"
    and m: "mounted (contents (fs_sd fs) 0) fs"
    and gen: "header_generation (fs_header fs) = UINT32_MAX"
  shows "\<exists>fs1. fkfs_fsync P fs = Some (True, fs1)
    \<and> (\<forall>fs2. fs_sd fs2 = fs_sd fs1 \<and> wf_fs fs2 \<longrightarrow>
         (\<exists>fs3. fkfs_initialize P fs2 False = Some (True, fs3)
            \<and> fs_header fs3 = with_names
                (header_at (contents (fs_sd fs) 0) (unat (fs_headerIndex fs))) (fs_header fs2)))"
proof -
  let ?b = "header_block (fs_header fs)" and ?blk = "contents (fs_sd fs) 0"
  let ?j = "fs_headerIndex fs"
  let ?i = "(fs_headerIndex fs + 1) mod 2"
  let ?h = "seal_header ((fs_header fs)\<lparr>header_generation := header_generation (fs_header fs) + 1\<rparr>)"
  from reliable_device.fkfs_fsync_ok [OF dev fs dirty(1) refl dirty(2,3)]
  obtain sd st where eq: "fkfs_fsync P fs = Some (True, fs\<lparr>fs_cachedBlockNumber := UINT32_MAX,
       fs_cachedBlockDirty := False, fs_headerIndex := ?i, fs_header := ?h, fs_sd := sd,
       fs_statistics := st\<rparr>)" (is "_ = Some (True, ?fs1)")
    and sd: "invar sd" "readable sd 0" "contents sd 0 = put_header ?blk (unat ?i) ?h"
    by blast
  have len: "length ?blk = 512"
    using block_store.contents_length [OF reliable_device.axioms(1) [OF dev]] fs(1,4) by blast
  have wfh: "wf_header ?h" "unat ?j < 2" using fs(2) by (simp_all add: wf_fs_def)
  have ij: "unat ?i < 2" "unat ?i \<noteq> unat ?j" using flip_index [OF wfh(2)] u8_lt2 [OF wfh(2)] by auto
  let ?old = "header_at ?blk (unat ?j)"
  have h: "header_at (contents sd 0) (unat ?i) = ?h" "header_at (contents sd 0) (unat ?j) = ?old"
    using header_at_put_same [OF len wfh(1) ij(1)] header_at_put_other [OF len wfh(1) ij(1) wfh(2) ij(2)] sd(3)
    by simp_all
  have old: "fkfs_header_crc_valid ?old" "header_generation ?old = UINT32_MAX"
    using m gen by (simp_all add: mounted_def Let_def)
  have new: "fkfs_header_crc_valid ?h" "header_generation ?h = 0"
    using gen fs(2) by (simp_all add: seal_header_valid wf_fs_def)
  have sel: "select_header_index (header_at (contents sd 0) 0) (header_at (contents sd 0) 1) = ?j"
    using u8_lt2 [OF wfh(2)] h old new flip_index [OF wfh(2)] by (auto simp: select_header_index_def)
  let ?fsj = "fs\<lparr>fs_header := ?old\<rparr>"
  have mj: "mounted (contents sd 0) ?fsj" using sel h old wfh(2) by (simp add: mounted_def Let_def)
  have "\<exists>fs3. fkfs_initialize P fs2 False = Some (True, fs3)
      \<and> fs_header fs3 = with_names ?old (fs_header fs2)"
    if "fs_sd fs2 = fs_sd ?fs1" "wf_fs fs2" for fs2
    using remount [OF dev _ that(2) fs(3), of ?fsj] sd(1,2) mj h(2) that(1) by auto
  then show ?thesis using eq by auto
qed

end
