(* ===== verification/Fkfs_Safety.thy ===== *)
theory Fkfs_Safety
  imports Fkfs_Iter Fkfs_Persist
begin

text \<open>
  What holds of the file system on every platform, reliable or not: what an iteration delivers has
  passed its check, truncation puts the old entries of a file out of reach, an allocation stays
  inside its block, and where the guards on sizes hold and where they do not.
\<close>

section \<open>The scan\<close>

lemma block_ensure_header:
  assumes "fkfs_block_ensure P fs block = Some (ok, fs')"
  shows "fs_header fs' = fs_header fs"
  using assms
  by (auto simp: fkfs_block_ensure_def fkfs_read_block_def fs_millis_def fs_stat_update_def
      bind_eq_Some_conv Let_def case_prod_beta split: if_splits)

lemma status_tick_keeps: "fs_header (fst (status_tick P fs t)) = fs_header fs"
  by (simp add: status_tick_def fs_millis_def Let_def case_prod_beta)

lemma scan_next_block_keeps:
  assumes "scan_next_block P config started fs iter n = (stop, fs', iter', n')"
  shows "fs_header fs' = fs_header fs" "token_file (iter_token iter') = token_file (iter_token iter)"
  using assms
  by (auto simp: scan_next_block_def wrap_token_def token_map_def fs_millis_def Let_def case_prod_beta
      split: if_splits)

text \<open>What a hit of the scan is: the entry under the data pointer is good and of the right file.\<close>

definition delivered :: "'d fkfs_t \<Rightarrow> u8 \<Rightarrow> fkfs_file_iter_t \<Rightarrow> bool" where
  "delivered fs f iter \<longleftrightarrow> (\<exists>offset.
     let ptr = drop offset (take SD_RAW_BLOCK_SIZE (fs_buffer fs));
         entry = entry_of_bytes (take sizeof_fkfs_entry_t ptr)
     in fkfs_block_check fs ptr = Some FKFS_OFFSET_SEARCH_STATUS_GOOD
        \<and> entry_file entry = f \<and> iter_size iter = entry_size entry
        \<and> iter_data iter = Some (offset + sizeof_fkfs_entry_t))"

lemma scan_body_hit:
  assumes "scan_body P config started (fs, iter, t, n) = Some (Inl (True, fs', iter'))"
  shows "delivered fs' (token_file (iter_token iter)) iter'" "fs_header fs' = fs_header fs"
    "token_file (iter_token iter') = token_file (iter_token iter)"
proof -
  obtain fs1 where e: "fkfs_block_ensure P fs (token_block (iter_token iter)) = Some (True, fs1)"
    and h: "fs' = fs1" "fkfs_block_check fs1 (iter_ptr fs1 iter) = Some FKFS_OFFSET_SEARCH_STATUS_GOOD"
      "entry_file (entry_of_bytes (take 7 (iter_ptr fs1 iter))) = token_file (iter_token iter)"
      "iter_size iter' = entry_size (entry_of_bytes (take 7 (iter_ptr fs1 iter)))"
      "iter_data iter' = Some (unat (token_offset (iter_token iter)) + 7)"
      "token_file (iter_token iter') = token_file (iter_token iter)"
    using assms
    by (auto simp: scan_body_def bind_eq_Some_conv advance_token_def token_map_def Let_def case_prod_beta
        split: if_splits)
  show "delivered fs' (token_file (iter_token iter)) iter'"
    unfolding delivered_def Let_def using h
    by (intro exI [of _ "unat (token_offset (iter_token iter))"]) (simp add: iter_ptr_def)
  show "fs_header fs' = fs_header fs" "token_file (iter_token iter') = token_file (iter_token iter)"
    using h e block_ensure_header by auto
qed

lemma scan_body_again:
  assumes "scan_body P config started (fs, iter, t, n) = Some (Inr (fs', iter', t', n'))"
  shows "fs_header fs' = fs_header fs" "token_file (iter_token iter') = token_file (iter_token iter)"
proof -
  obtain fs1 where e: "fkfs_block_ensure P fs (token_block (iter_token iter)) = Some (True, fs1)"
    and h: "fs_header fs' = fs_header fs1 \<and> token_file (iter_token iter') = token_file (iter_token iter)"
    using assms
    by (cases "scan_next_block P config started (snd (the (fkfs_block_ensure P fs (token_block (iter_token iter))))) iter n")
      (auto simp: scan_body_def bind_eq_Some_conv advance_token_def token_map_def Let_def case_prod_beta
        status_tick_keeps [THEN trans] split: if_splits dest: scan_next_block_keeps
        intro: status_tick_keeps [THEN trans])
  show "fs_header fs' = fs_header fs" "token_file (iter_token iter') = token_file (iter_token iter)"
    using h e block_ensure_header by auto
qed

lemma block_check_cong:
  "header_files (fs_header fs) = header_files (fs_header fs') \<Longrightarrow>
    fkfs_block_check fs ptr = fkfs_block_check fs' ptr"
  by (simp add: fkfs_block_check_def Let_def cong: if_cong)

lemma delivered_cong:
  assumes "delivered fs f iter" "fs_header fs' = fs_header fs" "fs_buffer fs' = fs_buffer fs"
  shows "delivered fs' f iter"
  using assms block_check_cong [of fs' fs] by (simp add: delivered_def)

lemma scan_loop_hit:
  assumes "scan_loop P config started (fs, iter, t, n) = Some (True, fs', iter')"
  shows "delivered fs' (token_file (iter_token iter)) iter' \<and> fs_header fs' = fs_header fs"
proof -
  let ?Q = "\<lambda>(((P, config), started), (st :: 'a scan_state)) r. fst r \<longrightarrow>
    delivered (fst (snd r)) (token_file (iter_token (fst (snd st)))) (snd (snd r))
    \<and> fs_header (fst (snd r)) = fs_header (fst st)"
  have "?Q (((P, config), started), (fs, iter, t, n)) (True, fs', iter')"
  proof (rule scan_loop.raw_induct [where Pa = ?Q, OF _ assms], goal_cases)
    case (1 loop P config started st r)
    obtain fs iter t n where st: "st = (fs, iter, t, n)" by (cases st)
    from 1(2) obtain b where b: "scan_body P config started st = Some b"
      and r: "(case b of Inl result \<Rightarrow> Some result | Inr st' \<Rightarrow> loop P config started st') = Some r"
      by (auto simp: bind_eq_Some_conv)
    show ?case
    proof (cases b)
      case (Inl result)
      with b r show ?thesis by (cases r) (auto simp: st dest: scan_body_hit)
    next
      case (Inr st')
      then obtain fs1 iter1 t1 n1 where st': "st' = (fs1, iter1, t1, n1)" by (cases st')
      have "?Q (((P, config), started), st') r" using r Inr by (intro 1(1)) simp
      with scan_body_again [OF b [unfolded Inr st st']] show ?thesis by (simp add: st st')
    qed
  qed
  then show ?thesis by simp
qed

text \<open>Iterating never writes to the header, and success means a delivered record.\<close>

lemma iterate_hit:
  assumes "fkfs_file_iterate P fs config iter = Some (True, fs', iter')"
  shows "delivered fs' (token_file (iter_token iter)) iter' \<and> fs_header fs' = fs_header fs"
proof -
  let ?fs = "fs_stat_update (\<lambda>s. s\<lparr>stat_iterateCalls := stat_iterateCalls s + 1\<rparr>) fs"
  obtain started fs0 where m: "fs_millis P ?fs = (started, fs0)" by (cases "fs_millis P ?fs")
  have h0: "fs_header fs0 = fs_header fs"
    using m by (auto simp: fs_millis_def fs_stat_update_def Let_def case_prod_beta)
  obtain fs1 where l: "scan_loop P config started (fs0, iter, started, config_maxBlocks config) = Some (True, fs1, iter')"
    and f: "fs_header fs' = fs_header fs1" "fs_buffer fs' = fs_buffer fs1"
    using assms m
    by (auto simp: fkfs_file_iterate_def bind_eq_Some_conv fs_millis_def [of _ "fst (snd _)"]
        fs_millis_def fs_stat_update_def Let_def case_prod_beta split: if_splits)
  from scan_loop_hit [OF l] f h0 show ?thesis by (auto intro: delivered_cong)
qed

section \<open>Allocation\<close>

lemma available_offset_bound:
  assumes "fkfs_block_available_offset fs priority required buffer offset = Some (True, search)"
    and "unat offset + unat required \<le> 512"
  shows "unat (search_offset search) + unat required \<le> 512"
  using assms
proof (induction fs priority required buffer offset arbitrary: search
    rule: fkfs_block_available_offset.induct)
  case (1 fs priority required buffer offset)
  from 1(2,3) show ?case
    by (subst (asm) fkfs_block_available_offset.simps)
      (auto simp: Let_def split: option.splits if_splits dest!: 1(1) [OF refl refl _ _ _ refl refl])
qed

lemma allocate_move_room:
  assumes "allocate_move P fs required newOffset n = Some (True, fs', newOffset', n')"
    and "unat required \<le> 512"
  shows "unat newOffset' + unat required \<le> 512"
  using assms by (auto simp: allocate_move_def bind_eq_Some_conv split: if_splits)

lemma allocate_loop_room:
  assumes "allocate_loop P f required fs newOffset n = Some (True, fs')" "unat required \<le> 512"
  shows "unat (header_offset (fs_header fs')) + unat required \<le> 512"
  using assms
proof (induction P f required fs newOffset n rule: allocate_loop.induct)
  case (1 P f required fs newOffset n)
  from 1(2) obtain fs1 o1 n1 fs2 found search where
    m: "allocate_move P fs required newOffset n = Some (True, fs1, o1, n1)"
    and e: "fkfs_block_ensure P fs1 (header_block (fs_header fs1)) = Some (True, fs2)"
    and a: "fkfs_block_available_offset fs2 (settings_priority (fs_files fs2 ! unat f)) required
        (fs_buffer fs2) o1 = Some (found, search)"
    and r: "if found then fs' = fs_header_map (\<lambda>h. h\<lparr>header_offset := search_offset search\<rparr>) fs2
        else n1 < 5 \<and> allocate_loop P f required fs2 512 n1 = Some (True, fs')"
    by (subst (asm) allocate_loop.simps) (auto split: option.splits if_splits)
  show ?case
  proof (cases found)
    case True
    with available_offset_bound [OF _ allocate_move_room [OF m 1(3)]] a r show ?thesis
      by (simp add: fs_header_map_def)
  next
    case False
    with r have "n1 < 5" "allocate_loop P f required fs2 512 n1 = Some (True, fs')" by simp_all
    then show ?thesis
      using 1(1) [OF m refl refl refl _ e refl _ a refl False] 1(3) by simp
  qed
qed


section \<open>Properties\<close>

text \<open>C20: an iteration delivers only what passed its check. On every platform, when an iteration ends with a
  record and none of its checks read behind the end of the block buffer, then the entry in front of the
  data the iterator reports belongs to the file asked for, has a size between 1 and 511 which is the one
  reported, and its checksum is that of its own fields and of those data bytes under the current version of
  the file; the header is not touched. (The calls that do read behind the buffer have no value in the
  model. The source does not prevent them, \<^verbatim>\<open>fkfs.cpp\<close> line 313, so nothing is claimed here about where the
  data end.)\<close>

theorem iterate_delivers_checked_entry:
  assumes "fkfs_file_iterate P fs config iter = Some (True, fs', iter')"
  shows "\<exists>offset ptr entry. ptr = drop offset (take SD_RAW_BLOCK_SIZE (fs_buffer fs'))
    \<and> entry = entry_of_bytes (take sizeof_fkfs_entry_t ptr)
    \<and> fkfs_block_check fs' ptr = Some FKFS_OFFSET_SEARCH_STATUS_GOOD
    \<and> entry_file entry = token_file (iter_token iter) \<and> unat (entry_file entry) < FKFS_FILES_MAX
    \<and> iter_size iter' = entry_size entry \<and> 0 < entry_size entry \<and> unat (entry_size entry) < SD_RAW_BLOCK_SIZE
    \<and> iter_data iter' = Some (offset + sizeof_fkfs_entry_t)
    \<and> entry_crc entry = crc16_update
        (crc16_update (file_version (header_files (fs_header fs') ! unat (entry_file entry)))
          (take FKFS_ENTRY_SIZE_MINUS_CRC (entry_bytes entry)))
        (take (unat (entry_size entry)) (drop sizeof_fkfs_entry_t ptr))
    \<and> fs_header fs' = fs_header fs"
proof -
  note hit = iterate_hit [OF assms]
  then obtain offset where o: "let ptr = drop offset (take SD_RAW_BLOCK_SIZE (fs_buffer fs'));
         entry = entry_of_bytes (take sizeof_fkfs_entry_t ptr)
     in fkfs_block_check fs' ptr = Some FKFS_OFFSET_SEARCH_STATUS_GOOD
        \<and> entry_file entry = token_file (iter_token iter) \<and> iter_size iter' = entry_size entry
        \<and> iter_data iter' = Some (offset + sizeof_fkfs_entry_t)"
    unfolding delivered_def by blast
  let ?ptr = "drop offset (take SD_RAW_BLOCK_SIZE (fs_buffer fs'))"
  have good: "fkfs_block_check fs' ?ptr = Some FKFS_OFFSET_SEARCH_STATUS_GOOD" using o by (simp add: Let_def)
  note b = fkfs_block_check_bounds [OF good, simplified]
  show ?thesis
    using o hit b fkfs_block_check_good [OF good]
    by (intro exI [of _ offset] exI [of _ ?ptr] exI [of _ "entry_of_bytes (take 7 ?ptr)"])
      (simp add: Let_def word_gt_0 unat_gt_0)
qed

text \<open>Truncating a file invalidates every entry written to it before, through the version that
  seeds the checksum, and leaves the entries of the other files as good as they were.\<close>

lemma truncate_invalidates_entries:
  assumes "wf_header (fs_header fs)" "fkfs_file_truncate fs f = Some (ok, fs')"
    and "fkfs_block_check fs ptr = Some FKFS_OFFSET_SEARCH_STATUS_GOOD"
  shows "fkfs_block_check fs' ptr =
    Some (if entry_file (entry_of_bytes (take sizeof_fkfs_entry_t ptr)) = f
          then FKFS_OFFSET_SEARCH_STATUS_CRC else FKFS_OFFSET_SEARCH_STATUS_GOOD)"
proof -
  let ?e = "entry_of_bytes (take 7 ptr)"
  let ?file = "\<lambda>fs. header_files (fs_header fs) ! unat (entry_file ?e)"
  note b = fkfs_block_check_bounds [OF assms(3), simplified]
  have f: "unat f < 4" "fs' = fs_file_update f (\<lambda>file. file
          \<lparr> file_version := file_version file + 1, file_startBlock := header_block (fs_header fs),
            file_endBlock := header_block (fs_header fs),
            file_startOffset := 0, file_endOffset := 0, file_size := 0 \<rparr>) fs"
    using assms(2) by (auto simp: fkfs_file_truncate_def split: if_splits)
  have v: "file_version (?file fs') = (if entry_file ?e = f then file_version (?file fs) + 1 else file_version (?file fs))"
    using assms(1) f b(6) by (auto simp: fs_file_update_def wf_header_def nth_list_update dest: unsigned_word_eqI)
  obtain payload where p: "mem_read (drop 7 ptr) 0 (unat (entry_size ?e)) = Some payload"
    and crc: "entry_crc ?e = crc16_update (crc16_update (file_version (?file fs)) (take 5 (entry_bytes ?e))) payload"
    using assms(3) b
    by (auto simp: fkfs_block_check_def fkfs_block_crc_def mem_read_def bind_eq_Some_conv Let_def split: if_splits)
  have "fkfs_block_check fs' ptr = Some
     (if entry_crc ?e \<noteq> crc16_update (crc16_update (file_version (?file fs')) (take 5 (entry_bytes ?e))) payload
      then FKFS_OFFSET_SEARCH_STATUS_CRC else FKFS_OFFSET_SEARCH_STATUS_GOOD)"
    using p b by (auto simp: fkfs_block_check_def fkfs_block_crc_def mem_read_def Let_def unat_gt_0)
  then show ?thesis
    using crc v by (auto dest!: crc16_seed_inj)
qed

text \<open>C22: an allocation that succeeds has room for what was asked inside the block it chose, for
  every request of at most a block.\<close>

theorem allocate_stays_in_block:
  assumes "fkfs_file_allocate_block P fs f required = Some (True, fs')"
    and "unat required \<le> SD_RAW_BLOCK_SIZE"
  shows "unat (header_offset (fs_header fs')) + unat required \<le> SD_RAW_BLOCK_SIZE"
  using allocate_loop_room assms unfolding fkfs_file_allocate_block_def by blast

text \<open>C25: the guard of an append. Empty records and records that do not fit a block are refused
  without a change; but the sum in the guard is a \<^verbatim>\<open>uint16_t\<close>, so a size of 65529 or more passes
  it, and once a place is allocated the copy leaves the block.\<close>

theorem append_size_guard:
  assumes "unat f < FKFS_FILES_MAX"
  shows "(sz = 0 \<or> 505 < unat sz \<and> unat sz < 65529 \<longrightarrow> fkfs_file_append P fs f sz data = Some (False, fs))
    \<and> (65529 \<le> unat sz \<and> fkfs_file_allocate_block P fs f (7 + sz) = Some (True, fs')
         \<and> length (fs_buffer fs') = SD_RAW_BLOCK_SIZE \<longrightarrow> fkfs_file_append P fs f sz data = None)"
proof (intro conjI impI)
  assume "sz = 0 \<or> 505 < unat sz \<and> unat sz < 65529"
  then have "sz = 0 \<or> unat (7 + sz) > 512" by (auto simp: unat_word_ariths)
  then show "fkfs_file_append P fs f sz data = Some (False, fs)"
    using assms by (auto simp: fkfs_file_append_def Let_def)
next
  assume h: "65529 \<le> unat sz \<and> fkfs_file_allocate_block P fs f (7 + sz) = Some (True, fs')
    \<and> length (fs_buffer fs') = SD_RAW_BLOCK_SIZE"
  have "sz \<noteq> 0" using h by auto
  moreover have "unat (7 + sz) \<le> 512"
  proof -
    have "unat sz < 65536" using unsigned_less [of sz] by simp
    then have "(7 + unat sz) mod 65536 = unat sz - 65529" using h by (simp add: mod_if)
    then have "(7 + unat sz) mod 65536 \<le> 512" using \<open>unat sz < 65536\<close> by simp
    then show ?thesis by (simp add: unat_word_ariths)
  qed
  ultimately show "fkfs_file_append P fs f sz data = None"
    using assms h
    by (auto simp: fkfs_file_append_def Let_def mem_write_def mem_read_def not_le [symmetric]
        bind_eq_None_conv split: if_splits)
qed

text \<open>The check of an entry only compares the sizes with the size of a whole block. An entry
  whose size is below that but larger than what is left of the block makes the checksum read past
  the end of the buffer.\<close>

lemma block_check_reads_past_block:
  assumes "length block = SD_RAW_BLOCK_SIZE" "offset + sizeof_fkfs_entry_t \<le> SD_RAW_BLOCK_SIZE"
  defines "entry \<equiv> entry_of_bytes (take sizeof_fkfs_entry_t (drop offset block))"
  assumes "unat (entry_file entry) < FKFS_FILES_MAX"
    and "entry_size entry \<noteq> 0" "unat (entry_size entry) < SD_RAW_BLOCK_SIZE"
    and "entry_available entry \<noteq> 0" "unat (entry_available entry) < SD_RAW_BLOCK_SIZE"
  shows "fkfs_block_check fs (drop offset block) = None \<longleftrightarrow>
    SD_RAW_BLOCK_SIZE < offset + sizeof_fkfs_entry_t + unat (entry_size entry)"
  using assms
  by (auto simp: fkfs_block_check_def fkfs_block_crc_def mem_read_def Let_def split: if_splits)

end
