(* ===== verification/Fkfs_Log.thy ===== *)
theory Fkfs_Log
  imports Fkfs_Append
begin

text \<open>
  \<^verbatim>\<open>fkfs_log.cpp\<close>: a text log that collects bytes in a buffer of one maximal entry and appends
  it to its file when it is full. The structure holds a pointer to a shared file system object;
  the model passes that object beside the log. \<^verbatim>\<open>size_t\<close> is 32 bits wide, as on the target.
\<close>

record fkfs_log_t =
  log_file :: u8
  log_position :: u32
  log_buffer :: bytes

definition wf_log :: "fkfs_log_t \<Rightarrow> bool" where
  "wf_log log \<longleftrightarrow> length (log_buffer log) = FKFS_MAXIMUM_BLOCK_SIZE"

definition log_terminate :: "fkfs_log_t \<Rightarrow> fkfs_log_t" where
  "log_terminate log = log\<lparr>log_buffer := (log_buffer log)[0 := 0]\<rparr>"

definition fkfs_log_initialize :: "fkfs_log_t \<Rightarrow> u8 \<Rightarrow> bool \<times> fkfs_log_t" where
  "fkfs_log_initialize log file = (True, (log_terminate log)\<lparr>log_file := file\<rparr>)"

definition fkfs_log_flush ::
  "'d platform \<Rightarrow> fkfs_log_t \<Rightarrow> 'd fkfs_t \<Rightarrow> (bool \<times> fkfs_log_t \<times> 'd fkfs_t) option" where
  "fkfs_log_flush P log fs = do {
     (ok, fs) \<leftarrow> fkfs_file_append P fs (log_file log) (ucast (log_position log)) (log_buffer log);
     if \<not> ok then Some (False, log, fs)
     else Some (True, (log_terminate log)\<lparr>log_position := 0\<rparr>, fs)
   }"

text \<open>
  The copy loop: \<open>ptr\<close> is what is left of the caller's bytes and \<open>required\<close> how many of them
  are still to be copied. \<open>available\<close> is computed in \<^verbatim>\<open>size_t\<close> and wraps when the position
  is beyond the buffer, in which case the copy leaves it.
\<close>

function log_copy_loop ::
  "'d platform \<Rightarrow> fkfs_log_t \<Rightarrow> 'd fkfs_t \<Rightarrow> bytes \<Rightarrow> u32 \<Rightarrow> (bool \<times> fkfs_log_t \<times> 'd fkfs_t) option" where
  "log_copy_loop P log fs ptr required =
     (if required = 0 then Some (True, log, fs)
      else let available = 505 - log_position log;
               copy = (if required > available then available else required)
        in case mem_read ptr 0 (unat copy) of
          None \<Rightarrow> None
        | Some bs \<Rightarrow>
          (case mem_write (log_buffer log) (unat (log_position log)) bs of
             None \<Rightarrow> None
           | Some buffer \<Rightarrow>
             let log = log\<lparr>log_buffer := buffer, log_position := log_position log + copy\<rparr>;
                 required = required - copy;
                 ptr = drop (unat copy) ptr
             in if log_position log \<ge> 505
                then case fkfs_log_flush P log fs of
                  None \<Rightarrow> None
                | Some (ok, log, fs) \<Rightarrow>
                    if \<not> ok then Some (False, log, fs)
                    else log_copy_loop P log fs ptr required
                else log_copy_loop P log fs ptr required))"
  by pat_completeness auto

lemma fkfs_log_flush_position:
  "fkfs_log_flush P log fs = Some (True, log', fs') \<Longrightarrow> log_position log' = 0"
  by (auto simp: fkfs_log_flush_def bind_eq_Some_conv split: if_splits)

termination log_copy_loop
proof (relation "measures [\<lambda>(P, log, fs, ptr, required). unat required,
    \<lambda>(P, log, fs, ptr, required). unat (log_position log)]", goal_cases)
  case 1
  show ?case by simp
next
  case (2 P log fs ptr required available copy bs buffer log' required' ptr' r ok log'' p fs'')
  show ?case
  proof (cases "copy = 0")
    case True
    with 2 have "available = 0" by (auto split: if_splits)
    then have "log_position log = 505" using 2(2) by simp
    with True 2 show ?thesis by (auto dest!: fkfs_log_flush_position)
  next
    case False
    have "copy \<le> required" using 2(3) by (auto split: if_splits)
    with False 2(7) show ?thesis
      by (simp add: unat_sub word_le_nat_alt) (metis diff_less not_gr_zero unat_eq_zero order_trans zero_le le_zero_eq)
  qed
next
  case (3 P log fs ptr required available copy bs buffer log' required' ptr')
  have "copy \<noteq> 0"
  proof
    assume "copy = 0"
    with 3 have "available = 0" by (auto split: if_splits)
    then have "log_position log = 505" using 3(2) by simp
    with 3 \<open>copy = 0\<close> show False by simp
  qed
  moreover have "copy \<le> required" using 3(3) by (auto split: if_splits)
  ultimately show ?case using 3(7)
    by (simp add: unat_sub word_le_nat_alt) (metis diff_less not_gr_zero unat_eq_zero order_trans zero_le le_zero_eq)
qed

declare log_copy_loop.simps [simp del]

definition fkfs_log_append_binary ::
  "'d platform \<Rightarrow> fkfs_log_t \<Rightarrow> 'd fkfs_t \<Rightarrow> bytes \<Rightarrow> u32 \<Rightarrow> bool
     \<Rightarrow> (bool \<times> fkfs_log_t \<times> 'd fkfs_t) option" where
  "fkfs_log_append_binary P log fs ptr len canSplit =
     (if \<not> canSplit \<and> 505 - log_position log < len then
        if len \<ge> 505 then Some (False, log, fs)
        else do {
          (ok, log, fs) \<leftarrow> fkfs_log_flush P log fs;
          if \<not> ok then Some (False, log, fs) else log_copy_loop P log fs ptr len
        }
      else log_copy_loop P log fs ptr len)"


text \<open>\<^verbatim>\<open>strlen\<close> counts up to the terminator.\<close>

definition fkfs_log_append ::
  "'d platform \<Rightarrow> fkfs_log_t \<Rightarrow> 'd fkfs_t \<Rightarrow> bytes \<Rightarrow> (bool \<times> fkfs_log_t \<times> 'd fkfs_t) option" where
  "fkfs_log_append P log fs str =
     (let required = of_nat (length (takeWhile (\<lambda>c. c \<noteq> 0) str))
      in fkfs_log_append_binary P log fs str required True)"

text \<open>\<open>formatted\<close> is the text the format string and its arguments expand to; \<^verbatim>\<open>vsnprintf\<close>
  keeps one byte of \<^verbatim>\<open>incoming\<close> for the terminator.\<close>

definition fkfs_log_printf ::
  "'d platform \<Rightarrow> fkfs_log_t \<Rightarrow> 'd fkfs_t \<Rightarrow> bytes \<Rightarrow> (bool \<times> fkfs_log_t \<times> 'd fkfs_t) option" where
  "fkfs_log_printf P log fs formatted =
     (let incoming = take (FKFS_MAXIMUM_BLOCK_SIZE - 1) formatted @ [0]
      in fkfs_log_append P log fs incoming)"

end
