(* ===== verification/Fkfs_Layout.thy ===== *)
theory Fkfs_Layout
  imports Fkfs_Iter
begin

text \<open>
  What a block of the log means. A block holds a chain of entries followed by erased bytes; an
  entry is a header sealed with the version its file had when it was written, and its data. Every
  truncation of the file since has added one to that version, so the entry has an age, the number
  of those truncations, and it is live while its age is zero. The theory gives the byte image of a
  chain and shows what the entry check and the search for a place see in it.
\<close>

section \<open>Entries and chains\<close>

text \<open>A file number and the data appended to it.\<close>

type_synonym log_record = "u8 \<times> bytes"

definition valid_record :: "log_record \<Rightarrow> bool" where
  "valid_record r \<longleftrightarrow> unat (fst r) < FKFS_FILES_MAX \<and> 0 < length (snd r)
     \<and> length (snd r) \<le> FKFS_MAXIMUM_BLOCK_SIZE"

text \<open>What a block stores: the file, the age of the entry and the data.\<close>

type_synonym log_entry = "(u8 \<times> nat) \<times> bytes"

definition stored :: "log_record \<Rightarrow> log_entry" where
  "stored r = ((fst r, 0), snd r)"

definition valid_entry :: "log_entry \<Rightarrow> bool" where
  "valid_entry e \<longleftrightarrow> valid_record (fst (fst e), snd e) \<and> snd (fst e) < 2 ^ 16"

definition record_entry :: "u16 list \<Rightarrow> log_entry \<Rightarrow> fkfs_entry_t" where
  "record_entry vers r =
     (let e = \<lparr> entry_file = fst (fst r), entry_size = of_nat (length (snd r)),
                entry_available = of_nat (length (snd r)), entry_crc = 0 \<rparr>
      in e\<lparr>entry_crc := crc16_update (crc16_update (vers ! unat (fst (fst r)) - of_nat (snd (fst r)))
             (take FKFS_ENTRY_SIZE_MINUS_CRC (entry_bytes e))) (snd r)\<rparr>)"

definition record_image :: "u16 list \<Rightarrow> log_entry \<Rightarrow> bytes" where
  "record_image vers r = entry_bytes (record_entry vers r) @ snd r"

definition chain_image :: "u16 list \<Rightarrow> log_entry list \<Rightarrow> bytes" where
  "chain_image vers rs = concat (map (record_image vers) rs)"

text \<open>The number of bytes a chain takes.\<close>

definition chain_length :: "('a \<times> bytes) list \<Rightarrow> nat" where
  "chain_length rs = sum_list (map (\<lambda>r. 7 + length (snd r)) rs)"

text \<open>Bytes no program has written: a card reads as all zeros or all ones.\<close>

definition erased :: "bytes \<Rightarrow> bool" where
  "erased bs \<longleftrightarrow> list_all (\<lambda>b. b = 0) bs \<or> list_all (\<lambda>b. b = 0xFF) bs"

definition block_holds :: "u16 list \<Rightarrow> log_entry list \<Rightarrow> bytes \<Rightarrow> bool" where
  "block_holds vers rs blk \<longleftrightarrow> length blk = SD_RAW_BLOCK_SIZE \<and> list_all valid_entry rs
     \<and> chain_length rs \<le> SD_RAW_BLOCK_SIZE
     \<and> take (chain_length rs) blk = chain_image vers rs \<and> erased (drop (chain_length rs) blk)"

definition versions :: "'d fkfs_t \<Rightarrow> u16 list" where
  "versions fs = map file_version (header_files (fs_header fs))"

section \<open>Sizes\<close>

lemma length_record_image [simp]: "length (record_image vers r) = 7 + length (snd r)"
  by (simp add: record_image_def)

lemma length_chain_image [simp]: "length (chain_image vers rs) = chain_length rs"
  by (simp add: chain_image_def chain_length_def length_concat comp_def)

lemma chain_length_simps [simp]:
  "chain_length [] = 0" "chain_length (r # rs) = 7 + length (snd r) + chain_length rs"
  "chain_length (rs @ rs') = chain_length rs + chain_length rs'"
  by (simp_all add: chain_length_def)

lemma chain_image_simps [simp]:
  "chain_image vers [] = []" "chain_image vers (r # rs) = record_image vers r @ chain_image vers rs"
  "chain_image vers (rs @ rs') = chain_image vers rs @ chain_image vers rs'"
  by (simp_all add: chain_image_def)

lemma chain_length_take_le: "chain_length (take j rs) \<le> chain_length rs"
  by (metis append_take_drop_id chain_length_simps(3) le_add1)

lemma chain_length_take_Suc:
  "j < length rs \<Longrightarrow> chain_length (take (Suc j) rs) = chain_length (take j rs) + 7 + length (snd (rs ! j))"
  by (simp add: take_Suc_conv_app_nth)

lemma chain_length_take_mono: "i \<le> j \<Longrightarrow> chain_length (take i rs) \<le> chain_length (take j rs)"
  by (metis chain_length_take_le min.absorb1 take_take)

lemma chain_length_take_less:
  assumes "i < j" "j \<le> length rs"
  shows "chain_length (take i rs) < chain_length (take j rs)"
proof -
  have "chain_length (take (Suc i) rs) \<le> chain_length (take j rs)"
    using assms(1) by (intro chain_length_take_mono) simp
  then show ?thesis using assms by (simp add: chain_length_take_Suc)
qed

lemma erased_drop [intro]: "erased bs \<Longrightarrow> erased (drop n bs)"
  by (auto simp: erased_def list_all_iff dest: in_set_dropD)

text \<open>The bytes from the \<open>j\<close>-th entry on.\<close>

lemma block_holds_drop:
  assumes "block_holds vers rs blk"
  shows "drop (chain_length (take j rs)) blk =
    chain_image vers (drop j rs) @ drop (chain_length rs) blk"
proof -
  have "blk = chain_image vers rs @ drop (chain_length rs) blk"
    using assms by (metis append_take_drop_id block_holds_def)
  also have "chain_image vers rs = chain_image vers (take j rs) @ chain_image vers (drop j rs)"
    by (metis append_take_drop_id chain_image_simps(3))
  finally have "drop (chain_length (take j rs)) blk = drop (chain_length (take j rs))
    (chain_image vers (take j rs) @ chain_image vers (drop j rs) @ drop (chain_length rs) blk)"
    by simp
  then show ?thesis by simp
qed

section \<open>What the entry check sees\<close>

lemma record_entry_fields [simp]:
  "entry_file (record_entry vers r) = fst (fst r)"
  "entry_size (record_entry vers r) = of_nat (length (snd r))"
  "entry_available (record_entry vers r) = of_nat (length (snd r))"
  by (simp_all add: record_entry_def Let_def)

lemma entry_prefix [simp]:
  "take 5 (entry_bytes e) = entry_file e # le16 (entry_size e) @ le16 (entry_available e)"
  by (simp add: entry_bytes_def le16_def)

lemma unat_record_size:
  "valid_record r \<Longrightarrow> unat (of_nat (length (snd r)) :: u16) = length (snd r)"
  by (simp add: valid_record_def unat_of_nat)

lemma valid_record_size_nonzero:
  assumes "valid_record r"
  shows "(of_nat (length (snd r)) :: u16) \<noteq> 0"
proof
  assume "(of_nat (length (snd r)) :: u16) = 0"
  then have "unat (of_nat (length (snd r)) :: u16) = 0" by simp
  then show False using assms unat_record_size [OF assms] by (simp add: valid_record_def)
qed

lemma valid_entry_size:
  assumes "valid_entry e"
  shows "unat (fst (fst e)) < 4" "length (snd e) < 512"
    "unat (of_nat (length (snd e)) :: u16) = length (snd e)" "(of_nat (length (snd e)) :: u16) \<noteq> 0"
  using assms unat_record_size [of "(fst (fst e), snd e)"] valid_record_size_nonzero [of "(fst (fst e), snd e)"]
  by (simp_all add: valid_entry_def valid_record_def)

lemma stored_simps [simp]: "fst (stored r) = (fst r, 0)" "snd (stored r) = snd r"
  by (simp_all add: stored_def)

lemma valid_stored [simp]: "valid_entry (stored r) = valid_record r"
  by (simp add: valid_entry_def)

lemma wf_fs_files:
  assumes "wf_header (fs_header fs)" "unat f < 4"
  shows "versions fs ! unat f = file_version (header_files (fs_header fs) ! unat f)"
    "length (versions fs) = 4"
  using assms by (simp_all add: versions_def wf_header_def)

text \<open>An entry is good as long as it is live; after that the checksum, which the version seeds, shows
  that it is stale.\<close>

lemma age_zero: "n < 2 ^ 16 \<Longrightarrow> (v :: u16) - of_nat n = v \<longleftrightarrow> n = 0"
  by (auto simp: word_unat_eq_iff [of "of_nat n"] unat_of_nat)

lemma check_record:
  assumes "wf_header (fs_header fs)" "valid_entry r"
  shows "fkfs_block_check fs (record_image (versions fs) r @ xs) =
    Some (if snd (fst r) = 0 then FKFS_OFFSET_SEARCH_STATUS_GOOD else FKFS_OFFSET_SEARCH_STATUS_CRC)"
proof -
  let ?e = "record_entry (versions fs) r" and ?v = "versions fs ! unat (fst (fst r))"
  note v = valid_entry_size [OF assms(2)]
  have crc: "fkfs_block_crc (header_files (fs_header fs) ! unat (fst (fst r))) ?e (snd r @ xs) =
      Some (crc16_update (crc16_update ?v (take 5 (entry_bytes ?e))) (snd r))"
    using wf_fs_files [OF assms(1) v(1)] v(3) by (simp add: fkfs_block_crc_def mem_read_def)
  have "entry_crc ?e = crc16_update (crc16_update (?v - of_nat (snd (fst r))) (take 5 (entry_bytes ?e))) (snd r)"
    by (simp add: record_entry_def Let_def)
  moreover have "?v - of_nat (snd (fst r)) = ?v \<longleftrightarrow> snd (fst r) = 0"
    using assms(2) by (intro age_zero) (simp add: valid_entry_def)
  ultimately have "entry_crc ?e = crc16_update (crc16_update ?v (take 5 (entry_bytes ?e))) (snd r)
      \<longleftrightarrow> snd (fst r) = 0"
    using crc16_seed_inj by metis
  moreover have "entry_of_bytes (entry_bytes ?e) = ?e" using entry_roundtrip [of _ "[]"] by simp
  ultimately show ?thesis
    using v crc by (simp add: fkfs_block_check_def mem_read_def record_image_def del: entry_prefix)
qed

text \<open>Erased bytes are a size error, the sign of the end of a chain.\<close>

lemma u16_at_same: "u16_at bs i = (ucast b OR push_bit 8 (ucast b))"
  if "bs ! i = b" "bs ! (i + 1) = b" for b :: u8
  using that by (simp add: u16_at_def)

lemma check_erased_prefix:
  assumes "erased (take 7 bs)" "7 \<le> length bs"
  shows "fkfs_block_check fs bs = Some FKFS_OFFSET_SEARCH_STATUS_SIZE"
proof -
  have len: "length (take 7 bs) = 7" using assms(2) by simp
  from assms(1) consider "list_all (\<lambda>b. b = 0) (take 7 bs)" | "list_all (\<lambda>b. b = 0xFF) (take 7 bs)"
    by (auto simp: erased_def)
  then show ?thesis
  proof cases
    case 1
    then have "take 7 bs ! i = 0" if "i < 7" for i
      using that len by (simp add: list_all_length)
    then have "entry_file (entry_of_bytes (take 7 bs)) = 0" "entry_size (entry_of_bytes (take 7 bs)) = 0"
      by (simp_all add: entry_of_bytes_def u16_at_def)
    then show ?thesis using assms(2) by (simp add: fkfs_block_check_def mem_read_def)
  next
    case 2
    then have "take 7 bs ! i = 0xFF" if "i < 7" for i
      using that len by (simp add: list_all_length)
    then have "entry_file (entry_of_bytes (take 7 bs)) = 0xFF"
      by (simp add: entry_of_bytes_def)
    then show ?thesis using assms(2) by (simp add: fkfs_block_check_def mem_read_def)
  qed
qed

lemma erased_take [intro]: "erased bs \<Longrightarrow> erased (take n bs)"
  by (auto simp: erased_def list_all_iff dest: in_set_takeD)

lemma check_erased:
  "erased bs \<Longrightarrow> 7 \<le> length bs \<Longrightarrow> fkfs_block_check fs bs = Some FKFS_OFFSET_SEARCH_STATUS_SIZE"
  by (intro check_erased_prefix erased_take)

text \<open>The entry under a pointer at the \<open>j\<close>-th position of a chain.\<close>

lemma check_chain:
  assumes "wf_header (fs_header fs)" "block_holds (versions fs) rs blk" "j < length rs"
  shows "fkfs_block_check fs (drop (chain_length (take j rs)) blk) = Some (if snd (fst (rs ! j)) = 0
      then FKFS_OFFSET_SEARCH_STATUS_GOOD else FKFS_OFFSET_SEARCH_STATUS_CRC)"
    and "entry_of_bytes (take 7 (drop (chain_length (take j rs)) blk)) = record_entry (versions fs) (rs ! j)"
    and "take (length (snd (rs ! j))) (drop (chain_length (take j rs) + 7) blk) = snd (rs ! j)"
proof -
  let ?r = "rs ! j" and ?tl = "chain_image (versions fs) (drop (Suc j) rs) @ drop (chain_length rs) blk"
  have d: "drop (chain_length (take j rs)) blk = record_image (versions fs) ?r @ ?tl"
    using block_holds_drop [OF assms(2), of j] assms(3) by (simp add: Cons_nth_drop_Suc [symmetric])
  have "list_all valid_entry rs" using assms(2) by (simp add: block_holds_def)
  then have "valid_entry ?r" using assms(3) by (simp add: list_all_length)
  then show "fkfs_block_check fs (drop (chain_length (take j rs)) blk) = Some (if snd (fst ?r) = 0
      then FKFS_OFFSET_SEARCH_STATUS_GOOD else FKFS_OFFSET_SEARCH_STATUS_CRC)"
    unfolding d by (rule check_record [OF assms(1)])
  show "entry_of_bytes (take 7 (drop (chain_length (take j rs)) blk)) = record_entry (versions fs) (rs ! j)"
    unfolding d using entry_roundtrip [of "record_entry (versions fs) ?r" "[]"]
    by (simp add: record_image_def)
  have "drop (chain_length (take j rs) + 7) blk = drop 7 (drop (chain_length (take j rs)) blk)"
    by (simp add: add.commute)
  then show "take (length (snd (rs ! j))) (drop (chain_length (take j rs) + 7) blk) = snd (rs ! j)"
    unfolding d by (simp add: record_image_def)
qed

lemma check_chain_end:
  assumes "block_holds vers rs blk" "chain_length rs \<le> 505"
  shows "fkfs_block_check fs (drop (chain_length rs) blk) = Some FKFS_OFFSET_SEARCH_STATUS_SIZE"
  using assms by (intro check_erased) (auto simp: block_holds_def)

text \<open>The search for a place stops at once at the end of a chain.\<close>

lemma available_at_chain_end:
  assumes "block_holds vers rs blk" "unat offset = chain_length rs" "chain_length rs \<le> 505"
  shows "fkfs_block_available_offset fs priority required blk offset =
    Some (True, \<lparr> search_offset = offset, search_status = FKFS_OFFSET_SEARCH_STATUS_SIZE \<rparr>)"
proof -
  have "take 512 blk = blk" using assms(1) by (simp add: block_holds_def)
  then show ?thesis
    using check_chain_end [OF assms(1,3), of fs] assms(2)
    by (subst fkfs_block_available_offset.simps) simp
qed

text \<open>Writing an entry and its data at the end of a chain extends the chain.\<close>

lemma block_holds_extend:
  assumes "block_holds vers rs blk" "valid_entry r" "chain_length rs + 7 + length (snd r) \<le> 512"
  shows "\<exists>blk1 blk2. mem_write blk (chain_length rs) (entry_bytes (record_entry vers r)) = Some blk1
    \<and> mem_write blk1 (chain_length rs + 7) (snd r) = Some blk2
    \<and> block_holds vers (rs @ [r]) blk2"
proof -
  let ?n = "chain_length rs" and ?e = "entry_bytes (record_entry vers r)"
  have len: "length blk = 512" and tk: "take ?n blk = chain_image vers rs"
    and er: "erased (drop ?n blk)" and va: "list_all valid_entry rs"
    using assms(1) by (simp_all add: block_holds_def)
  define blk1 where "blk1 = take ?n blk @ ?e @ drop (?n + 7) blk"
  define blk2 where "blk2 = take ?n blk @ ?e @ snd r @ drop (?n + 7 + length (snd r)) blk"
  have w1: "mem_write blk ?n ?e = Some blk1"
    using len assms(3) by (simp add: mem_write_def blk1_def)
  have w2: "mem_write blk1 (?n + 7) (snd r) = Some blk2"
    using len assms(3) by (simp add: mem_write_def blk1_def blk2_def min_def add.commute)
  have "drop (?n + 7 + length (snd r)) blk = drop (7 + length (snd r)) (drop ?n blk)"
    by (simp add: add.commute add.left_commute)
  then have "erased (drop (?n + 7 + length (snd r)) blk)" using erased_drop [OF er] by simp
  then have "block_holds vers (rs @ [r]) blk2"
    using len assms(2,3) tk va
    by (simp add: block_holds_def blk2_def record_image_def min_def)
  with w1 w2 show ?thesis by blast
qed

section \<open>Truncation\<close>

text \<open>A truncation of \<open>f\<close> makes every entry of \<open>f\<close> one older. No byte changes: the version the entry
  was sealed with is one further behind.\<close>

definition age_entry :: "u8 \<Rightarrow> log_entry \<Rightarrow> log_entry" where
  "age_entry f e = (if fst (fst e) = f then ((f, Suc (snd (fst e))), snd e) else e)"

definition bump :: "u8 \<Rightarrow> u16 list \<Rightarrow> u16 list" where
  "bump f vers = vers[unat f := vers ! unat f + 1]"

lemma snd_age_entry [simp]: "snd (age_entry f e) = snd e"
  by (simp add: age_entry_def)

lemma chain_length_age [simp]: "chain_length (map (age_entry f) es) = chain_length es"
  by (simp add: chain_length_def comp_def)

lemma record_image_age:
  assumes "unat f < length vers" "unat (fst (fst e)) < length vers"
  shows "record_image (bump f vers) (age_entry f e) = record_image vers e"
proof -
  have "bump f vers ! unat (fst (fst e)) = (if fst (fst e) = f then vers ! unat f + 1 else vers ! unat (fst (fst e)))"
    using assms by (auto simp: bump_def nth_list_update dest: unsigned_word_eqI)
  then have "record_entry (bump f vers) (age_entry f e) = record_entry vers e"
    by (auto simp: record_entry_def age_entry_def Let_def)
  then show ?thesis by (simp add: record_image_def)
qed

lemma block_holds_age:
  assumes "block_holds vers es blk" "unat f < length vers" "length vers = 4"
    and "list_all (\<lambda>e. fst (fst e) = f \<longrightarrow> Suc (snd (fst e)) < 2 ^ 16) es"
  shows "block_holds (bump f vers) (map (age_entry f) es) blk"
proof -
  have v: "list_all valid_entry es" using assms(1) by (simp add: block_holds_def)
  have "map (record_image (bump f vers)) (map (age_entry f) es) = map (record_image vers) es"
    using v assms(2,3) valid_entry_size(1) by (auto simp: list_all_iff intro!: record_image_age)
  then have "chain_image (bump f vers) (map (age_entry f) es) = chain_image vers es"
    by (simp only: chain_image_def)
  moreover have "list_all valid_entry (map (age_entry f) es)"
    using v assms(4) by (auto simp: list_all_iff valid_entry_def age_entry_def)
  ultimately show ?thesis using assms(1) by (simp add: block_holds_def)
qed

end
