(* ===== verification/Fkfs_Refine.thy ===== *)
theory Fkfs_Refine
  imports Fkfs_Layout Fkfs_Persist
begin

text \<open>
  The file system as an append-only log. The abstract state is a list of blocks, each a list of
  entries; \<open>place\<close> is the abstract append and \<open>ends\<close> the places an iteration stops at. The relation
  \<open>represents\<close> says that the object, its cached block and the card hold such a list, on a card
  whose log area was erased. Appending refines \<open>place\<close> and iterating enumerates \<open>ends\<close>.
\<close>

section \<open>The abstract log\<close>

definition fits :: "('a \<times> bytes) list \<Rightarrow> 'b \<times> bytes \<Rightarrow> bool" where
  "fits rs r \<longleftrightarrow> chain_length rs + 7 + length (snd r) \<le> SD_RAW_BLOCK_SIZE"

definition extend_last :: "log_entry list list \<Rightarrow> log_entry \<Rightarrow> log_entry list list" where
  "extend_last blocks r = butlast blocks @ [last blocks @ [r]]"

definition make_room :: "log_entry list list \<Rightarrow> log_record \<Rightarrow> log_entry list list" where
  "make_room blocks r = (if fits (last blocks) r then blocks else blocks @ [[]])"

definition place :: "log_entry list list \<Rightarrow> log_record \<Rightarrow> log_entry list list" where
  "place blocks r = extend_last (make_room blocks r) (stored r)"

text \<open>The positions behind the live entries of a file: block and number of entries.\<close>

definition ends :: "u8 \<Rightarrow> log_entry list list \<Rightarrow> (nat \<times> nat) list" where
  "ends f blocks = concat (map (\<lambda>i. map (\<lambda>j. (i, Suc j))
     (filter (\<lambda>j. fst (blocks ! i ! j) = (f, 0)) [0..<length (blocks ! i)])) [0..<length blocks])"

text \<open>A file starts in block \<open>k\<close>, where it was created or last truncated: none of its live entries is
  in an earlier block.\<close>

definition starts_at :: "nat \<Rightarrow> u8 \<Rightarrow> log_entry list list \<Rightarrow> bool" where
  "starts_at k f blocks \<longleftrightarrow> k < length blocks \<and> list_all (\<lambda>p. k \<le> fst p) (ends f blocks)"

definition file_end :: "nat \<Rightarrow> u8 \<Rightarrow> log_entry list list \<Rightarrow> nat \<times> nat" where
  "file_end k f blocks = (if ends f blocks = [] then (k, 0) else last (ends f blocks))"

definition file_records :: "u8 \<Rightarrow> log_entry list list \<Rightarrow> bytes list" where
  "file_records f blocks = map snd (filter (\<lambda>e. fst e = (f, 0)) (concat blocks))"

lemma concat_place: "blocks \<noteq> [] \<Longrightarrow> concat (place blocks r) = concat blocks @ [stored r]"
  by (cases blocks rule: rev_cases) (simp_all add: place_def make_room_def extend_last_def butlast_append)

lemma file_records_place:
  "blocks \<noteq> [] \<Longrightarrow> file_records f (place blocks r) =
     file_records f blocks @ (if fst r = f then [snd r] else [])"
  by (simp add: file_records_def concat_place)

lemma ends_snoc:
  "ends f (blocks @ [rs]) = ends f blocks
     @ map (\<lambda>j. (length blocks, Suc j)) (filter (\<lambda>j. fst (rs ! j) = (f, 0)) [0..<length rs])"
proof -
  have "concat (map (\<lambda>i. map (\<lambda>j. (i, Suc j)) (filter (\<lambda>j. fst ((blocks @ [rs]) ! i ! j) = (f, 0))
          [0..<length ((blocks @ [rs]) ! i)])) [0..<length blocks]) = ends f blocks"
    unfolding ends_def by (intro arg_cong [where f = concat] map_cong refl) (simp add: nth_append)
  then show ?thesis by (simp add: ends_def [of f "blocks @ [rs]"])
qed

lemma filter_snoc_nth:
  "filter (\<lambda>j. fst ((rs @ [r]) ! j) = (f, 0)) [0..<length rs] = filter (\<lambda>j. fst (rs ! j) = (f, 0)) [0..<length rs]"
  by (rule filter_cong [OF refl]) (simp add: nth_append)

lemma ends_extend:
  assumes "blocks \<noteq> []"
  shows "ends f (extend_last blocks r) = ends f blocks
    @ (if fst r = (f, 0) then [(length blocks - 1, Suc (length (last blocks)))] else [])"
proof (cases blocks rule: rev_cases)
  case Nil
  with assms show ?thesis by simp
next
  case (snoc bs rs)
  then show ?thesis by (simp add: extend_last_def ends_snoc filter_snoc_nth)
qed

lemma ends_empty_block [simp]: "ends f (blocks @ [[]]) = ends f blocks"
  by (simp add: ends_snoc)

lemma ends_in_range:
  "(i, j) \<in> set (ends f blocks) \<longleftrightarrow>
     i < length blocks \<and> 0 < j \<and> j \<le> length (blocks ! i) \<and> fst (blocks ! i ! (j - 1)) = (f, 0)"
proof
  assume "(i, j) \<in> set (ends f blocks)"
  then show "i < length blocks \<and> 0 < j \<and> j \<le> length (blocks ! i) \<and> fst (blocks ! i ! (j - 1)) = (f, 0)"
    by (auto simp: ends_def)
next
  assume *: "i < length blocks \<and> 0 < j \<and> j \<le> length (blocks ! i) \<and> fst (blocks ! i ! (j - 1)) = (f, 0)"
  then obtain k where "j = Suc k" by (cases j) auto
  with * show "(i, j) \<in> set (ends f blocks)"
    by (auto simp: ends_def intro!: bexI [of _ i])
qed

lemma file_end_in_range:
  assumes "starts_at k f blocks"
  shows "fst (file_end k f blocks) < length blocks"
    "snd (file_end k f blocks) \<le> length (blocks ! fst (file_end k f blocks))"
proof -
  have "fst (file_end k f blocks) < length blocks \<and>
      snd (file_end k f blocks) \<le> length (blocks ! fst (file_end k f blocks))"
  proof (cases "ends f blocks = []")
    case True
    with assms show ?thesis by (simp add: file_end_def starts_at_def)
  next
    case False
    then have "file_end k f blocks \<in> set (ends f blocks)" by (simp add: file_end_def)
    then show ?thesis
      using ends_in_range [of "fst (file_end k f blocks)" "snd (file_end k f blocks)"] by simp
  qed
  then show "fst (file_end k f blocks) < length blocks"
    "snd (file_end k f blocks) \<le> length (blocks ! fst (file_end k f blocks))" by simp_all
qed

section \<open>The relation\<close>

definition log_block :: "nat \<Rightarrow> u32" where
  "log_block i = FKFS_FIRST_BLOCK + of_nat i"

text \<open>The bytes of a block as the object sees them: the cached copy if there is one.\<close>

definition block_view :: "('d \<Rightarrow> u32 \<Rightarrow> bytes) \<Rightarrow> 'd fkfs_t \<Rightarrow> u32 \<Rightarrow> bytes" where
  "block_view contents fs b =
     (if fs_cachedBlockNumber fs = b then fs_buffer fs else contents (fs_sd fs) b)"

definition position_offset :: "log_entry list list \<Rightarrow> nat \<times> nat \<Rightarrow> u16" where
  "position_offset blocks p = of_nat (chain_length (take (snd p) (blocks ! fst p)))"

definition file_matches :: "log_entry list list \<Rightarrow> u8 \<Rightarrow> fkfs_file_t \<Rightarrow> bool" where
  "file_matches blocks f file \<longleftrightarrow>
     (\<exists>k. starts_at k f blocks \<and> file_startBlock file = log_block k \<and> file_startOffset file = 0
        \<and> file_endBlock file = log_block (fst (file_end k f blocks))
        \<and> file_endOffset file = position_offset blocks (file_end k f blocks))
     \<and> file_size file = of_nat (sum_list (map length (file_records f blocks)))"

definition log_area ::
  "(u32 \<Rightarrow> bool) \<Rightarrow> ('d \<Rightarrow> u32 \<Rightarrow> bool) \<Rightarrow> nat \<Rightarrow> 'd fkfs_t \<Rightarrow> bool" where
  "log_area addressable readable limit fs \<longleftrightarrow>
     (\<forall>i<limit. addressable (log_block i) \<and> readable (fs_sd fs) (log_block i))
     \<and> 8000 + limit < 2 ^ 32 - 1 \<and> 8000 + limit \<le> unat (fs_numberOfBlocks fs - 2)"

definition cache_ok :: "('d \<Rightarrow> u32 \<Rightarrow> bytes) \<Rightarrow> nat \<Rightarrow> 'd fkfs_t \<Rightarrow> bool" where
  "cache_ok contents limit fs \<longleftrightarrow>
     (if fs_cachedBlockDirty fs then fs_cachedBlockNumber fs = header_block (fs_header fs)
      else \<forall>i<limit. fs_cachedBlockNumber fs = log_block i \<longrightarrow>
             fs_buffer fs = contents (fs_sd fs) (log_block i))"

definition log_holds ::
  "('d \<Rightarrow> u32 \<Rightarrow> bytes) \<Rightarrow> nat \<Rightarrow> 'd fkfs_t \<Rightarrow> log_entry list list \<Rightarrow> bool" where
  "log_holds contents limit fs blocks \<longleftrightarrow>
     (\<forall>i<limit. block_holds (versions fs) (if i < length blocks then blocks ! i else [])
        (block_view contents fs (log_block i)))"

definition represents ::
  "('d \<Rightarrow> bool) \<Rightarrow> (u32 \<Rightarrow> bool) \<Rightarrow> ('d \<Rightarrow> u32 \<Rightarrow> bool) \<Rightarrow> ('d \<Rightarrow> u32 \<Rightarrow> bytes) \<Rightarrow> nat
     \<Rightarrow> 'd fkfs_t \<Rightarrow> log_entry list list \<Rightarrow> bool" where
  "represents invar addressable readable contents limit fs blocks \<longleftrightarrow>
     invar (fs_sd fs) \<and> wf_fs fs \<and> addressable 0 \<and> readable (fs_sd fs) 0
     \<and> log_area addressable readable limit fs \<and> cache_ok contents limit fs
     \<and> blocks \<noteq> [] \<and> length blocks \<le> limit
     \<and> header_block (fs_header fs) = log_block (length blocks - 1)
     \<and> unat (header_offset (fs_header fs)) = chain_length (last blocks)
     \<and> log_holds contents limit fs blocks
     \<and> (\<forall>f. unat f < 4 \<longrightarrow> file_matches blocks f (header_files (fs_header fs) ! unat f))"

lemma unat_log_block: "8000 + i < 2 ^ 32 \<Longrightarrow> unat (log_block i) = 8000 + i"
  by (simp add: log_block_def unat_word_ariths unat_of_nat)

lemma log_block_inj:
  "log_block i = log_block j \<longleftrightarrow> i = j" if "8000 + i < 2 ^ 32" "8000 + j < 2 ^ 32"
  using unat_log_block [OF that(1)] unat_log_block [OF that(2)] by (metis add_left_cancel)

lemma log_block_neq:
  assumes "8000 + i < 2 ^ 32 - 1"
  shows "log_block i \<noteq> 0" "log_block i \<noteq> UINT32_MAX"
proof -
  have "unat (log_block i) = 8000 + i" using assms by (intro unat_log_block) simp
  then show "log_block i \<noteq> 0" "log_block i \<noteq> UINT32_MAX" using assms by auto
qed

lemma log_area_block:
  assumes "log_area addressable readable limit fs" "i < limit"
  shows "addressable (log_block i)" "readable (fs_sd fs) (log_block i)"
    "unat (log_block i) = 8000 + i" "log_block i \<noteq> 0" "log_block i \<noteq> UINT32_MAX"
    "log_block i \<noteq> fs_numberOfBlocks fs - 2" "8000 + i < 2 ^ 32 - 1"
proof -
  have lim: "8000 + limit < 2 ^ 32 - 1" "8000 + limit \<le> unat (fs_numberOfBlocks fs - 2)"
    using assms(1) by (simp_all add: log_area_def)
  show "8000 + i < 2 ^ 32 - 1" using lim(1) assms(2) by simp
  then show u: "unat (log_block i) = 8000 + i" by (intro unat_log_block) simp
  show "log_block i \<noteq> 0" "log_block i \<noteq> UINT32_MAX"
    using \<open>8000 + i < 2 ^ 32 - 1\<close> by (rule log_block_neq)+
  have "unat (log_block i) \<noteq> unat (fs_numberOfBlocks fs - 2)" using u lim(2) assms(2) by linarith
  then show "log_block i \<noteq> fs_numberOfBlocks fs - 2" by metis
qed (use assms in \<open>simp_all add: log_area_def\<close>)


text \<open>The relation depends on the blocks of the log area and the fields it names: it survives a
  change of the device state that keeps the contents of the card.\<close>

lemma log_view:
  assumes "cache_ok contents limit fs" "\<not> fs_cachedBlockDirty fs" "i < limit"
  shows "block_view contents fs (log_block i) = contents (fs_sd fs) (log_block i)"
  using assms by (simp add: cache_ok_def block_view_def)

lemma represents_device:
  assumes "represents invar addressable readable contents limit fs blocks"
    and "invar sd" "contents sd = contents (fs_sd fs)" "readable sd = readable (fs_sd fs)"
  shows "represents invar addressable readable contents limit
    (fs\<lparr>fs_sd := sd, fs_statistics := st\<rparr>) blocks"
proof -
  let ?fs' = "fs\<lparr>fs_sd := sd, fs_statistics := st\<rparr>"
  have "log_area addressable readable limit ?fs' = log_area addressable readable limit fs"
    "cache_ok contents limit ?fs' = cache_ok contents limit fs"
    by (simp_all add: log_area_def cache_ok_def assms(3,4))
  moreover have "log_holds contents limit ?fs' blocks = log_holds contents limit fs blocks"
    by (simp add: log_holds_def block_view_def versions_def assms(3))
  ultimately show ?thesis using assms by (simp add: represents_def wf_fs_def)
qed

lemma last_block_in_area: "blocks \<noteq> [] \<Longrightarrow> length blocks \<le> limit \<Longrightarrow> length blocks - 1 < limit"
  by (cases blocks) simp_all

lemma represents_parts:
  assumes "represents invar addressable readable contents limit fs blocks"
  shows "invar (fs_sd fs)" "wf_fs fs" "addressable 0" "readable (fs_sd fs) 0"
    "log_area addressable readable limit fs" "cache_ok contents limit fs" "blocks \<noteq> []"
    "length blocks \<le> limit" "header_block (fs_header fs) = log_block (length blocks - 1)"
    "unat (header_offset (fs_header fs)) = chain_length (last blocks)"
    "log_holds contents limit fs blocks" "wf_header (fs_header fs)" "length (fs_buffer fs) = 512"
    "length blocks - 1 < limit"
    "\<And>f. unat f < 4 \<Longrightarrow> file_matches blocks f (header_files (fs_header fs) ! unat f)"
  using assms last_block_in_area [of blocks limit] by (simp_all add: represents_def wf_fs_def)

text \<open>A step that changes none of the meta data.\<close>

definition same_meta :: "'d fkfs_t \<Rightarrow> 'd fkfs_t \<Rightarrow> bool" where
  "same_meta fs fs' \<longleftrightarrow> fs_header fs' = fs_header fs \<and> fs_files fs' = fs_files fs
     \<and> fs_numberOfBlocks fs' = fs_numberOfBlocks fs \<and> fs_headerIndex fs' = fs_headerIndex fs
     \<and> fs_cachedBlockDirty fs' = fs_cachedBlockDirty fs"

lemma same_meta_refl [simp]: "same_meta fs fs"
  by (simp add: same_meta_def)

lemma same_meta_trans: "same_meta a b \<Longrightarrow> same_meta b c \<Longrightarrow> same_meta a c"
  by (simp add: same_meta_def)

text \<open>The card can be mounted and would give a header of at most generation \<open>g\<close>; an object with
  nothing to write has its header on the card.\<close>

definition sealed_at :: "('d \<Rightarrow> u32 \<Rightarrow> bytes) \<Rightarrow> nat \<Rightarrow> 'd fkfs_t \<Rightarrow> bool" where
  "sealed_at contents g fs \<longleftrightarrow> mounted (contents (fs_sd fs) 0) fs
     \<and> unat (header_generation (fs_header fs)) \<le> g"

definition saved :: "('d \<Rightarrow> u32 \<Rightarrow> bytes) \<Rightarrow> 'd fkfs_t \<Rightarrow> bool" where
  "saved contents fs \<longleftrightarrow> fs_cachedBlockDirty fs
     \<or> header_at (contents (fs_sd fs) 0) (unat (fs_headerIndex fs)) = fs_header fs"

lemma sealed_at_mono: "sealed_at contents g fs \<Longrightarrow> g \<le> g' \<Longrightarrow> sealed_at contents g' fs"
  by (simp add: sealed_at_def)

lemma sealed_at_cong:
  assumes "fs_headerIndex fs' = fs_headerIndex fs" "contents (fs_sd fs') = contents (fs_sd fs)"
    and "header_generation (fs_header fs') = header_generation (fs_header fs)"
  shows "sealed_at contents g fs' = sealed_at contents g fs"
  using assms by (simp add: sealed_at_def mounted_def)

context reliable_device
begin

lemma represents_millis:
  assumes "represents invar addressable readable contents limit fs blocks"
  obtains t fs' where "fs_millis P fs = (t, fs')"
    "represents invar addressable readable contents limit fs' blocks" "same_meta fs fs'"
    "fs_buffer fs' = fs_buffer fs" "fs_cachedBlockNumber fs' = fs_cachedBlockNumber fs"
proof -
  obtain t d where m: "plat_millis P (fs_sd fs) = (t, d)" and d: "invar d"
    "contents d = contents (fs_sd fs)" "readable d = readable (fs_sd fs)"
    using millis_obtain [OF represents_parts(1) [OF assms]] by blast
  have "represents invar addressable readable contents limit (fs\<lparr>fs_sd := d\<rparr>) blocks"
    using represents_device [OF assms d, of "fs_statistics fs"] by simp
  then show thesis by (rule that [rotated]) (simp_all add: fs_millis_def m same_meta_def)
qed

lemma represents_ensure:
  assumes "represents invar addressable readable contents limit fs blocks" "i < limit"
    and "fs_cachedBlockDirty fs \<Longrightarrow> header_block (fs_header fs) = log_block i"
  obtains fs' where "fkfs_block_ensure P fs (log_block i) = Some (True, fs')"
    "represents invar addressable readable contents limit fs' blocks" "same_meta fs fs'"
    "fs_cachedBlockNumber fs' = log_block i" "contents (fs_sd fs') = contents (fs_sd fs)"
    "block_holds (versions fs) (if i < length blocks then blocks ! i else []) (fs_buffer fs')"
proof (cases "fs_cachedBlockNumber fs = log_block i")
  case True
  have "block_holds (versions fs) (if i < length blocks then blocks ! i else []) (fs_buffer fs)"
    using represents_parts(11) [OF assms(1)] assms(2) True by (auto simp: log_holds_def block_view_def)
  then show thesis
    using True by (intro that [OF _ assms(1)]) (simp_all add: fkfs_block_ensure_def)
next
  case False
  note p = represents_parts [OF assms(1)]
  have clean: "\<not> fs_cachedBlockDirty fs" using False assms(3) p(6) by (auto simp: cache_ok_def)
  note b = log_area_block [OF p(5) assms(2)]
  from fkfs_block_ensure_ok [OF p(1,13) b(1,2) False]
  obtain sd st where e: "fkfs_block_ensure P fs (log_block i) =
      Some (True, fs\<lparr>fs_buffer := contents (fs_sd fs) (log_block i),
        fs_cachedBlockNumber := log_block i, fs_cachedBlockDirty := False, fs_sd := sd,
        fs_statistics := st\<rparr>)" (is "_ = Some (True, ?fs')")
    and sd: "invar sd" "contents sd = contents (fs_sd fs)" "readable sd = readable (fs_sd fs)"
    by blast
  have view: "block_view contents ?fs' (log_block k) = block_view contents fs (log_block k)"
    if "k < limit" for k
    using log_view [OF p(6) clean that] sd by (simp add: block_view_def)
  have "length (contents (fs_sd fs) (log_block i)) = 512" using p(1) b(2) by (rule contents_length)
  then have "represents invar addressable readable contents limit ?fs' blocks"
    using assms(1) sd clean view
    by (simp add: represents_def wf_fs_def log_area_def log_holds_def versions_def cache_ok_def)
  moreover have "block_holds (versions fs) (if i < length blocks then blocks ! i else []) (fs_buffer ?fs')"
    using p(11) assms(2) log_view [OF p(6) clean assms(2)] by (auto simp: log_holds_def)
  ultimately show thesis using clean sd(2) by (intro that [OF e]) (simp_all add: same_meta_def)
qed

lemma represents_fsync:
  assumes "represents invar addressable readable contents limit fs blocks"
  obtains fs' where "fkfs_fsync P fs = Some (True, fs')"
    "represents invar addressable readable contents limit fs' blocks" "\<not> fs_cachedBlockDirty fs'"
    "fs_files fs' = fs_files fs" "header_files (fs_header fs') = header_files (fs_header fs)"
    "saved contents fs \<Longrightarrow> saved contents fs'"
    "\<And>g. sealed_at contents g fs \<Longrightarrow> Suc g < 2 ^ 32 \<Longrightarrow> sealed_at contents (Suc g) fs'"
proof (cases "fs_cachedBlockDirty fs")
  case False
  then show thesis
    by (intro that [OF _ assms]) (simp_all add: fkfs_fsync_def sealed_at_mono [of contents _ fs "Suc _"])
next
  case True
  note p = represents_parts [OF assms]
  let ?b = "log_block (length blocks - 1)"
  note b = log_area_block [OF p(5,14)]
  from fkfs_fsync_ok [OF p(1-4) True p(9) b(1,4)]
  obtain sd st where e: "fkfs_fsync P fs = Some (True, fs\<lparr>fs_cachedBlockNumber := UINT32_MAX,
       fs_cachedBlockDirty := False, fs_headerIndex := (fs_headerIndex fs + 1) mod 2,
       fs_header := seal_header ((fs_header fs)\<lparr>header_generation := header_generation (fs_header fs) + 1\<rparr>),
       fs_sd := sd, fs_statistics := st\<rparr>)" (is "_ = Some (True, ?fs')")
    and sd: "invar sd" "readable sd 0" "readable sd ?b" "contents sd ?b = fs_buffer fs"
      "\<And>c. readable (fs_sd fs) c \<Longrightarrow> c \<noteq> 0 \<Longrightarrow> c \<noteq> ?b \<Longrightarrow>
        contents sd c = contents (fs_sd fs) c \<and> readable sd c"
      "contents sd 0 = put_header (contents (fs_sd fs) 0) (unat ((fs_headerIndex fs + 1) mod 2))
        (seal_header ((fs_header fs)\<lparr>header_generation := header_generation (fs_header fs) + 1\<rparr>))"
    by blast
  have cached: "fs_cachedBlockNumber fs = ?b" using p(6,9) True by (simp add: cache_ok_def)
  have view: "block_view contents ?fs' (log_block k) = block_view contents fs (log_block k)"
    "readable sd (log_block k)" if "k < limit" for k
  proof -
    note k = log_area_block [OF p(5) that]
    show "readable sd (log_block k)"
      using sd(3) sd(5) [OF k(2,4)] by (cases "log_block k = ?b") simp_all
    show "block_view contents ?fs' (log_block k) = block_view contents fs (log_block k)"
      using sd(4) sd(5) [OF k(2,4)] k(5) [symmetric] cached
      by (cases "log_block k = ?b") (simp_all add: block_view_def)
  qed
  have "unat ((fs_headerIndex fs + 1) mod 2) < 2"
    using flip_index [of "fs_headerIndex fs"] p(2) by (auto simp: wf_fs_def)
  then have wf: "wf_fs ?fs'" using p(2) by (simp add: wf_fs_def)
  have area: "log_area addressable readable limit ?fs'" using p(5) view(2) by (simp add: log_area_def)
  have cache: "cache_ok contents limit ?fs'"
    using log_area_block(5) [OF p(5)] by (auto simp: cache_ok_def)
  have "represents invar addressable readable contents limit ?fs' blocks"
    using assms wf area cache sd(1,2) view(1)
    by (simp add: represents_def log_holds_def versions_def)
  moreover have len: "length (contents (fs_sd fs) 0) = 512" using p(1,4) by (rule contents_length)
  have "header_at (contents sd 0) (unat ((fs_headerIndex fs + 1) mod 2)) = fs_header ?fs'"
    using sd(6) wf header_at_put_same [OF len] by (simp add: wf_fs_def)
  then have "saved contents ?fs'" by (simp add: saved_def)
  moreover have "sealed_at contents (Suc g) ?fs'" if "sealed_at contents g fs" "Suc g < 2 ^ 32" for g
  proof -
    have m: "mounted (contents (fs_sd fs) 0) fs" and g: "unat (header_generation (fs_header fs)) \<le> g"
      using that(1) by (simp_all add: sealed_at_def)
    have "header_generation (fs_header fs) < UINT32_MAX" using g that(2) by (simp add: word_less_nat_alt)
    then have "mounted (contents (fs_sd ?fs') 0) ?fs'"
      using mounted_after_fsync [OF m len p(12), of ?fs'] sd(6) by simp
    moreover have "unat (header_generation (fs_header fs) + 1) \<le> Suc g"
      using g that(2) by (simp add: unat_word_ariths)
    ultimately show ?thesis by (simp add: sealed_at_def)
  qed
  ultimately show thesis by (intro that [OF e]) simp_all
qed

end

section \<open>Appending\<close>

lemma file_records_new_block [simp]: "file_records f (blocks @ [[]]) = file_records f blocks"
  by (simp add: file_records_def)

lemma file_end_new_block [simp]: "file_end k f (blocks @ [[]]) = file_end k f blocks"
  by (simp add: file_end_def)

lemma position_offset_new_block:
  "fst p < length blocks \<Longrightarrow> position_offset (blocks @ [rs]) p = position_offset blocks p"
  by (simp add: position_offset_def nth_append)

lemma file_matches_new_block:
  assumes "file_matches blocks f file"
  shows "file_matches (blocks @ [[]]) f file"
proof -
  obtain k where k: "starts_at k f blocks" "file_startBlock file = log_block k" "file_startOffset file = 0"
    "file_endBlock file = log_block (fst (file_end k f blocks))"
    "file_endOffset file = position_offset blocks (file_end k f blocks)"
    using assms by (auto simp: file_matches_def)
  then have "position_offset (blocks @ [[]]) (file_end k f blocks) = position_offset blocks (file_end k f blocks)"
    using file_end_in_range(1) by (intro position_offset_new_block)
  moreover have "starts_at k f (blocks @ [[]])" using k(1) by (simp add: starts_at_def)
  ultimately show ?thesis using k assms by (auto simp: file_matches_def)
qed

text \<open>Moving the head of the log to the next block adds an empty chain.\<close>

lemma represents_new_block:
  assumes "represents invar addressable readable contents limit fs blocks"
    and "\<not> fs_cachedBlockDirty fs" "length blocks < limit"
  shows "represents invar addressable readable contents limit
    (fs_header_map (\<lambda>h. h\<lparr> header_block := next_log_block (fs_numberOfBlocks fs) (header_block h),
       header_offset := 0 \<rparr>) fs) (blocks @ [[]])"
    (is "represents _ _ _ _ _ ?fs' _")
proof -
  note p = represents_parts [OF assms(1)]
  have "log_block (length blocks - 1) + 1 = log_block (length blocks)"
    using p(7) by (cases blocks) (simp_all add: log_block_def)
  then have next_block: "next_log_block (fs_numberOfBlocks fs) (log_block (length blocks - 1)) = log_block (length blocks)"
    using log_area_block(5,6) [OF p(5) assms(3)] by (simp add: next_log_block_def)
  have "(if i < Suc (length blocks) then (blocks @ [[]]) ! i else []) =
      (if i < length blocks then blocks ! i else [])" for i
    by (auto simp: nth_append less_Suc_eq)
  then have "log_holds contents limit ?fs' (blocks @ [[]]) = log_holds contents limit fs blocks"
    by (simp add: log_holds_def versions_def block_view_def fs_header_map_def)
  moreover have "cache_ok contents limit ?fs'"
    using p(6) assms(2) by (simp add: cache_ok_def fs_header_map_def)
  ultimately show ?thesis
    using assms next_block p(7) file_matches_new_block
    by (simp add: represents_def wf_fs_def log_area_def fs_header_map_def)
qed

lemma unat_required:
  "valid_record r \<Longrightarrow> unat (7 + of_nat (length (snd r)) :: u16) = 7 + length (snd r)"
  by (simp add: valid_record_def unat_word_ariths unat_of_nat)

lemma ucast_record_size:
  "valid_record r \<Longrightarrow> ucast (of_nat (length (snd r)) :: u16) = (of_nat (length (snd r)) :: u32)"
  by (simp add: valid_record_def unsigned_of_nat take_bit_nat_eq_self)

text \<open>\<^verbatim>\<open>if (!f()) return false; return true;\<close>\<close>

lemma bind_status [simp]:
  "Option.bind m (\<lambda>(ok, s). if \<not> ok then Some (False, s) else Some (True, s)) = m"
  by (cases m) auto

lemma fits_offset:
  assumes "fits rs r" "valid_record r"
  shows "chain_length rs \<le> 505"
  using assms by (simp add: fits_def valid_record_def)

lemma fits_empty: "valid_record r \<Longrightarrow> fits [] r"
  by (simp add: fits_def valid_record_def)

context reliable_device
begin

text \<open>The first part of the allocation makes room.\<close>

lemma represents_allocate_move:
  assumes "represents invar addressable readable contents limit fs blocks" "valid_record r"
    and "length (make_room blocks r) \<le> limit"
  obtains fs' visited where
    "allocate_move P fs (7 + of_nat (length (snd r))) (header_offset (fs_header fs)) 0 =
       Some (True, fs', header_offset (fs_header fs'), visited)"
    "represents invar addressable readable contents limit fs' (make_room blocks r)"
    "fs_files fs' = fs_files fs" "header_files (fs_header fs') = header_files (fs_header fs)"
    "\<And>g. sealed_at contents g fs \<Longrightarrow> Suc g < 2 ^ 32 \<Longrightarrow> sealed_at contents (Suc g) fs'"
proof (cases "fits (last blocks) r")
  case True
  then show thesis
    using represents_parts(10) [OF assms(1)] unat_required [OF assms(2)] assms(1)
    by (intro that [of fs 0])
      (simp_all add: allocate_move_def fits_def make_room_def sealed_at_mono [of contents _ fs "Suc _"])
next
  case False
  obtain fs1 where f: "fkfs_fsync P fs = Some (True, fs1)"
    and r: "represents invar addressable readable contents limit fs1 blocks"
      "\<not> fs_cachedBlockDirty fs1" "fs_files fs1 = fs_files fs"
      "header_files (fs_header fs1) = header_files (fs_header fs)"
    and seal: "\<And>g. sealed_at contents g fs \<Longrightarrow> Suc g < 2 ^ 32 \<Longrightarrow> sealed_at contents (Suc g) fs1"
    using represents_fsync [OF assms(1)] by metis
  let ?fs' = "fs_header_map (\<lambda>h. h\<lparr> header_block := next_log_block (fs_numberOfBlocks fs1)
    (header_block h), header_offset := 0 \<rparr>) fs1"
  have "allocate_move P fs (7 + of_nat (length (snd r))) (header_offset (fs_header fs)) 0 =
      Some (True, ?fs', header_offset (fs_header ?fs'), 1)"
    using False represents_parts(10) [OF assms(1)] unat_required [OF assms(2)] f
    by (simp add: allocate_move_def fits_def fs_header_map_def)
  moreover have "length blocks < limit" using assms(3) False by (simp add: make_room_def)
  then have "represents invar addressable readable contents limit ?fs' (make_room blocks r)"
    using represents_new_block [OF r(1,2)] False by (simp add: make_room_def)
  moreover have "sealed_at contents g ?fs' = sealed_at contents g fs1" for g
    by (rule sealed_at_cong) (simp_all add: fs_header_map_def)
  ultimately show thesis
    using r(3,4) seal by (intro that [of ?fs' 1]) (simp_all add: fs_header_map_def)
qed

lemma last_room: "fits (last (make_room blocks r)) r" if "valid_record r"
  using that by (simp add: make_room_def fits_empty)

lemma represents_allocate:
  assumes "represents invar addressable readable contents limit fs blocks" "valid_record r"
    and "length (make_room blocks r) \<le> limit"
  obtains fs' where
    "fkfs_file_allocate_block P fs f (7 + of_nat (length (snd r))) = Some (True, fs')"
    "represents invar addressable readable contents limit fs' (make_room blocks r)"
    "fs_cachedBlockNumber fs' = header_block (fs_header fs')"
    "block_holds (versions fs') (last (make_room blocks r)) (fs_buffer fs')"
    "fs_files fs' = fs_files fs" "header_files (fs_header fs') = header_files (fs_header fs)"
    "\<And>g. sealed_at contents g fs \<Longrightarrow> Suc g < 2 ^ 32 \<Longrightarrow> sealed_at contents (Suc g) fs'"
proof -
  let ?bs = "make_room blocks r" and ?req = "7 + of_nat (length (snd r)) :: u16"
  obtain fs1 visited where m: "allocate_move P fs ?req (header_offset (fs_header fs)) 0 =
       Some (True, fs1, header_offset (fs_header fs1), visited)"
    and r1: "represents invar addressable readable contents limit fs1 ?bs"
    and files1: "fs_files fs1 = fs_files fs" "header_files (fs_header fs1) = header_files (fs_header fs)"
    and seal: "\<And>g. sealed_at contents g fs \<Longrightarrow> Suc g < 2 ^ 32 \<Longrightarrow> sealed_at contents (Suc g) fs1"
    using represents_allocate_move [OF assms] by metis
  note p = represents_parts [OF r1]
  obtain fs2 where e: "fkfs_block_ensure P fs1 (log_block (length ?bs - 1)) = Some (True, fs2)"
    and r2: "represents invar addressable readable contents limit fs2 ?bs"
    and meta: "same_meta fs1 fs2" "contents (fs_sd fs2) = contents (fs_sd fs1)"
    and cached: "fs_cachedBlockNumber fs2 = log_block (length ?bs - 1)"
    and holds: "block_holds (versions fs1) (if length ?bs - 1 < length ?bs then ?bs ! (length ?bs - 1) else [])
      (fs_buffer fs2)"
    using represents_ensure [OF r1 p(14)] p(9) by metis
  have h: "block_holds (versions fs1) (last ?bs) (fs_buffer fs2)"
    using holds p(7) by (simp add: last_conv_nth)
  have off: "header_offset (fs_header fs2) = header_offset (fs_header fs1)"
    and vers: "versions fs2 = versions fs1"
    and files2: "fs_files fs2 = fs_files fs1" "header_files (fs_header fs2) = header_files (fs_header fs1)"
    and hb: "header_block (fs_header fs2) = log_block (length ?bs - 1)"
    using meta(1) p(9) by (simp_all add: same_meta_def versions_def)
  have "sealed_at contents g fs2 = sealed_at contents g fs1" for g
    using meta by (intro sealed_at_cong) (simp_all add: same_meta_def)
  then have seal2: "\<And>g. sealed_at contents g fs \<Longrightarrow> Suc g < 2 ^ 32 \<Longrightarrow> sealed_at contents (Suc g) fs2"
    using seal by simp
  have "fkfs_block_available_offset fs2 (settings_priority (fs_files fs2 ! unat f)) ?req (fs_buffer fs2)
      (header_offset (fs_header fs1)) = Some (True, \<lparr> search_offset = header_offset (fs_header fs1),
        search_status = FKFS_OFFSET_SEARCH_STATUS_SIZE \<rparr>)"
    using p(10) fits_offset [OF last_room [OF assms(2)] assms(2)] by (intro available_at_chain_end [OF h])
  then have "fkfs_file_allocate_block P fs f ?req =
      Some (True, fs_header_map (\<lambda>h. h\<lparr>header_offset := header_offset (fs_header fs1)\<rparr>) fs2)"
    unfolding fkfs_file_allocate_block_def using m e p(9)
    by (subst allocate_loop.simps) simp
  also have "fs_header_map (\<lambda>h. h\<lparr>header_offset := header_offset (fs_header fs1)\<rparr>) fs2 = fs2"
    by (simp add: fs_header_map_def off [symmetric])
  finally show thesis
    using r2 cached hb h vers files1 files2 seal2 by (intro that [of fs2]) simp_all
qed

end


text \<open>Writing the entry into the cached block: the part of the append after the allocation.\<close>

lemma extend_nth:
  assumes "blocks \<noteq> []" "i < length blocks"
  shows "extend_last blocks r ! i = (if i = length blocks - 1 then last blocks @ [r] else blocks ! i)"
  using assms by (auto simp: extend_last_def nth_append nth_butlast)

lemma length_extend [simp]: "blocks \<noteq> [] \<Longrightarrow> length (extend_last blocks r) = length blocks"
  by (simp add: extend_last_def)

lemma last_extend [simp]: "last (extend_last blocks r) = last blocks @ [r]"
  by (simp add: extend_last_def)

lemma extend_nonempty [simp]: "extend_last blocks r \<noteq> []"
  by (simp add: extend_last_def)

lemma position_offset_extend:
  assumes "blocks \<noteq> []" "fst p < length blocks" "snd p \<le> length (blocks ! fst p)"
  shows "position_offset (extend_last blocks r) p = position_offset blocks p"
  using assms by (auto simp: position_offset_def extend_nth last_conv_nth)

lemma file_end_extend:
  "blocks \<noteq> [] \<Longrightarrow> file_end k f (extend_last blocks r) =
     (if fst r = (f, 0) then (length blocks - 1, Suc (length (last blocks))) else file_end k f blocks)"
  by (simp add: file_end_def ends_extend)

lemma starts_at_extend: "starts_at k f (extend_last blocks r)" if "starts_at k f blocks"
proof -
  have "blocks \<noteq> []" using that by (auto simp: starts_at_def)
  then show ?thesis using that by (auto simp: starts_at_def ends_extend)
qed

lemma file_records_extend:
  "blocks \<noteq> [] \<Longrightarrow> file_records f (extend_last blocks r) =
     file_records f blocks @ (if fst r = (f, 0) then [snd r] else [])"
  by (cases blocks rule: rev_cases) (simp_all add: file_records_def extend_last_def)

lemma file_matches_other:
  assumes "blocks \<noteq> []" "fst r \<noteq> (f, 0)" "file_matches blocks f file"
  shows "file_matches (extend_last blocks r) f file"
proof -
  obtain k where k: "starts_at k f blocks" "file_startBlock file = log_block k" "file_startOffset file = 0"
    "file_endBlock file = log_block (fst (file_end k f blocks))"
    "file_endOffset file = position_offset blocks (file_end k f blocks)"
    using assms(3) by (auto simp: file_matches_def)
  have "position_offset (extend_last blocks r) (file_end k f blocks) = position_offset blocks (file_end k f blocks)"
    using file_end_in_range [OF k(1)] by (rule position_offset_extend [OF assms(1)])
  then show ?thesis
    using assms k starts_at_extend [OF k(1), of r] by (auto simp: file_matches_def file_end_extend file_records_extend)
qed

lemma file_matches_same:
  assumes "blocks \<noteq> []" "file_matches blocks (fst r) file"
  shows "file_matches (extend_last blocks (stored r)) (fst r) (file\<lparr> file_endBlock := log_block (length blocks - 1),
    file_endOffset := of_nat (chain_length (last blocks @ [stored r])),
    file_size := file_size file + of_nat (length (snd r)) \<rparr>)"
proof -
  obtain k where "starts_at k (fst r) blocks" "file_startBlock file = log_block k" "file_startOffset file = 0"
    using assms(2) by (auto simp: file_matches_def)
  with assms starts_at_extend [of k "fst r" blocks "stored r"] show ?thesis
    by (auto simp: file_matches_def file_end_extend file_records_extend position_offset_def extend_nth)
qed

text \<open>The object with the record written into its cached block and into its header.\<close>

definition put_record :: "'d fkfs_t \<Rightarrow> log_record \<Rightarrow> bytes \<Rightarrow> 'd fkfs_t" where
  "put_record fs r buffer =
     (let h = (fs_header fs)\<lparr>header_offset := header_offset (fs_header fs) + (7 + of_nat (length (snd r)))\<rparr>
      in fs\<lparr> fs_buffer := buffer, fs_cachedBlockDirty := True,
             fs_header := h\<lparr>header_files := (header_files h)[unat (fst r) :=
               (header_files h ! unat (fst r))
                 \<lparr> file_endBlock := header_block h, file_endOffset := header_offset h,
                   file_size := file_size (header_files h ! unat (fst r)) + of_nat (length (snd r)) \<rparr>]\<rparr> \<rparr>)"

lemma put_record_fields [simp]:
  "fs_sd (put_record fs r b) = fs_sd fs" "fs_buffer (put_record fs r b) = b"
  "fs_cachedBlockNumber (put_record fs r b) = fs_cachedBlockNumber fs"
  "fs_cachedBlockDirty (put_record fs r b)" "fs_files (put_record fs r b) = fs_files fs"
  "fs_headerIndex (put_record fs r b) = fs_headerIndex fs"
  "fs_numberOfBlocks (put_record fs r b) = fs_numberOfBlocks fs"
  "header_block (fs_header (put_record fs r b)) = header_block (fs_header fs)"
  "header_offset (fs_header (put_record fs r b)) =
     header_offset (fs_header fs) + (7 + of_nat (length (snd r)))"
  "header_files (fs_header (put_record fs r b)) = (header_files (fs_header fs))[unat (fst r) :=
     (header_files (fs_header fs) ! unat (fst r))
       \<lparr> file_endBlock := header_block (fs_header fs),
         file_endOffset := header_offset (fs_header fs) + (7 + of_nat (length (snd r))),
         file_size := file_size (header_files (fs_header fs) ! unat (fst r)) + of_nat (length (snd r)) \<rparr>]"
  by (simp_all add: put_record_def Let_def)

lemma map_update_same:
  assumes "g x = g (xs ! k)"
  shows "map g (xs[k := x]) = map g xs"
proof (cases "k < length xs")
  case True
  then have "(map g xs)[k := g (xs ! k)] = map g xs" by (metis list_update_id nth_map)
  then show ?thesis using assms by (simp add: map_update)
next
  case False
  then show ?thesis by (simp add: list_update_beyond)
qed

lemma versions_put_record [simp]: "versions (put_record fs r b) = versions fs"
  by (simp add: versions_def map_update_same)

lemma wf_header_put_record:
  assumes "wf_header (fs_header fs)"
  shows "wf_header (fs_header (put_record fs r b))"
proof -
  have eq: "map file_name (header_files (fs_header (put_record fs r b))) =
      map file_name (header_files (fs_header fs))"
    by (simp add: map_update_same)
  have "list_all (\<lambda>n. length n = 12) (map file_name (header_files (fs_header fs)))"
    using assms by (simp add: wf_header_def wf_file_def list_all_iff)
  then have "list_all wf_file (header_files (fs_header (put_record fs r b)))"
    unfolding eq [symmetric] by (simp only: list.pred_map comp_def wf_file_def [abs_def])
  then show ?thesis using assms by (simp add: wf_header_def)
qed

lemma wf_put_record:
  assumes "wf_fs fs" "length b = 512"
  shows "wf_fs (put_record fs r b)"
  using assms wf_header_put_record [of fs r b] by (simp add: wf_fs_def)

lemma represents_put_record:
  assumes "represents invar addressable readable contents limit fs blocks" "valid_record r"
    and "fits (last blocks) r" "fs_cachedBlockNumber fs = header_block (fs_header fs)"
    and "block_holds (versions fs) (last blocks @ [stored r]) b"
  shows "represents invar addressable readable contents limit (put_record fs r b) (extend_last blocks (stored r))"
proof -
  note p = represents_parts [OF assms(1)]
  let ?fs' = "put_record fs r b"
  have off: "unat (header_offset (fs_header fs) + (7 + of_nat (length (snd r)))) = chain_length (last blocks @ [stored r])"
    using p(10) assms(2,3) by (simp add: unat_word_ariths unat_of_nat fits_def valid_record_def)
  then have off': "header_offset (fs_header fs) + (7 + of_nat (length (snd r))) =
      of_nat (chain_length (last blocks @ [stored r]))"
    by (metis of_nat_unat ucast_id)
  have holds: "log_holds contents limit ?fs' (extend_last blocks (stored r))"
    unfolding log_holds_def
  proof (intro allI impI)
    fix i assume i: "i < limit"
    have inj: "log_block i = log_block (length blocks - 1) \<longleftrightarrow> i = length blocks - 1"
      using log_area_block(7) [OF p(5) i] log_area_block(7) [OF p(5,14)] by (intro log_block_inj) simp_all
    show "block_holds (versions ?fs') (if i < length (extend_last blocks (stored r)) then extend_last blocks (stored r) ! i else [])
        (block_view contents ?fs' (log_block i))"
      using p(7,9,11) i inj assms(4,5) by (auto simp: log_holds_def block_view_def extend_nth)
  qed
  have files: "file_matches (extend_last blocks (stored r)) f (header_files (fs_header ?fs') ! unat f)"
    if f: "unat f < 4" for f
  proof (cases "fst r = f")
    case True
    have "unat f < length (header_files (fs_header fs))" using p(12) f by (simp add: wf_header_def)
    then show ?thesis
      using file_matches_same [OF p(7), of r] p(15) [OF f] True p(9) by (simp add: off')
  next
    case False
    then have "unat (fst r) \<noteq> unat f" by (metis word_unat_eq_iff)
    then show ?thesis using file_matches_other [OF p(7) _ p(15) [OF f], of "stored r"] False by simp
  qed
  have "wf_fs ?fs'" using p(2) assms(5) by (intro wf_put_record) (simp_all add: block_holds_def)
  moreover have "log_area addressable readable limit ?fs'" using p(5) by (simp add: log_area_def)
  moreover have "cache_ok contents limit ?fs'" using assms(4) by (simp add: cache_ok_def)
  ultimately show ?thesis
    using p(1,3,4,7,8,9) holds files off by (simp add: represents_def)
qed

text \<open>The append after a successful allocation: the entry and its data go to the offset the allocation
  chose.\<close>

lemma append_eq:
  assumes "fkfs_file_allocate_block P fs (fst r) (7 + of_nat (length (snd r))) = Some (True, fs1)"
    and "valid_record r" "wf_header (fs_header fs1)" "fs_files fs1 = fs_files fs"
    and "mem_write (fs_buffer fs1) (unat (header_offset (fs_header fs1)))
      (entry_bytes (record_entry (versions fs1) (stored r))) = Some b1"
    and "mem_write b1 (unat (header_offset (fs_header fs1)) + 7) (snd r) = Some b2"
  shows "fkfs_file_append P fs (fst r) (of_nat (length (snd r))) (snd r @ slack) =
    (if settings_sync (fs_files fs ! unat (fst r)) \<noteq> 0 then fkfs_fsync P (put_record fs1 r b2)
     else Some (True, put_record fs1 r b2))"
proof -
  let ?sz = "of_nat (length (snd r)) :: u16"
  have v: "unat (fst r) < 4" "length (snd r) < 512" using assms(2) by (simp_all add: valid_record_def)
  have crc: "fkfs_block_crc (header_files (fs_header fs1) ! unat (fst r))
      \<lparr> entry_file = fst r, entry_size = ?sz, entry_available = ?sz, entry_crc = 0 \<rparr> (snd r @ slack) =
      Some (entry_crc (record_entry (versions fs1) (stored r)))"
    using unat_record_size [OF assms(2)] wf_fs_files [OF assms(3) v(1)]
    by (simp add: fkfs_block_crc_def mem_read_def record_entry_def Let_def)
  have entry: "\<lparr> entry_file = fst r, entry_size = ?sz, entry_available = ?sz,
      entry_crc = entry_crc (record_entry (versions fs1) (stored r)) \<rparr> = record_entry (versions fs1) (stored r)"
    by (simp add: record_entry_def Let_def)
  have "unat (7 + ?sz) \<le> 512" "?sz \<noteq> 0"
    using unat_required [OF assms(2)] assms(2) valid_record_size_nonzero [OF assms(2)]
    by (simp_all add: valid_record_def)
  then show ?thesis
    using v assms(1,4-6) crc unat_record_size [OF assms(2)]
    by (simp add: fkfs_file_append_def entry ucast_record_size [OF assms(2)] mem_read_def put_record_def fs_header_map_def
        fs_file_update_def Let_def)
qed

context reliable_device
begin

lemma represents_append:
  assumes "represents invar addressable readable contents limit fs blocks" "valid_record r"
    and "length (place blocks r) \<le> limit"
  obtains fs' where
    "fkfs_file_append P fs (fst r) (of_nat (length (snd r))) (snd r @ slack) = Some (True, fs')"
    "represents invar addressable readable contents limit fs' (place blocks r)"
    "fs_files fs' = fs_files fs"
    "settings_sync (fs_files fs ! unat (fst r)) \<noteq> 0 \<Longrightarrow> \<not> fs_cachedBlockDirty fs'"
    "saved contents fs'"
    "\<And>g. sealed_at contents g fs \<Longrightarrow> g + 2 < 2 ^ 32 \<Longrightarrow> sealed_at contents (g + 2) fs'"
    "map file_startBlock (header_files (fs_header fs')) = map file_startBlock (header_files (fs_header fs))"
proof -
  let ?bs = "make_room blocks r" and ?sz = "of_nat (length (snd r)) :: u16"
  have "?bs \<noteq> []" using represents_parts(7) [OF assms(1)] by (simp add: make_room_def)
  then have len: "length ?bs \<le> limit" using assms(3) by (simp add: place_def)
  obtain fs1 where a: "fkfs_file_allocate_block P fs (fst r) (7 + ?sz) = Some (True, fs1)"
    and r1: "represents invar addressable readable contents limit fs1 ?bs"
    and c1: "fs_cachedBlockNumber fs1 = header_block (fs_header fs1)"
    and h1: "block_holds (versions fs1) (last ?bs) (fs_buffer fs1)"
    and f1: "fs_files fs1 = fs_files fs" "header_files (fs_header fs1) = header_files (fs_header fs)"
    and s1: "\<And>g. sealed_at contents g fs \<Longrightarrow> Suc g < 2 ^ 32 \<Longrightarrow> sealed_at contents (Suc g) fs1"
    using represents_allocate [OF assms(1,2) len, of "fst r"] by metis
  note p = represents_parts [OF r1]
  have room: "fits (last ?bs) r" using assms(2) by (rule last_room)
  obtain b1 b2 where b1: "mem_write (fs_buffer fs1) (chain_length (last ?bs))
        (entry_bytes (record_entry (versions fs1) (stored r))) = Some b1"
    and b2: "mem_write b1 (chain_length (last ?bs) + 7) (snd r) = Some b2"
      "block_holds (versions fs1) (last ?bs @ [stored r]) b2"
    using block_holds_extend [OF h1, of "stored r"] assms(2) room by (auto simp: fits_def)
  have eq: "fkfs_file_append P fs (fst r) ?sz (snd r @ slack) =
      (if settings_sync (fs_files fs ! unat (fst r)) \<noteq> 0 then fkfs_fsync P (put_record fs1 r b2)
       else Some (True, put_record fs1 r b2))"
    using a assms(2) p(12) f1(1) b1 b2(1) unfolding p(10) [symmetric] by (rule append_eq)
  have r2: "represents invar addressable readable contents limit (put_record fs1 r b2) (place blocks r)"
    unfolding place_def using r1 assms(2) room c1 b2(2) by (rule represents_put_record)
  have "sealed_at contents g (put_record fs1 r b2) = sealed_at contents g fs1" for g
    by (intro sealed_at_cong) (simp_all add: put_record_def Let_def)
  with s1 have s2: "\<And>g. sealed_at contents g fs \<Longrightarrow> Suc g < 2 ^ 32 \<Longrightarrow>
      sealed_at contents (Suc g) (put_record fs1 r b2)" by simp
  have sv: "saved contents (put_record fs1 r b2)" by (simp add: saved_def)
  have start: "map file_startBlock (header_files (fs_header (put_record fs1 r b2))) =
      map file_startBlock (header_files (fs_header fs))"
    by (simp add: map_update_same f1(2))
  show thesis
  proof (cases "settings_sync (fs_files fs ! unat (fst r)) = 0")
    case True
    then show thesis
      using eq r2 f1(1) s2 sv start sealed_at_mono [OF s2, of _ "_ + 2"]
      by (intro that [of "put_record fs1 r b2"]) simp_all
  next
    case False
    obtain fs3 where "fkfs_fsync P (put_record fs1 r b2) = Some (True, fs3)"
      "represents invar addressable readable contents limit fs3 (place blocks r)"
      "\<not> fs_cachedBlockDirty fs3" "fs_files fs3 = fs_files (put_record fs1 r b2)" "saved contents fs3"
      "header_files (fs_header fs3) = header_files (fs_header (put_record fs1 r b2))"
      and s3: "\<And>g. sealed_at contents g (put_record fs1 r b2) \<Longrightarrow> Suc g < 2 ^ 32 \<Longrightarrow> sealed_at contents (Suc g) fs3"
      using represents_fsync [OF r2] sv by metis
    moreover have "sealed_at contents (g + 2) fs3" if "sealed_at contents g fs" "g + 2 < 2 ^ 32" for g
      using s3 [OF s2 [OF that(1)]] that(2) by simp
    ultimately show thesis using eq f1(1) False start by (intro that [of fs3]) simp_all
  qed
qed

end

end
