(* ===== verification/Fkfs_Scan.thy ===== *)
theory Fkfs_Scan
  imports Fkfs_Refine
begin

text \<open>
  Reading the log back. A token stands at a position, a block and a number of records in it; one
  pass of the scan loop returns the record there, skips it, or goes on to the next block. Together
  they show that iterating a file visits its records one after the other and then stops.
\<close>

section \<open>Positions\<close>

definition before :: "nat \<times> nat \<Rightarrow> nat \<times> nat \<Rightarrow> bool" where
  "before p q \<longleftrightarrow> fst p < fst q \<or> (fst p = fst q \<and> snd p < snd q)"

lemma before_total: "\<not> before p q \<Longrightarrow> q \<noteq> p \<Longrightarrow> before q p"
  by (cases p; cases q) (auto simp: before_def)

definition in_log :: "log_entry list list \<Rightarrow> nat \<times> nat \<Rightarrow> bool" where
  "in_log blocks p \<longleftrightarrow> fst p < length blocks \<and> snd p \<le> length (blocks ! fst p)"

definition move_token :: "log_entry list list \<Rightarrow> nat \<times> nat \<Rightarrow> fkfs_file_iter_t \<Rightarrow> fkfs_file_iter_t" where
  "move_token blocks p = token_map (\<lambda>t. t\<lparr> token_block := log_block (fst p),
     token_offset := position_offset blocks p \<rparr>)"

text \<open>The iterator stands at \<open>p\<close> and is to stop at \<open>q\<close>.\<close>

definition iter_at ::
  "log_entry list list \<Rightarrow> u8 \<Rightarrow> nat \<times> nat \<Rightarrow> nat \<times> nat \<Rightarrow> fkfs_file_iter_t \<Rightarrow> bool" where
  "iter_at blocks f p q iter \<longleftrightarrow>
     token_file (iter_token iter) = f
     \<and> token_block (iter_token iter) = log_block (fst p)
     \<and> token_offset (iter_token iter) = position_offset blocks p
     \<and> token_lastBlock (iter_token iter) = log_block (fst q)
     \<and> token_lastOffset (iter_token iter) = position_offset blocks q
     \<and> in_log blocks p \<and> in_log blocks q"

text \<open>Every block but the last leaves room for the header that ends its chain.\<close>

definition scannable :: "log_entry list list \<Rightarrow> bool" where
  "scannable blocks \<longleftrightarrow> (\<forall>i. Suc i < length blocks \<longrightarrow> chain_length (blocks ! i) \<le> 505)"

lemma iter_at_move:
  "iter_at blocks f p q iter \<Longrightarrow> in_log blocks p' \<Longrightarrow> iter_at blocks f p' q (move_token blocks p' iter)"
  by (simp add: iter_at_def move_token_def token_map_def)

lemma move_token_twice [simp]: "move_token blocks p (move_token blocks q iter) = move_token blocks p iter"
  by (simp add: move_token_def token_map_def)

lemma move_token_same: "iter_at blocks f p q iter \<Longrightarrow> move_token blocks p iter = iter"
  by (simp add: iter_at_def move_token_def token_map_def)

lemma represents_chain:
  assumes "represents invar addressable readable contents limit fs blocks" "i < length blocks"
  shows "block_holds (versions fs) (blocks ! i) (block_view contents fs (log_block i))"
    "chain_length (blocks ! i) \<le> 512" "i < limit" "list_all valid_entry (blocks ! i)"
proof -
  note p = represents_parts [OF assms(1)]
  show "i < limit" using p(8) assms(2) by simp
  then show h: "block_holds (versions fs) (blocks ! i) (block_view contents fs (log_block i))"
    using p(11) [unfolded log_holds_def, rule_format, of i] assms(2) by simp
  then show "chain_length (blocks ! i) \<le> 512" "list_all valid_entry (blocks ! i)"
    by (simp_all add: block_holds_def)
qed

lemma unat_position_offset:
  assumes "represents invar addressable readable contents limit fs blocks" "in_log blocks p"
  shows "unat (position_offset blocks p) = chain_length (take (snd p) (blocks ! fst p))"
    "chain_length (take (snd p) (blocks ! fst p)) \<le> 512"
proof -
  have "chain_length (blocks ! fst p) \<le> 512"
    using represents_chain(2) [OF assms(1)] assms(2) by (simp add: in_log_def)
  then show le: "chain_length (take (snd p) (blocks ! fst p)) \<le> 512"
    using chain_length_take_le order_trans by blast
  then show "unat (position_offset blocks p) = chain_length (take (snd p) (blocks ! fst p))"
    by (simp add: position_offset_def unat_of_nat)
qed

text \<open>The iterator is done exactly when its position is not before the end.\<close>

lemma iterator_done_iff:
  assumes "represents invar addressable readable contents limit fs blocks" "iter_at blocks f p q iter"
  shows "fkfs_file_iterator_done iter \<longleftrightarrow> \<not> before p q"
proof -
  have pq: "in_log blocks p" "in_log blocks q" using assms(2) by (simp_all add: iter_at_def)
  note area = log_area_block [OF represents_parts(5) [OF assms(1)]]
  have lim: "fst p < limit" "fst q < limit"
    using pq represents_parts(8) [OF assms(1)] by (auto simp: in_log_def)
  have blk: "log_block (fst p) > log_block (fst q) \<longleftrightarrow> fst p > fst q"
    "log_block (fst p) = log_block (fst q) \<longleftrightarrow> fst p = fst q"
    using area(3) [OF lim(1)] area(3) [OF lim(2)]
    by (auto simp: word_less_nat_alt word_unat_eq_iff)
  have off: "position_offset blocks p \<ge> position_offset blocks q \<longleftrightarrow> snd p \<ge> snd q" if "fst p = fst q"
  proof -
    have "chain_length (take (snd q) (blocks ! fst q)) \<le> chain_length (take (snd p) (blocks ! fst q))
        \<longleftrightarrow> snd q \<le> snd p"
      using chain_length_take_mono [of "snd q" "snd p" "blocks ! fst q"]
        chain_length_take_less [of "snd p" "snd q" "blocks ! fst q"] pq that
      by (auto simp: in_log_def not_le [symmetric])
    then show ?thesis
      using unat_position_offset(1) [OF assms(1) pq(1)] unat_position_offset(1) [OF assms(1) pq(2)] that
      by (simp add: word_le_nat_alt)
  qed
  show ?thesis
    using assms(2) blk off
    by (auto simp: fkfs_file_iterator_done_def iter_at_def before_def Let_def)
qed

lemma advance_position:
  assumes "iter_at blocks f (i, j) q iter" "j < length (blocks ! i)"
  shows "advance_token (record_entry vers (blocks ! i ! j)) iter = move_token blocks (i, Suc j) iter"
  using assms
  by (simp add: advance_token_def move_token_def token_map_def iter_at_def position_offset_def
      chain_length_take_Suc add.commute add.left_commute)

section \<open>One pass of the loop\<close>

text \<open>A configuration that lets one call go through \<open>n\<close> blocks.\<close>

definition reaches :: "fkfs_iterator_config_t \<Rightarrow> u32 \<Rightarrow> nat \<Rightarrow> bool" where
  "reaches config maxBlocks n \<longleftrightarrow>
     config_maxTime config = 0 \<and> (config_maxBlocks config = 0 \<or> n < unat maxBlocks)"

lemma reaches_pred:
  assumes "reaches config mb (Suc n)" "config_maxBlocks config \<noteq> 0"
  shows "reaches config (mb - 1) n" "mb - 1 \<noteq> 0"
proof -
  have "1 < unat mb" "Suc n < unat mb" using assms by (auto simp: reaches_def)
  moreover from this have "unat (mb - 1) = unat mb - 1" by (simp add: unat_sub word_le_nat_alt)
  ultimately show "reaches config (mb - 1) n" "mb - 1 \<noteq> 0"
    using assms by (auto simp: reaches_def word_unat_eq_iff)
qed

text \<open>The iterator after it returned the record in front of \<open>(i, Suc j)\<close>.\<close>

definition iter_hit ::
  "fkfs_iterator_config_t \<Rightarrow> log_entry list list \<Rightarrow> nat \<times> nat \<Rightarrow> fkfs_file_iter_t \<Rightarrow> fkfs_file_iter_t" where
  "iter_hit config blocks p iter =
     (let d = snd (blocks ! fst p ! snd p)
      in (move_token blocks (if config_manualNext config then p else (fst p, Suc (snd p))) iter)
         \<lparr> iter_size := of_nat (length d),
           iter_data := Some (chain_length (take (snd p) (blocks ! fst p)) + 7),
           iter_iterated := iter_iterated iter + of_nat (length d) \<rparr>)"

context reliable_device
begin

text \<open>Loading the block of the iterator.\<close>

lemma scan_load:
  assumes "represents invar addressable readable contents limit fs blocks" "\<not> fs_cachedBlockDirty fs"
    and "iter_at blocks f (i, j) q iter"
  obtains fs' where "fkfs_block_ensure P fs (token_block (iter_token iter)) = Some (True, fs')"
    "represents invar addressable readable contents limit fs' blocks" "same_meta fs fs'"
    "fs_cachedBlockNumber fs' = log_block i" "block_holds (versions fs') (blocks ! i) (fs_buffer fs')"
    "iter_ptr fs' iter = drop (chain_length (take j (blocks ! i))) (fs_buffer fs')"
proof -
  have i: "i < length blocks" "in_log blocks (i, j)" and tb: "token_block (iter_token iter) = log_block i"
    "token_offset (iter_token iter) = position_offset blocks (i, j)"
    using assms(3) by (simp_all add: iter_at_def in_log_def)
  obtain fs' where e: "fkfs_block_ensure P fs (log_block i) = Some (True, fs')"
    and r: "represents invar addressable readable contents limit fs' blocks" "same_meta fs fs'"
      "fs_cachedBlockNumber fs' = log_block i"
      "block_holds (versions fs) (if i < length blocks then blocks ! i else []) (fs_buffer fs')"
    using represents_ensure [OF assms(1) represents_chain(3) [OF assms(1) i(1)]] assms(2) by metis
  have "versions fs' = versions fs" using r(2) by (simp add: same_meta_def versions_def)
  moreover have "iter_ptr fs' iter = drop (chain_length (take j (blocks ! i))) (fs_buffer fs')"
    using unat_position_offset(1) [OF assms(1) i(2)] represents_parts(13) [OF r(1)] tb(2)
    by (simp add: iter_ptr_def)
  ultimately show thesis using e r i(1) tb(1) by (intro that [of fs']) simp_all
qed

lemma status_tick_ok:
  assumes "represents invar addressable readable contents limit fs blocks"
  obtains fs' ls' where "status_tick P fs ls = (fs', ls')"
    "represents invar addressable readable contents limit fs' blocks" "same_meta fs fs'"
proof -
  obtain t fs1 where m1: "fs_millis P fs = (t, fs1)"
    and r1: "represents invar addressable readable contents limit fs1 blocks" "same_meta fs fs1"
    using represents_millis [OF assms] by metis
  obtain t2 fs2 where m2: "fs_millis P fs1 = (t2, fs2)"
    and r2: "represents invar addressable readable contents limit fs2 blocks" "same_meta fs1 fs2"
    using represents_millis [OF r1(1)] by metis
  show thesis
  proof (cases "t - ls > 1000")
    case True
    then show thesis using m1 m2 r2 same_meta_trans [OF r1(2) r2(2)]
      by (intro that [of fs2 t2]) (simp_all add: status_tick_def)
  next
    case False
    then show thesis using m1 r1 by (intro that [of fs1 ls]) (simp_all add: status_tick_def)
  qed
qed

lemma scan_hit:
  assumes "represents invar addressable readable contents limit fs blocks" "\<not> fs_cachedBlockDirty fs"
    and "iter_at blocks f (i, j) q iter" "j < length (blocks ! i)" "fst (blocks ! i ! j) = (f, 0)"
  obtains fs' where
    "scan_body P config started (fs, iter, ls, mb) =
       Some (Inl (True, fs', iter_hit config blocks (i, j) iter))"
    "represents invar addressable readable contents limit fs' blocks" "same_meta fs fs'"
    "mem_read (fs_buffer fs') (chain_length (take j (blocks ! i)) + 7) (length (snd (blocks ! i ! j))) =
       Some (snd (blocks ! i ! j))"
proof -
  obtain fs' where e: "fkfs_block_ensure P fs (token_block (iter_token iter)) = Some (True, fs')"
    and r: "represents invar addressable readable contents limit fs' blocks" "same_meta fs fs'"
    and h: "block_holds (versions fs') (blocks ! i) (fs_buffer fs')"
    and ptr: "iter_ptr fs' iter = drop (chain_length (take j (blocks ! i))) (fs_buffer fs')"
    using scan_load [OF assms(1-3)] by metis
  have i: "i < length blocks" "in_log blocks (i, j)" using assms(3) by (simp_all add: iter_at_def in_log_def)
  note c = check_chain [OF represents_parts(12) [OF r(1)] h assms(4)]
  have "valid_entry (blocks ! i ! j)"
    using represents_chain(4) [OF assms(1) i(1)] assms(4) by (simp add: list_all_length)
  then have v: "valid_record (fst (fst (blocks ! i ! j)), snd (blocks ! i ! j))" by (simp add: valid_entry_def)
  have iter: "move_token blocks (i, j) iter = iter" using assms(3) by (rule move_token_same)
  have tk: "token_file (iter_token iter) = f" "token_offset (iter_token iter) = position_offset blocks (i, j)"
    using assms(3) by (simp_all add: iter_at_def)
  have tok: "(iter_token iter)\<lparr>token_offset := position_offset blocks (i, j) +
        (of_nat (length (snd (blocks ! i ! j))) + 7)\<rparr> =
      (iter_token iter)\<lparr>token_block := log_block i, token_offset := position_offset blocks (i, Suc j)\<rparr>"
    using arg_cong [OF advance_position [OF assms(3,4), of "versions fs'"], of iter_token] tk
    by (simp add: advance_token_def move_token_def token_map_def)
  have "scan_body P config started (fs, iter, ls, mb) =
      Some (Inl (True, fs', iter_hit config blocks (i, j) iter))"
    using e c(1,2) assms(5) tk unat_position_offset(1) [OF assms(1) i(2)] iter tok
    by (simp add: scan_body_def ptr iter_hit_def ucast_record_size [OF v, unfolded snd_conv] advance_token_def
        token_map_def move_token_def Let_def)
  moreover have "chain_length (take (Suc j) (blocks ! i)) \<le> 512"
    using unat_position_offset(2) [OF assms(1), of "(i, Suc j)"] i(1) assms(4) by (simp add: in_log_def)
  then have "mem_read (fs_buffer fs') (chain_length (take j (blocks ! i)) + 7) (length (snd (blocks ! i ! j))) =
      Some (snd (blocks ! i ! j))"
    using c(3) represents_parts(13) [OF r(1)] assms(4) by (simp add: mem_read_def chain_length_take_Suc)
  ultimately show thesis using r by (intro that)
qed

lemma scan_skip:
  assumes "represents invar addressable readable contents limit fs blocks" "\<not> fs_cachedBlockDirty fs"
    and "iter_at blocks f (i, j) q iter" "j < length (blocks ! i)" "fst (blocks ! i ! j) \<noteq> (f, 0)"
    and "before (i, Suc j) q"
  obtains fs' ls' where
    "scan_body P config started (fs, iter, ls, mb) =
       Some (Inr (fs', move_token blocks (i, Suc j) iter, ls', mb))"
    "represents invar addressable readable contents limit fs' blocks" "same_meta fs fs'"
proof -
  obtain fs1 where e: "fkfs_block_ensure P fs (token_block (iter_token iter)) = Some (True, fs1)"
    and r: "represents invar addressable readable contents limit fs1 blocks" "same_meta fs fs1"
    and h: "block_holds (versions fs1) (blocks ! i) (fs_buffer fs1)"
    and ptr: "iter_ptr fs1 iter = drop (chain_length (take j (blocks ! i))) (fs_buffer fs1)"
    using scan_load [OF assms(1-3)] by metis
  note c = check_chain [OF represents_parts(12) [OF r(1)] h assms(4)]
  have i: "in_log blocks (i, Suc j)" using assms(3,4) by (simp add: iter_at_def in_log_def)
  have nd: "\<not> fkfs_file_iterator_done (move_token blocks (i, Suc j) iter)"
    using iterator_done_iff [OF assms(1) iter_at_move [OF assms(3) i]] assms(6) by simp
  obtain fs2 ls' where t: "status_tick P fs1 ls = (fs2, ls')"
    and r2: "represents invar addressable readable contents limit fs2 blocks" "same_meta fs1 fs2"
    using status_tick_ok [OF r(1)] by metis
  have "token_file (iter_token iter) = f" using assms(3) by (simp add: iter_at_def)
  then have "scan_body P config started (fs, iter, ls, mb) =
      Some (Inr (fs2, move_token blocks (i, Suc j) iter, ls', mb))"
    using e c(1,2) assms(5) advance_position [OF assms(3,4), of "versions fs1"] nd t
    by (cases "fst (blocks ! i ! j)") (auto simp: scan_body_def ptr Let_def)
  then show thesis using r2(1) same_meta_trans [OF r(2) r2(2)] by (intro that)
qed

lemma scan_next:
  assumes "represents invar addressable readable contents limit fs blocks" "\<not> fs_cachedBlockDirty fs"
    and "iter_at blocks f (i, length (blocks ! i)) q iter" "chain_length (blocks ! i) \<le> 505"
    and "Suc i < length blocks" "before (Suc i, 0) q" "reaches config mb (Suc n)"
  obtains fs' ls' mb' where
    "scan_body P config started (fs, iter, ls, mb) =
       Some (Inr (fs', move_token blocks (Suc i, 0) iter, ls', mb'))" "reaches config mb' n"
    "represents invar addressable readable contents limit fs' blocks" "same_meta fs fs'"
proof -
  obtain fs1 where e: "fkfs_block_ensure P fs (token_block (iter_token iter)) = Some (True, fs1)"
    and r: "represents invar addressable readable contents limit fs1 blocks" "same_meta fs fs1"
    and h: "block_holds (versions fs1) (blocks ! i) (fs_buffer fs1)"
    and ptr: "iter_ptr fs1 iter = drop (chain_length (take (length (blocks ! i)) (blocks ! i))) (fs_buffer fs1)"
    using scan_load [OF assms(1-3)] by metis
  have c: "fkfs_block_check fs1 (iter_ptr fs1 iter) = Some FKFS_OFFSET_SEARCH_STATUS_SIZE"
    using check_chain_end [OF h assms(4), of fs1] ptr by simp
  have i: "in_log blocks (Suc i, 0)" using assms(5) by (simp add: in_log_def)
  let ?it = "move_token blocks (Suc i, 0) iter"
  have nd: "\<not> fkfs_file_iterator_done ?it"
    using iterator_done_iff [OF assms(1) iter_at_move [OF assms(3) i]] assms(6) by simp
  have it: "token_map (\<lambda>t. t\<lparr>token_block := token_block t + 1, token_offset := 0\<rparr>) iter = ?it"
    using assms(3)
    by (simp add: move_token_def token_map_def iter_at_def position_offset_def log_block_def
        add.commute add.left_commute)
  have "Suc i < limit" using represents_parts(8) [OF assms(1)] assms(5) by simp
  then have "wrap_token fs1 ?it = ?it"
    using log_area_block(5,6) [OF represents_parts(5) [OF r(1)], of "Suc i"]
    by (simp add: wrap_token_def move_token_def token_map_def)
  then obtain mb' where n: "scan_next_block P config started fs1 iter mb = (False, fs1, ?it, mb')"
    and mb': "reaches config mb' n"
    using nd assms(7) reaches_pred [OF assms(7)]
    by (cases "config_maxBlocks config = 0")
      (auto simp: scan_next_block_def it reaches_def word_neq_0_conv [symmetric] Let_def)
  obtain fs2 ls' where t: "status_tick P fs1 ls = (fs2, ls')"
    and r2: "represents invar addressable readable contents limit fs2 blocks" "same_meta fs1 fs2"
    using status_tick_ok [OF r(1)] by metis
  have "scan_body P config started (fs, iter, ls, mb) = Some (Inr (fs2, ?it, ls', mb'))"
    using e c n t by (simp add: scan_body_def)
  then show thesis using r2(1) same_meta_trans [OF r(2) r2(2)] mb' by (intro that)
qed

end

section \<open>The whole scan\<close>

text \<open>\<open>p\<close> is the next record of file \<open>f\<close> at or after \<open>start\<close>.\<close>

definition next_record :: "log_entry list list \<Rightarrow> u8 \<Rightarrow> nat \<times> nat \<Rightarrow> nat \<times> nat \<Rightarrow> bool" where
  "next_record blocks f start p \<longleftrightarrow>
     fst p < length blocks \<and> snd p < length (blocks ! fst p) \<and> fst (blocks ! fst p ! snd p) = (f, 0)
     \<and> \<not> before p start
     \<and> (\<forall>a < length blocks. \<forall>b < length (blocks ! a).
          \<not> before (a, b) start \<longrightarrow> before (a, b) p \<longrightarrow> fst (blocks ! a ! b) \<noteq> (f, 0))"

text \<open>Every pass that does not return brings the iterator closer.\<close>

definition distance :: "log_entry list list \<Rightarrow> nat \<times> nat \<Rightarrow> nat \<times> nat \<Rightarrow> nat" where
  "distance blocks p q = (fst q - fst p) * 600 + (513 - chain_length (take (snd p) (blocks ! fst p)))"

lemma iter_hit_move [simp]:
  "iter_hit config blocks p (move_token blocks q iter) = iter_hit config blocks p iter"
  by (simp add: iter_hit_def Let_def) (simp add: move_token_def token_map_def)

lemma next_record_skip:
  assumes "next_record blocks f (i, j) p" "(i, j) \<noteq> p"
  shows "next_record blocks f (i, Suc j) p"
  using assms by (cases p) (auto simp: next_record_def before_def less_Suc_eq)

lemma next_record_next:
  assumes "next_record blocks f (i, length (blocks ! i)) p"
  shows "next_record blocks f (Suc i, 0) p" "i < fst p"
proof -
  have "fst p \<noteq> i \<or> snd p < length (blocks ! i)" "\<not> before p (i, length (blocks ! i))"
    using assms by (auto simp: next_record_def)
  then show *: "i < fst p" by (auto simp: before_def)
  then show "next_record blocks f (Suc i, 0) p"
    using assms by (auto simp: next_record_def before_def)
qed

lemma next_record_other:
  assumes "next_record blocks f (i, j) p" "(i, j) \<noteq> p" "i < length blocks" "j < length (blocks ! i)"
  shows "fst (blocks ! i ! j) \<noteq> (f, 0)" "before (i, j) p"
proof -
  show bp: "before (i, j) p" using assms(1,2) by (auto simp: next_record_def intro: before_total)
  have "\<not> before (i, j) (i, j)" by (simp add: before_def)
  then show "fst (blocks ! i ! j) \<noteq> (f, 0)" using assms bp unfolding next_record_def by blast
qed

text \<open>A pass that goes round again hands on what the rest of the loop finds.\<close>

lemma scan_loop_again:
  assumes "scan_body P config started st = Some (Inr st')" "same_meta fs (fst st')"
    and "\<exists>fs'. scan_loop P config started st' = Some (True, fs', it) \<and> R fs' \<and> same_meta (fst st') fs' \<and> Q fs'"
  shows "\<exists>fs'. scan_loop P config started st = Some (True, fs', it) \<and> R fs' \<and> same_meta fs fs' \<and> Q fs'"
proof -
  have "scan_loop P config started st = scan_loop P config started st'"
    using assms(1) by (subst scan_loop.simps) simp
  then show ?thesis using assms(2,3) same_meta_trans by (metis (no_types, lifting))
qed

context reliable_device
begin

lemma scan_finds:
  assumes "represents invar addressable readable contents limit fs blocks" "\<not> fs_cachedBlockDirty fs"
    and "iter_at blocks f start q iter" "next_record blocks f start p" "before p q"
    and "scannable blocks" "reaches config mb (fst p - fst start)"
  shows "\<exists>fs'. scan_loop P config started (fs, iter, ls, mb) =
      Some (True, fs', iter_hit config blocks p iter)
    \<and> represents invar addressable readable contents limit fs' blocks \<and> same_meta fs fs'
    \<and> mem_read (fs_buffer fs') (chain_length (take (snd p) (blocks ! fst p)) + 7)
        (length (snd (blocks ! fst p ! snd p))) = Some (snd (blocks ! fst p ! snd p))"
  using assms(1-4,7)
proof (induction "distance blocks start p" arbitrary: fs iter ls mb start rule: less_induct)
  case less
  obtain i j where ij: "start = (i, j)" by (cases start)
  obtain a b where ab: "p = (a, b)" by (cases p)
  note np = less.prems(4) [unfolded ij]
  have i: "i < length blocks" "j \<le> length (blocks ! i)"
    using less.prems(3) by (simp_all add: iter_at_def in_log_def ij)
  have lim: "chain_length (blocks ! i) \<le> 512" using represents_chain(2) [OF less.prems(1) i(1)] .
  note at = less.prems(3) [unfolded ij]
  consider "(i, j) = p" | "(i, j) \<noteq> p" "j < length (blocks ! i)" | "(i, j) \<noteq> p" "j = length (blocks ! i)"
    using i(2) le_neq_implies_less by blast
  then show ?case
  proof cases
    case 1
    have hit: "j < length (blocks ! i)" "fst (blocks ! i ! j) = (f, 0)" using np 1 by (auto simp: next_record_def)
    obtain fs1 where s: "scan_body P config started (fs, iter, ls, mb) =
        Some (Inl (True, fs1, iter_hit config blocks (i, j) iter))"
      and r: "represents invar addressable readable contents limit fs1 blocks" "same_meta fs fs1"
        "mem_read (fs_buffer fs1) (chain_length (take j (blocks ! i)) + 7) (length (snd (blocks ! i ! j))) =
          Some (snd (blocks ! i ! j))"
      using scan_hit [OF less.prems(1,2) at hit] by metis
    have "scan_loop P config started (fs, iter, ls, mb) = Some (True, fs1, iter_hit config blocks p iter)"
      using 1 by (subst scan_loop.simps) (simp add: s)
    then show ?thesis using r 1 by auto
  next
    case 2
    note ne = next_record_other [OF np 2(1) i(1) 2(2)]
    have np': "next_record blocks f (i, Suc j) p" using np 2(1) by (rule next_record_skip)
    have bq: "before (i, Suc j) q" using ne(2) assms(5) by (auto simp: before_def)
    obtain fs1 ls1 where s: "scan_body P config started (fs, iter, ls, mb) =
        Some (Inr (fs1, move_token blocks (i, Suc j) iter, ls1, mb))"
      and r: "represents invar addressable readable contents limit fs1 blocks" "same_meta fs fs1"
      using scan_skip [OF less.prems(1,2) at 2(2) ne(1) bq] by metis
    have "in_log blocks (i, Suc j)" using i(1) 2(2) by (simp add: in_log_def)
    then have at': "iter_at blocks f (i, Suc j) q (move_token blocks (i, Suc j) iter)"
      by (rule iter_at_move [OF at])
    have clean: "\<not> fs_cachedBlockDirty fs1" using r(2) less.prems(2) by (simp add: same_meta_def)
    have "distance blocks (i, Suc j) p < distance blocks start p"
      using 2(2) lim chain_length_take_le [of j "blocks ! i"]
      by (simp add: distance_def ij chain_length_take_Suc)
    moreover have "reaches config mb (fst p - fst (i, Suc j))" using less.prems(5) ij by simp
    ultimately show ?thesis
      using less.hyps [OF _ r(1) clean at' np', unfolded iter_hit_move, of mb]
      by (intro scan_loop_again [OF s]) (simp_all add: r(2))
  next
    case 3
    have np': "next_record blocks f (Suc i, 0) p" and lt: "i < a"
      using next_record_next [of blocks f i p] np 3(2) ab by simp_all
    have "a < length blocks" using np ab by (simp add: next_record_def)
    then have si: "Suc i < length blocks" using lt by simp
    have bq: "before (Suc i, 0) q" using lt assms(5) ab by (auto simp: before_def)
    have short: "chain_length (blocks ! i) \<le> 505" using assms(6) si by (simp add: scannable_def)
    have "fst p - fst start = Suc (a - Suc i)" using lt ij ab by simp
    then have rc: "reaches config mb (Suc (a - Suc i))" using less.prems(5) by simp
    obtain fs1 ls1 mb1 where s: "scan_body P config started (fs, iter, ls, mb) =
        Some (Inr (fs1, move_token blocks (Suc i, 0) iter, ls1, mb1))" and mb1: "reaches config mb1 (a - Suc i)"
      and r: "represents invar addressable readable contents limit fs1 blocks" "same_meta fs fs1"
      using scan_next [OF less.prems(1,2) at [unfolded 3(2)] short si bq rc] by metis
    have "in_log blocks (Suc i, 0)" using si by (simp add: in_log_def)
    then have at': "iter_at blocks f (Suc i, 0) q (move_token blocks (Suc i, 0) iter)"
      by (rule iter_at_move [OF at])
    have clean: "\<not> fs_cachedBlockDirty fs1" using r(2) less.prems(2) by (simp add: same_meta_def)
    have "a - i = Suc (a - Suc i)" using lt by simp
    then have "distance blocks (Suc i, 0) p < distance blocks start p"
      by (simp add: distance_def ij ab)
    moreover have "reaches config mb1 (fst p - fst (Suc i, 0))" using mb1 ab by simp
    ultimately show ?thesis
      using less.hyps [OF _ r(1) clean at' np', unfolded iter_hit_move, of mb1]
      by (intro scan_loop_again [OF s]) (simp_all add: r(2))
  qed
qed

end

section \<open>The places an iteration stops at\<close>

lemma ends_sorted: "sorted_wrt before (ends f blocks)"
proof (induction blocks rule: rev_induct)
  case Nil
  then show ?case by (simp add: ends_def)
next
  case (snoc rs blocks)
  have "sorted_wrt before (map (\<lambda>j. (length blocks, Suc j)) (filter (\<lambda>j. fst (rs ! j) = (f, 0)) [0..<length rs]))"
    by (simp add: sorted_wrt_map before_def sorted_wrt_filter)
  moreover have "before p q" if "p \<in> set (ends f blocks)"
    "q \<in> set (map (\<lambda>j. (length blocks, Suc j)) (filter (\<lambda>j. fst (rs ! j) = (f, 0)) [0..<length rs]))" for p q
    using that ends_in_range [of "fst p" "snd p" f blocks] by (auto simp: before_def)
  ultimately show ?case using snoc.IH by (simp add: ends_snoc sorted_wrt_append)
qed

lemma filter_by_index:
  "map snd (filter (\<lambda>e. fst e = (f, 0)) rs) =
     map (\<lambda>j. snd (rs ! j)) (filter (\<lambda>j. fst (rs ! j) = (f, 0)) [0..<length rs])"
proof -
  have "filter (\<lambda>e. fst e = (f, 0)) (map ((!) rs) [0..<length rs]) =
      map ((!) rs) (filter (\<lambda>j. fst (rs ! j) = (f, 0)) [0..<length rs])"
    by (simp only: filter_map comp_def)
  then show ?thesis by (simp add: map_nth)
qed

lemma file_records_ends:
  "file_records f blocks = map (\<lambda>p. snd (blocks ! fst p ! (snd p - 1))) (ends f blocks)"
proof (induction blocks rule: rev_induct)
  case Nil
  then show ?case by (simp add: ends_def file_records_def)
next
  case (snoc rs blocks)
  have "map (\<lambda>p. snd ((blocks @ [rs]) ! fst p ! (snd p - 1))) (ends f blocks) =
      map (\<lambda>p. snd (blocks ! fst p ! (snd p - 1))) (ends f blocks)"
  proof (rule map_cong [OF refl])
    fix p assume "p \<in> set (ends f blocks)"
    then have "fst p < length blocks" using ends_in_range [of "fst p" "snd p" f blocks] by simp
    then show "snd ((blocks @ [rs]) ! fst p ! (snd p - 1)) = snd (blocks ! fst p ! (snd p - 1))"
      by (simp add: nth_append)
  qed
  moreover have "file_records f (blocks @ [rs]) = file_records f blocks @ map snd (filter (\<lambda>e. fst e = (f, 0)) rs)"
    by (simp add: file_records_def)
  ultimately show ?case using snoc.IH filter_by_index [of f rs] by (simp add: ends_snoc comp_def)
qed

lemma length_file_records: "length (file_records f blocks) = length (ends f blocks)"
  by (simp add: file_records_ends)

text \<open>Where the iterator stands after it returned \<open>k\<close> records of a file that starts in block \<open>s\<close>.\<close>

definition stop_at :: "nat \<Rightarrow> u8 \<Rightarrow> log_entry list list \<Rightarrow> nat \<Rightarrow> nat \<times> nat" where
  "stop_at s f blocks k = (if k = 0 then (s, 0) else ends f blocks ! (k - 1))"

lemma ends_nth:
  assumes "k < length (ends f blocks)"
  obtains i j where "ends f blocks ! k = (i, Suc j)" "i < length blocks" "j < length (blocks ! i)"
    "fst (blocks ! i ! j) = (f, 0)"
proof -
  obtain i m where e: "ends f blocks ! k = (i, m)" by fastforce
  then have "(i, m) \<in> set (ends f blocks)" using assms by (metis nth_mem)
  then have "i < length blocks" "0 < m" "m \<le> length (blocks ! i)" "fst (blocks ! i ! (m - 1)) = (f, 0)"
    by (simp_all add: ends_in_range)
  with e that [of i "m - 1"] show thesis by simp
qed

lemma next_of_stop:
  assumes "k < length (ends f blocks)" "ends f blocks ! k = (i, Suc j)" "starts_at s f blocks"
  shows "next_record blocks f (stop_at s f blocks k) (i, j)"
proof -
  have in_set: "i < length blocks" "j < length (blocks ! i)" "fst (blocks ! i ! j) = (f, 0)"
    using ends_nth [OF assms(1)] assms(2) by auto
  have ord: "before (ends f blocks ! a) (ends f blocks ! b)" if "a < b" "b < length (ends f blocks)" for a b
    using sorted_wrt_nth_less [OF ends_sorted that] .
  have "\<not> before (i, j) (stop_at s f blocks k)"
  proof (cases k)
    case 0
    have "s \<le> i"
      using assms nth_mem [OF assms(1)] by (auto simp: starts_at_def list_all_iff)
    then show ?thesis using 0 by (simp add: stop_at_def before_def)
  next
    case (Suc m)
    then have "before (ends f blocks ! m) (i, Suc j)" using ord [of m k] assms by simp
    then show ?thesis using Suc by (auto simp: stop_at_def before_def)
  qed
  moreover have "fst (blocks ! a ! b) \<noteq> (f, 0)"
    if ab: "a < length blocks" "b < length (blocks ! a)" "\<not> before (a, b) (stop_at s f blocks k)"
      "before (a, b) (i, j)" for a b
  proof
    assume "fst (blocks ! a ! b) = (f, 0)"
    then have "(a, Suc b) \<in> set (ends f blocks)" using ab(1,2) by (simp add: ends_in_range)
    then obtain m where m: "m < length (ends f blocks)" "ends f blocks ! m = (a, Suc b)"
      by (metis in_set_conv_nth)
    have "before (ends f blocks ! m) (ends f blocks ! k)" using ab(4) m(2) assms(2) by (auto simp: before_def)
    then have mk: "m < k"
      using ord [of k m] m(1) by (cases m k rule: linorder_cases) (auto simp: before_def)
    then have "m = k - 1 \<or> before (ends f blocks ! m) (ends f blocks ! (k - 1))"
      using ord [of m "k - 1"] assms(1) by (cases "m = k - 1") simp_all
    then have "before (a, b) (ends f blocks ! (k - 1))" using m(2) by (auto simp: before_def)
    then show False using ab(3) mk by (simp add: stop_at_def)
  qed
  ultimately show ?thesis using in_set by (auto simp: next_record_def)
qed

lemma stop_at_last: "stop_at s f blocks (length (ends f blocks)) = file_end s f blocks"
  by (simp add: stop_at_def file_end_def last_conv_nth)

lemma stop_at_in_log:
  assumes "starts_at s f blocks" "k \<le> length (ends f blocks)"
  shows "in_log blocks (stop_at s f blocks k)"
proof (cases k)
  case 0
  then show ?thesis using assms(1) by (simp add: stop_at_def in_log_def starts_at_def)
next
  case (Suc m)
  then have "m < length (ends f blocks)" using assms(2) by simp
  then obtain i j where "ends f blocks ! m = (i, Suc j)" "i < length blocks" "j < length (blocks ! i)"
    using ends_nth by metis
  then show ?thesis using Suc by (simp add: stop_at_def in_log_def)
qed

lemma stop_at_before_end:
  assumes "k < length (ends f blocks)" "starts_at s f blocks"
  shows "before (stop_at s f blocks k) (file_end s f blocks)"
proof -
  obtain i j where e: "ends f blocks ! k = (i, Suc j)" using ends_nth [OF assms(1)] by metis
  have fe: "file_end s f blocks = ends f blocks ! (length (ends f blocks) - 1)"
    using assms by (auto simp: file_end_def last_conv_nth)
  show ?thesis
  proof (cases k)
    case 0
    have "s \<le> i" using assms(2) nth_mem [OF assms(1)] e by (auto simp: starts_at_def list_all_iff)
    then have "before (s, 0) (i, Suc j)" by (auto simp: before_def)
    moreover have "ends f blocks ! 0 = file_end s f blocks \<or> before (ends f blocks ! 0) (file_end s f blocks)"
      using fe sorted_wrt_nth_less [OF ends_sorted, of 0 "length (ends f blocks) - 1" f blocks] assms 0
      by (cases "length (ends f blocks) - 1 = 0") auto
    ultimately show ?thesis
      using e 0 by (cases "file_end s f blocks") (auto simp: stop_at_def before_def)
  next
    case (Suc m)
    then show ?thesis
      using fe sorted_wrt_nth_less [OF ends_sorted, of m "length (ends f blocks) - 1" f blocks] assms
      by (simp add: stop_at_def)
  qed
qed

lemma next_before_end:
  assumes "k < length (ends f blocks)" "ends f blocks ! k = (i, Suc j)" "starts_at s f blocks"
  shows "before (i, j) (file_end s f blocks)"
proof -
  have "(i, Suc j) = file_end s f blocks \<or> before (i, Suc j) (file_end s f blocks)"
  proof (cases "Suc k = length (ends f blocks)")
    case True
    then have "stop_at s f blocks (Suc k) = file_end s f blocks" using stop_at_last [of s f blocks] by simp
    then show ?thesis using assms(2) by (simp add: stop_at_def)
  next
    case False
    then have "before (stop_at s f blocks (Suc k)) (file_end s f blocks)"
      using assms(1,3) by (intro stop_at_before_end) simp_all
    then show ?thesis using assms(2) by (simp add: stop_at_def)
  qed
  then show ?thesis by (cases "file_end s f blocks") (auto simp: before_def)
qed

section \<open>Iterating\<close>

text \<open>The iterator has returned \<open>k\<close> records of file \<open>f\<close> and will stop at the end of the file.\<close>

definition iter_after :: "log_entry list list \<Rightarrow> u8 \<Rightarrow> nat \<Rightarrow> fkfs_file_iter_t \<Rightarrow> bool" where
  "iter_after blocks f k iter \<longleftrightarrow> k \<le> length (ends f blocks)
     \<and> (\<exists>s. starts_at s f blocks \<and> iter_at blocks f (stop_at s f blocks k) (file_end s f blocks) iter)"

lemma iterator_valid_at:
  assumes "represents invar addressable readable contents limit fs blocks" "iter_at blocks f p q iter"
    and "before p q"
  shows "fkfs_file_iterator_valid fs iter"
proof -
  have pq: "fst p < length blocks" "fst q < length blocks" "in_log blocks p" "in_log blocks q"
    using assms(2) by (simp_all add: iter_at_def in_log_def)
  note r = represents_parts [OF assms(1)]
  note area = log_area_block [OF r(5)]
  have u: "unat (log_block (fst p)) = 8000 + fst p" "unat (log_block (fst q)) = 8000 + fst q"
    "unat (header_block (fs_header fs)) = 8000 + (length blocks - 1)"
    using area(3) pq r(8,9,14) by simp_all
  have "position_offset blocks p \<le> position_offset blocks q" if "fst p = fst q"
    using unat_position_offset(1) [OF assms(1) pq(3)] unat_position_offset(1) [OF assms(1) pq(4)]
      chain_length_take_mono [of "snd p" "snd q" "blocks ! fst q"] assms(3) that
    by (simp add: word_le_nat_alt before_def)
  then show ?thesis
    using assms(2,3) u pq(1)
    by (auto simp: fkfs_file_iterator_valid_def iter_at_def before_def word_less_nat_alt
        word_le_nat_alt Let_def)
qed

lemma represents_stat:
  "represents invar addressable readable contents limit fs blocks \<Longrightarrow>
   represents invar addressable readable contents limit (fs_stat_update g fs) blocks"
  using represents_device [of invar addressable readable contents limit fs blocks "fs_sd fs" "g (fs_statistics fs)"]
    represents_parts(1) [of invar addressable readable contents limit fs blocks]
  by (simp add: fs_stat_update_def)

lemma same_meta_stat [simp]: "same_meta fs (fs_stat_update g fs)"
  by (simp add: same_meta_def fs_stat_update_def)

context reliable_device
begin

text \<open>One call: from \<open>start\<close> the iteration finds the next record \<open>p\<close> of the file.\<close>

lemma iterate_finds:
  assumes "represents invar addressable readable contents limit fs blocks" "\<not> fs_cachedBlockDirty fs"
    and "scannable blocks" "iter_at blocks f start q iter" "next_record blocks f start p" "before p q"
    and "reaches config (config_maxBlocks config) (fst p - fst start)"
  obtains fs' where "fkfs_file_iterate P fs config iter = Some (True, fs', iter_hit config blocks p iter)"
    "represents invar addressable readable contents limit fs' blocks" "same_meta fs fs'"
    "mem_read (fs_buffer fs') (chain_length (take (snd p) (blocks ! fst p)) + 7)
       (length (snd (blocks ! fst p ! snd p))) = Some (snd (blocks ! fst p ! snd p))"
proof -
  have bq: "before start q" using assms(5,6) by (auto simp: next_record_def before_def)
  define fs0 where "fs0 = fs_stat_update (\<lambda>s. s\<lparr>stat_iterateCalls := stat_iterateCalls s + 1\<rparr>) fs"
  have r0: "represents invar addressable readable contents limit fs0 blocks" "same_meta fs fs0"
    unfolding fs0_def by (simp_all add: represents_stat [OF assms(1)])
  obtain t fs1 where m1: "fs_millis P fs0 = (t, fs1)"
    and r1: "represents invar addressable readable contents limit fs1 blocks" "same_meta fs0 fs1"
    using represents_millis [OF r0(1)] by metis
  have meta1: "same_meta fs fs1" using same_meta_trans [OF r0(2) r1(2)] .
  have clean: "\<not> fs_cachedBlockDirty fs1" using meta1 assms(2) by (simp add: same_meta_def)
  from scan_finds [OF r1(1) clean assms(4-6,3,7), of t t]
  obtain fs2 where s: "scan_loop P config t (fs1, iter, t, config_maxBlocks config) =
      Some (True, fs2, iter_hit config blocks p iter)"
    and r2: "represents invar addressable readable contents limit fs2 blocks" "same_meta fs1 fs2"
    and d: "mem_read (fs_buffer fs2) (chain_length (take (snd p) (blocks ! fst p)) + 7)
       (length (snd (blocks ! fst p ! snd p))) = Some (snd (blocks ! fst p ! snd p))"
    by blast
  obtain t3 fs3 where m3: "fs_millis P fs2 = (t3, fs3)"
    and r3: "represents invar addressable readable contents limit fs3 blocks" "same_meta fs2 fs3"
      "fs_buffer fs3 = fs_buffer fs2"
    using represents_millis [OF r2(1)] by metis
  let ?fs4 = "fs_stat_update (\<lambda>s. s\<lparr>stat_iterateTime := stat_iterateTime s + (t3 - t)\<rparr>) fs3"
  have it: "fkfs_file_iterate P fs config iter = Some (True, ?fs4, iter_hit config blocks p iter)"
    using iterator_valid_at [OF r0(1) assms(4) bq] iterator_done_iff [OF assms(1,4)] bq m1 s m3
    by (simp add: fkfs_file_iterate_def fs0_def [symmetric] Let_def)
  moreover have "same_meta fs ?fs4"
    using same_meta_trans [OF same_meta_trans [OF meta1 r2(2)] same_meta_trans [OF r3(2) same_meta_stat]] .
  moreover have "fs_buffer ?fs4 = fs_buffer fs2" using r3(3) by (simp add: fs_stat_update_def)
  ultimately show thesis using represents_stat [OF r3(1)] d by (intro that [OF it]) simp_all
qed

lemma iterate_next:
  assumes "represents invar addressable readable contents limit fs blocks" "\<not> fs_cachedBlockDirty fs"
    and "scannable blocks" "iter_after blocks f k iter" "k < length (ends f blocks)"
    and "reaches config (config_maxBlocks config) (length blocks)"
  obtains fs' iter' off where "fkfs_file_iterate P fs config iter = Some (True, fs', iter')"
    "represents invar addressable readable contents limit fs' blocks" "same_meta fs fs'"
    "\<not> config_manualNext config \<Longrightarrow> iter_after blocks f (Suc k) iter'"
    "iter_data iter' = Some off" "iter_size iter' = of_nat (length (file_records f blocks ! k))"
    "mem_read (fs_buffer fs') off (length (file_records f blocks ! k)) = Some (file_records f blocks ! k)"
proof -
  obtain i j where e: "ends f blocks ! k = (i, Suc j)" "i < length blocks" "j < length (blocks ! i)"
    using ends_nth [OF assms(5)] by metis
  obtain s where st: "starts_at s f blocks"
    and at: "iter_at blocks f (stop_at s f blocks k) (file_end s f blocks) iter"
    using assms(4) by (auto simp: iter_after_def)
  let ?start = "stop_at s f blocks k" and ?q = "file_end s f blocks"
  have rec: "file_records f blocks ! k = snd (blocks ! i ! j)"
    using assms(5) e(1) by (simp add: file_records_ends)
  have np: "next_record blocks f ?start (i, j)" using assms(5) e(1) st by (rule next_of_stop)
  have bp: "before (i, j) ?q" using assms(5) e(1) st by (rule next_before_end)
  have "i - fst ?start \<le> length blocks" using e(2) by simp
  then have rc: "reaches config (config_maxBlocks config) (fst (i, j) - fst ?start)"
    using assms(6) by (auto simp: reaches_def)
  obtain fs' where it: "fkfs_file_iterate P fs config iter = Some (True, fs', iter_hit config blocks (i, j) iter)"
    and r: "represents invar addressable readable contents limit fs' blocks" "same_meta fs fs'"
    and d: "mem_read (fs_buffer fs') (chain_length (take (snd (i, j)) (blocks ! fst (i, j))) + 7)
       (length (snd (blocks ! fst (i, j) ! snd (i, j)))) = Some (snd (blocks ! fst (i, j) ! snd (i, j)))"
    by (rule iterate_finds [OF assms(1-3) at np bp rc])
  have "in_log blocks (i, Suc j)" using e(2,3) by (simp add: in_log_def)
  then have "iter_after blocks f (Suc k) (iter_hit config blocks (i, j) iter)" if "\<not> config_manualNext config"
    using iter_at_move [OF at, of "(i, Suc j)"] assms(5) e(1) that st
    by (auto simp: iter_after_def iter_hit_def stop_at_def iter_at_def Let_def)
  with r d show thesis
    by (intro that [OF it, of "chain_length (take j (blocks ! i)) + 7"])
      (simp_all add: rec iter_hit_def Let_def)
qed

lemma iterate_end:
  assumes "represents invar addressable readable contents limit fs blocks"
    and "iter_after blocks f (length (ends f blocks)) iter"
  shows "\<exists>fs'. fkfs_file_iterate P fs config iter = Some (False, fs', iter)
    \<and> represents invar addressable readable contents limit fs' blocks \<and> same_meta fs fs'"
proof -
  obtain s where "iter_at blocks f (file_end s f blocks) (file_end s f blocks) iter"
    using assms(2) by (auto simp: iter_after_def stop_at_last)
  then have "fkfs_file_iterator_done iter"
    using iterator_done_iff [OF assms(1)] by (simp add: before_def)
  then show ?thesis
    using represents_stat [OF assms(1), of "\<lambda>s. s\<lparr>stat_iterateCalls := stat_iterateCalls s + 1\<rparr>"]
      same_meta_stat [of fs "\<lambda>s. s\<lparr>stat_iterateCalls := stat_iterateCalls s + 1\<rparr>"]
    by (auto simp: fkfs_file_iterate_def Let_def)
qed

end

lemma iterator_create_at:
  assumes "represents invar addressable readable contents limit fs blocks" "unat f < 4"
  shows "\<exists>iter'. fkfs_file_iterator_create fs f iter = Some (True, iter') \<and> iter_after blocks f 0 iter'"
proof -
  let ?file = "header_files (fs_header fs) ! unat f"
  obtain s where s: "starts_at s f blocks" "file_startBlock ?file = log_block s" "file_startOffset ?file = 0"
    "file_endBlock ?file = log_block (fst (file_end s f blocks))"
    "file_endOffset ?file = position_offset blocks (file_end s f blocks)"
    using represents_parts(15) [OF assms] by (auto simp: file_matches_def)
  have "in_log blocks (file_end s f blocks)"
    using stop_at_in_log [OF s(1), of "length (ends f blocks)"] by (simp add: stop_at_last)
  moreover have "in_log blocks (s, 0)" using s(1) by (simp add: in_log_def starts_at_def)
  ultimately show ?thesis
    using s assms(2)
    by (auto simp: fkfs_file_iterator_create_def iter_after_def iter_at_def stop_at_def
        position_offset_def Let_def)
qed

end
