(* ===== verification/Fkfs_Roundtrip.thy ===== *)
theory Fkfs_Roundtrip
  imports Fkfs_Scan
begin

text \<open>
  From a wiped card through appends, a synchronisation and a mount to reading the files back. The
  reader is \<^verbatim>\<open>extract\<close> of \<^verbatim>\<open>testing/read.cpp\<close>, which iterates over a file and writes every record to
  an output stream.
\<close>

section \<open>The reader\<close>

text \<open>The \<^verbatim>\<open>while\<close> loop of \<^verbatim>\<open>extract\<close>; \<open>out\<close> is what was written to the stream.\<close>

partial_function (option) extract_loop ::
  "'d platform \<Rightarrow> fkfs_iterator_config_t \<Rightarrow> 'd fkfs_t \<Rightarrow> fkfs_file_iter_t \<Rightarrow> bytes
     \<Rightarrow> (bytes \<times> 'd fkfs_t) option" where
  "extract_loop P config fs iter out = do {
     (more, fs, iter) \<leftarrow> fkfs_file_iterate P fs config iter;
     if more then do {
       data \<leftarrow> iter_data iter;
       bs \<leftarrow> mem_read (fs_buffer fs) data (unat (iter_size iter));
       extract_loop P config fs iter (out @ bs)
     }
     else Some (out, fs)
   }"

definition iter_zero :: fkfs_file_iter_t where
  "iter_zero = \<lparr> iter_token = fkfs_token_empty, iter_data = None, iter_size = 0, iter_iterated = 0 \<rparr>"

text \<open>\<open>opened\<close> is the outcome of \<^verbatim>\<open>fopen\<close> on the output file, whose contents are the second
  component of the result.\<close>

definition extract_file ::
  "'d platform \<Rightarrow> 'd fkfs_t \<Rightarrow> u8 \<Rightarrow> bool \<Rightarrow> (bool \<times> bytes \<times> 'd fkfs_t) option" where
  "extract_file P fs file opened =
     (if \<not> opened then Some (False, [], fs)
      else do {
        (_, iter) \<leftarrow> fkfs_file_iterator_create fs file iter_zero;
        (out, fs) \<leftarrow> extract_loop P
          \<lparr> config_maxBlocks = UINT32_MAX, config_maxTime = 0, config_manualNext = False \<rparr> fs iter [];
        Some (True, out, fs)
      })"

text \<open>Appending a list of records, giving up at the first failure.\<close>

fun append_all :: "'d platform \<Rightarrow> 'd fkfs_t \<Rightarrow> log_record list \<Rightarrow> (bool \<times> 'd fkfs_t) option" where
  "append_all P fs [] = Some (True, fs)"
| "append_all P fs (r # rs) = do {
     (ok, fs) \<leftarrow> fkfs_file_append P fs (fst r) (of_nat (length (snd r))) (snd r);
     if \<not> ok then Some (False, fs) else append_all P fs rs
   }"

text \<open>The card is large enough for \<open>limit\<close> blocks of log.\<close>

definition capacity :: "('d \<Rightarrow> bool) \<Rightarrow> 'd platform \<Rightarrow> nat \<Rightarrow> bool" where
  "capacity invar P limit \<longleftrightarrow>
     (\<forall>d n d'. invar d \<longrightarrow> plat_card_size P d = Some (n, d') \<longrightarrow> 8000 + limit \<le> unat (n - 2))"

section \<open>Reading a file back\<close>

lemma file_records_bound:
  "d \<in> set (file_records f blocks) \<Longrightarrow> list_all valid_entry (concat blocks) \<Longrightarrow> length d \<le> 505"
  by (auto simp: file_records_def list_all_iff valid_entry_def valid_record_def)

context reliable_device
begin

lemma extract_loop_reads:
  assumes "represents invar addressable readable contents limit fs blocks" "\<not> fs_cachedBlockDirty fs"
    and "scannable blocks" "iter_after blocks f k iter"
    and "reaches config (config_maxBlocks config) (length blocks)" "\<not> config_manualNext config"
    and "list_all valid_entry (concat blocks)"
  shows "\<exists>fs'. extract_loop P config fs iter out =
      Some (out @ concat (drop k (file_records f blocks)), fs')
    \<and> represents invar addressable readable contents limit fs' blocks \<and> same_meta fs fs'"
  using assms(1,2,4)
proof (induction "length (ends f blocks) - k" arbitrary: fs iter k out)
  case 0
  then have k: "k = length (ends f blocks)" by (simp add: iter_after_def)
  from iterate_end [OF 0(2) 0(4) [unfolded k], of config]
  obtain fs1 where "fkfs_file_iterate P fs config iter = Some (False, fs1, iter)"
    and r: "represents invar addressable readable contents limit fs1 blocks" "same_meta fs fs1"
    by blast
  then have "extract_loop P config fs iter out = Some (out, fs1)"
    by (subst extract_loop.simps) simp
  then show ?case using r k by (simp add: length_file_records)
next
  case (Suc n)
  have k: "k < length (ends f blocks)" using Suc.hyps(2) by simp
  let ?d = "file_records f blocks ! k"
  obtain fs1 iter1 off where i: "fkfs_file_iterate P fs config iter = Some (True, fs1, iter1)"
    and r: "represents invar addressable readable contents limit fs1 blocks" "same_meta fs fs1"
    and a: "iter_after blocks f (Suc k) iter1"
    and d: "iter_data iter1 = Some off" "iter_size iter1 = of_nat (length ?d)"
      "mem_read (fs_buffer fs1) off (length ?d) = Some ?d"
    using iterate_next [OF Suc.prems(1,2) assms(3) Suc.prems(3) k assms(5)] assms(6) by metis
  have "k < length (file_records f blocks)" using k by (simp add: length_file_records)
  then have dr: "drop k (file_records f blocks) = ?d # drop (Suc k) (file_records f blocks)"
    by (rule Cons_nth_drop_Suc [symmetric])
  have "?d \<in> set (file_records f blocks)" using \<open>k < length (file_records f blocks)\<close> by (rule nth_mem)
  then have "length ?d \<le> 505" using assms(7) by (rule file_records_bound)
  then have sz: "unat (iter_size iter1) = length ?d" using d(2) by (simp add: unat_of_nat)
  have clean: "\<not> fs_cachedBlockDirty fs1" using r(2) Suc.prems(2) by (simp add: same_meta_def)
  have "n = length (ends f blocks) - Suc k" using Suc.hyps(2) by simp
  from Suc.hyps(1) [OF this r(1) clean a, of "out @ ?d"] obtain fs2 where
    l: "extract_loop P config fs1 iter1 (out @ ?d) =
      Some ((out @ ?d) @ concat (drop (Suc k) (file_records f blocks)), fs2)"
    and r2: "represents invar addressable readable contents limit fs2 blocks" "same_meta fs1 fs2"
    by blast
  have "extract_loop P config fs iter out = Some (out @ concat (drop k (file_records f blocks)), fs2)"
    using i d(1,3) sz l by (subst extract_loop.simps) (simp add: dr)
  then show ?case using r2 same_meta_trans [OF r(2) r2(2)] by blast
qed

lemma represents_valid_records:
  assumes "represents invar addressable readable contents limit fs blocks"
  shows "list_all valid_entry (concat blocks)"
proof -
  have "list_all valid_entry rs" if "rs \<in> set blocks" for rs
    using represents_chain(4) [OF assms] that by (metis in_set_conv_nth)
  then show ?thesis by (auto simp: list_all_iff)
qed

lemma extract_reads:
  assumes "represents invar addressable readable contents limit fs blocks" "\<not> fs_cachedBlockDirty fs"
    and "scannable blocks" "unat f < 4"
  shows "\<exists>fs'. extract_file P fs f True = Some (True, concat (file_records f blocks), fs')
    \<and> represents invar addressable readable contents limit fs' blocks \<and> same_meta fs fs'"
proof -
  let ?c = "\<lparr> config_maxBlocks = UINT32_MAX, config_maxTime = 0, config_manualNext = False \<rparr>"
  obtain iter where c: "fkfs_file_iterator_create fs f iter_zero = Some (True, iter)"
    and a: "iter_after blocks f 0 iter"
    using iterator_create_at [OF assms(1,4)] by blast
  have "8000 + limit < 2 ^ 32 - 1" using represents_parts(5) [OF assms(1)] by (simp add: log_area_def)
  then have "reaches ?c (config_maxBlocks ?c) (length blocks)"
    using represents_parts(8) [OF assms(1)] by (simp add: reaches_def)
  from extract_loop_reads [OF assms(1-3) a this _ represents_valid_records [OF assms(1)], of "[]"]
  show ?thesis using c by (auto simp: extract_file_def)
qed

end

section \<open>Appending many records\<close>

lemma length_place_mono: "blocks \<noteq> [] \<Longrightarrow> length blocks \<le> length (place blocks r)"
  by (simp add: place_def make_room_def)

lemma place_nonempty [simp]: "place blocks r \<noteq> []"
  by (simp add: place_def)

lemma length_foldl_place: "blocks \<noteq> [] \<Longrightarrow> length blocks \<le> length (foldl place blocks rs)"
proof (induction rs arbitrary: blocks)
  case (Cons r rs)
  have "length (place blocks r) \<le> length (foldl place (place blocks r) rs)" by (rule Cons.IH) simp
  then show ?case using length_place_mono [OF Cons.prems, of r] by simp
qed simp

lemma concat_foldl_place: "blocks \<noteq> [] \<Longrightarrow> concat (foldl place blocks rs) = concat blocks @ map stored rs"
  by (induction rs arbitrary: blocks) (simp_all add: concat_place)

context reliable_device
begin

lemma represents_append_all:
  assumes "represents invar addressable readable contents limit fs blocks" "list_all valid_record rs"
    and "length (foldl place blocks rs) \<le> limit"
    and "sealed_at contents g fs" "saved contents fs" "g + 2 * length rs < 2 ^ 32"
  shows "\<exists>fs'. append_all P fs rs = Some (True, fs')
    \<and> represents invar addressable readable contents limit fs' (foldl place blocks rs)
    \<and> sealed_at contents (g + 2 * length rs) fs' \<and> saved contents fs'"
  using assms
proof (induction rs arbitrary: fs blocks g)
  case Nil
  then show ?case by simp
next
  case (Cons r rs)
  have v: "valid_record r" "list_all valid_record rs" using Cons.prems(2) by simp_all
  have "length (place blocks r) \<le> length (foldl place (place blocks r) rs)"
    by (rule length_foldl_place) simp
  then have len: "length (place blocks r) \<le> limit" using Cons.prems(3) by simp
  obtain fs1 where a: "fkfs_file_append P fs (fst r) (of_nat (length (snd r))) (snd r @ []) = Some (True, fs1)"
    and r1: "represents invar addressable readable contents limit fs1 (place blocks r)"
      "saved contents fs1"
    and s1: "\<And>g. sealed_at contents g fs \<Longrightarrow> g + 2 < 2 ^ 32 \<Longrightarrow> sealed_at contents (g + 2) fs1"
    using represents_append [OF Cons.prems(1) v(1) len, of "[]"] by metis
  have "sealed_at contents (g + 2) fs1" using Cons.prems(4,6) by (intro s1) simp_all
  moreover have "length (foldl place (place blocks r) rs) \<le> limit" using Cons.prems(3) by simp
  moreover have "g + 2 + 2 * length rs < 2 ^ 32" using Cons.prems(6) by simp
  ultimately obtain fs2 where "append_all P fs1 rs = Some (True, fs2)"
    "represents invar addressable readable contents limit fs2 (foldl place (place blocks r) rs)"
    "sealed_at contents (g + 2 + 2 * length rs) fs2" "saved contents fs2"
    using Cons.IH [OF r1(1) v(2) _ _ r1(2)] by blast
  then show ?case using a by (auto simp: add.commute add.left_commute)
qed

end

lemma file_records_stored:
  "map snd (filter (\<lambda>e. fst e = (f, 0)) (map stored rs)) = map snd (filter (\<lambda>r. fst r = f) rs)"
  by (induction rs) simp_all

section \<open>Wiping and mounting\<close>

text \<open>An object as \<^verbatim>\<open>fkfs_create\<close> leaves it, up to the configuration of the files: nothing cached,
  the log at the start of its block.\<close>

definition fresh_object :: "'d fkfs_t \<Rightarrow> bool" where
  "fresh_object fs \<longleftrightarrow> wf_fs fs \<and> fs_cachedBlockNumber fs = 0 \<and> \<not> fs_cachedBlockDirty fs
     \<and> header_offset (fs_header fs) = 0"

text \<open>The log area of a card nothing was ever written to.\<close>

definition erased_area ::
  "(u32 \<Rightarrow> bool) \<Rightarrow> ('d \<Rightarrow> u32 \<Rightarrow> bool) \<Rightarrow> ('d \<Rightarrow> u32 \<Rightarrow> bytes) \<Rightarrow> nat \<Rightarrow> 'd \<Rightarrow> bool" where
  "erased_area addressable readable contents limit d \<longleftrightarrow>
     (\<forall>i<limit. addressable (log_block i) \<and> readable d (log_block i) \<and> erased (contents d (log_block i)))
     \<and> 0 < limit \<and> 8000 + limit < 2 ^ 32 - 1"

lemma empty_log_matches:
  assumes "empty_file_at FKFS_FIRST_BLOCK file"
  shows "file_matches [[]] f file"
proof -
  have "ends f [[]] = []" by (simp add: ends_def)
  then show ?thesis
    using assms by (auto simp: file_matches_def empty_file_at_def file_end_def position_offset_def
        starts_at_def file_records_def log_block_def)
qed

lemma block_holds_erased: "length blk = 512 \<Longrightarrow> erased blk \<Longrightarrow> block_holds vers [] blk"
  by (simp add: block_holds_def)

lemma capacity_card_size:
  "capacity invar P limit \<Longrightarrow> invar d \<Longrightarrow> plat_card_size P d = Some (n, d') \<Longrightarrow> 8000 + limit \<le> unat (n - 2)"
  by (auto simp: capacity_def)

lemma bind_SomeE:
  assumes "Option.bind m f = Some x"
  obtains y where "m = Some y" "f y = Some x"
  using assms by (cases m) simp_all

text \<open>Only \<^verbatim>\<open>fkfs_initialize\<close> itself sets the number of blocks.\<close>

lemma read_block_size:
  "fkfs_read_block P fs b buf = Some (ok, buf', fs') \<Longrightarrow> fs_numberOfBlocks fs' = fs_numberOfBlocks fs"
  by (auto simp: fkfs_read_block_def fs_millis_def fs_stat_update_def bind_eq_Some_conv Let_def
      case_prod_beta)

lemma write_block_size:
  "fkfs_write_block P fs b buf = Some (ok, fs') \<Longrightarrow> fs_numberOfBlocks fs' = fs_numberOfBlocks fs"
  by (auto simp: fkfs_write_block_def fs_millis_def fs_stat_update_def bind_eq_Some_conv Let_def
      case_prod_beta)

lemma header_write_size:
  "fkfs_header_write P fs wipe = Some (ok, fs') \<Longrightarrow> fs_numberOfBlocks fs' = fs_numberOfBlocks fs"
  by (auto simp: fkfs_header_write_def bind_eq_Some_conv Let_def split: if_splits
      dest!: read_block_size write_block_size)

lemma initialize_wipe_size:
  "fkfs_initialize_wipe P fs = Some (ok, fs') \<Longrightarrow> fs_numberOfBlocks fs' = fs_numberOfBlocks fs"
  unfolding fkfs_initialize_wipe_def Let_def case_prod_beta
  by (elim bind_SomeE) (auto dest!: header_write_size split: if_splits elim!: bind_SomeE)

lemma initialize_load_size:
  "fkfs_initialize_load fs = Some (ok, fs') \<Longrightarrow> fs_numberOfBlocks fs' = fs_numberOfBlocks fs"
  by (auto simp: fkfs_initialize_load_def bind_eq_Some_conv Let_def)

lemma initialize_card_size:
  assumes "fkfs_initialize P fs wipe = Some (ok, fs')"
  shows "\<exists>d'. plat_card_size P (fs_sd fs) = Some (fs_numberOfBlocks fs', d')"
  using assms
  by (auto simp: fkfs_initialize_def bind_eq_Some_conv Let_def split: if_splits
      dest!: read_block_size initialize_wipe_size initialize_load_size)

context reliable_device
begin

lemma wipe_represents:
  assumes "invar (fs_sd fs)" "fresh_object fs" "addressable 0" "readable (fs_sd fs) 0"
    and "erased_area addressable readable contents limit (fs_sd fs)" "capacity invar P limit"
    and "wipe \<or> (\<not> fkfs_header_crc_valid (header_at (contents (fs_sd fs) 0) 0)
           \<and> \<not> fkfs_header_crc_valid (header_at (contents (fs_sd fs) 0) 1))"
  obtains fs' where "fkfs_initialize P fs wipe = Some (True, fs')"
    "represents invar addressable readable contents limit fs' [[]]"
    "sealed_at contents 1 fs'" "saved contents fs'" "fs_files fs' = fs_files fs"
proof -
  have wf: "wf_fs fs" using assms(2) by (simp add: fresh_object_def)
  from fkfs_initialize_wipes [OF assms(1) wf assms(3,4,7)]
  obtain fs' where eq: "fkfs_initialize P fs wipe = Some (True, fs')"
    and sd: "invar (fs_sd fs')" "readable (fs_sd fs') 0" "wf_fs fs'" "mounted (contents (fs_sd fs') 0) fs'"
      "header_at (contents (fs_sd fs') 0) (unat (fs_headerIndex fs')) = fs_header fs'"
    and h: "header_block (fs_header fs') = FKFS_FIRST_BLOCK" "header_generation (fs_header fs') = 1"
      "header_offset (fs_header fs') = header_offset (fs_header fs)"
      "list_all (empty_file_at FKFS_FIRST_BLOCK) (header_files (fs_header fs'))"
    and f: "fs_files fs' = fs_files fs" "fs_cachedBlockNumber fs' = fs_cachedBlockNumber fs"
      "fs_cachedBlockDirty fs' = fs_cachedBlockDirty fs"
    and fr: "\<And>c. readable (fs_sd fs) c \<Longrightarrow> c \<noteq> 0 \<Longrightarrow>
       contents (fs_sd fs') c = contents (fs_sd fs) c \<and> readable (fs_sd fs') c"
    by blast
  have n: "8000 + limit \<le> unat (fs_numberOfBlocks fs' - 2)"
    using initialize_card_size [OF eq] capacity_card_size [OF assms(6,1)] by blast
  have blk: "addressable (log_block i)" "readable (fs_sd fs') (log_block i)" "log_block i \<noteq> 0"
    "erased (contents (fs_sd fs') (log_block i))" if "i < limit" for i
  proof -
    have "8000 + i < 2 ^ 32 - 1" using assms(5) that by (simp add: erased_area_def)
    then show nz: "log_block i \<noteq> 0" by (rule log_block_neq)
    show "addressable (log_block i)" "readable (fs_sd fs') (log_block i)"
      "erased (contents (fs_sd fs') (log_block i))"
      using assms(5) fr [of "log_block i"] nz that by (simp_all add: erased_area_def)
  qed
  have c: "fs_cachedBlockNumber fs' = 0" "\<not> fs_cachedBlockDirty fs'" using f assms(2) by (simp_all add: fresh_object_def)
  have area: "log_area addressable readable limit fs'"
    using blk n assms(5) by (simp add: log_area_def erased_area_def)
  have view: "block_view contents fs' (log_block i) = contents (fs_sd fs') (log_block i)" if "i < limit" for i
    using c(1) blk(3) [OF that] by (auto simp: block_view_def)
  have holds: "log_holds contents limit fs' [[]]"
    unfolding log_holds_def
  proof (intro allI impI)
    fix i assume i: "i < limit"
    have "block_holds (versions fs') [] (block_view contents fs' (log_block i))"
      unfolding view [OF i] using contents_length [OF sd(1) blk(2) [OF i]] blk(4) [OF i]
      by (rule block_holds_erased)
    then show "block_holds (versions fs') (if i < length [[]] then [[]] ! i else [])
        (block_view contents fs' (log_block i))" by (cases i) simp_all
  qed
  have cache: "cache_ok contents limit fs'" using c blk(3) by (auto simp: cache_ok_def)
  have "length (header_files (fs_header fs')) = 4" using sd(3) by (simp add: wf_fs_def wf_header_def)
  then have "file_matches [[]] x (header_files (fs_header fs') ! unat x)" if "unat x < 4" for x
    using h(4) that by (intro empty_log_matches) (simp add: list_all_length)
  then have "represents invar addressable readable contents limit fs' [[]]"
    using sd(1-3) assms(2,3,5) area holds cache h(1,3)
    by (simp add: represents_def fresh_object_def erased_area_def log_block_def Suc_le_eq)
  moreover have "sealed_at contents 1 fs'" "saved contents fs'"
    using sd(4,5) h(2) by (simp_all add: sealed_at_def saved_def)
  ultimately show thesis using eq f(1) by (intro that)
qed

end

text \<open>Touching and flushing rewrite the header in its slot, with a new time.\<close>

lemma select_same_generation:
  assumes "length blk = 512" "wf_header h" "fkfs_header_crc_valid h" "mounted blk fs"
    and "header_generation h = header_generation (fs_header fs)"
  shows "mounted (put_header blk (unat (fs_headerIndex fs)) h) (fs\<lparr>fs_header := h\<rparr>)"
proof -
  have i: "unat (fs_headerIndex fs) < 2" using assms(4) by (simp add: mounted_def Let_def)
  note put = header_at_put_same [OF assms(1,2)] header_at_put_other [OF assms(1,2)]
  from u8_lt2 [OF i] show ?thesis
    using assms(3-5) put(1) [of 0] put(1) [of 1] put(2) [of 0 1] put(2) [of 1 0]
    by (elim disjE) (simp_all add: mounted_def select_header_index_def Let_def split: if_splits)
qed

context reliable_device
begin

lemma represents_touch:
  assumes "represents invar addressable readable contents limit fs blocks"
  obtains fs' where "fkfs_touch P fs time = Some (True, fs')"
    "represents invar addressable readable contents limit fs' blocks"
    "fs_cachedBlockDirty fs' = fs_cachedBlockDirty fs" "saved contents fs'"
    "\<And>g. sealed_at contents g fs \<Longrightarrow> sealed_at contents g fs'"
proof -
  note p = represents_parts [OF assms]
  let ?h = "seal_header ((fs_header fs)\<lparr>header_time := time\<rparr>)"
  obtain sd st where e: "fkfs_touch P fs time = Some (True, fs\<lparr>fs_header := ?h, fs_sd := sd, fs_statistics := st\<rparr>)"
      (is "_ = Some (True, ?fs')")
    and sd: "invar sd" "readable sd 0"
      "contents sd 0 = put_header (contents (fs_sd fs) 0) (unat (fs_headerIndex fs)) ?h"
      "\<And>c. readable (fs_sd fs) c \<Longrightarrow> c \<noteq> 0 \<Longrightarrow> contents sd c = contents (fs_sd fs) c \<and> readable sd c"
    using fkfs_touch_ok [OF p(1-4)] by metis
  have blk: "contents sd (log_block k) = contents (fs_sd fs) (log_block k)" "readable sd (log_block k)"
    if "k < limit" for k
    using sd(4) log_area_block(2,4) [OF p(5) that] by simp_all
  have wf: "wf_header ?h" "fkfs_header_crc_valid ?h" using p(12) by (simp_all add: seal_header_valid)
  have area: "log_area addressable readable limit ?fs'" using p(5) blk(2) by (simp add: log_area_def)
  have cache: "cache_ok contents limit ?fs'" using p(6) blk(1) by (auto simp: cache_ok_def)
  have holds: "log_holds contents limit ?fs' blocks"
  proof -
    have "block_view contents ?fs' (log_block k) = block_view contents fs (log_block k)" if "k < limit" for k
      using blk(1) [OF that] by (simp add: block_view_def)
    moreover have "versions ?fs' = versions fs" by (simp add: versions_def)
    ultimately show ?thesis using p(11) by (simp add: log_holds_def)
  qed
  have r: "represents invar addressable readable contents limit ?fs' blocks"
    using p wf area cache holds sd(1,2) by (simp add: represents_def wf_fs_def)
  have len: "length (contents (fs_sd fs) 0) = 512" using p(1,4) by (rule contents_length)
  have "unat (fs_headerIndex fs) < 2" using p(2) by (simp add: wf_fs_def)
  then have sv: "saved contents ?fs'" using header_at_put_same [OF len wf(1)] sd(3) by (simp add: saved_def)
  have "sealed_at contents g ?fs'" if "sealed_at contents g fs" for g
    using that select_same_generation [OF len wf, of fs] sd(3)
    by (simp add: sealed_at_def mounted_def)
  with e r sv show thesis by (intro that [of ?fs']) simp_all
qed

lemma represents_flush:
  assumes "represents invar addressable readable contents limit fs blocks"
  obtains fs' where "fkfs_flush P fs = Some (True, fs')"
    "represents invar addressable readable contents limit fs' blocks"
    "\<not> fs_cachedBlockDirty fs'" "saved contents fs'"
    "\<And>g. sealed_at contents g fs \<Longrightarrow> Suc g < 2 ^ 32 \<Longrightarrow> sealed_at contents (Suc g) fs'"
proof -
  obtain t fs1 where m: "fs_millis P fs = (t, fs1)"
    and r1: "represents invar addressable readable contents limit fs1 blocks"
    and s1: "\<And>g. sealed_at contents g fs1 = sealed_at contents g fs"
  proof -
    obtain t d where "plat_millis P (fs_sd fs) = (t, d)" and d: "invar d"
      "contents d = contents (fs_sd fs)" "readable d = readable (fs_sd fs)"
      using millis_obtain [OF represents_parts(1) [OF assms]] by blast
    then show thesis
      using represents_device [OF assms d, of "fs_statistics fs"]
      by (intro that [of t "fs\<lparr>fs_sd := d\<rparr>"]) (simp_all add: fs_millis_def sealed_at_def mounted_def)
  qed
  obtain fs2 where t: "fkfs_touch P fs1 t = Some (True, fs2)"
    and r2: "represents invar addressable readable contents limit fs2 blocks" "saved contents fs2"
    and s2: "\<And>g. sealed_at contents g fs1 \<Longrightarrow> sealed_at contents g fs2"
    using represents_touch [OF r1] by metis
  obtain fs3 where f: "fkfs_fsync P fs2 = Some (True, fs3)"
    and r3: "represents invar addressable readable contents limit fs3 blocks"
      "\<not> fs_cachedBlockDirty fs3" "saved contents fs3"
    and s3: "\<And>g. sealed_at contents g fs2 \<Longrightarrow> Suc g < 2 ^ 32 \<Longrightarrow> sealed_at contents (Suc g) fs3"
    using represents_fsync [OF r2(1)] r2(2) by metis
  show thesis
    using m t f s1 s2 s3 by (intro that [OF _ r3]) (simp_all add: fkfs_flush_def)
qed

end

text \<open>The names are not part of what a log means.\<close>

lemma with_names_nth:
  assumes "wf_header h" "wf_header cfg" "i < 4"
  shows "header_files (with_names h cfg) ! i = copy_name (header_files h ! i) (header_files cfg ! i)"
  using assms by (simp add: with_names_def wf_header_def)

lemma versions_with_names:
  assumes "wf_header h" "wf_header cfg"
  shows "map file_version (header_files (with_names h cfg)) = map file_version (header_files h)"
proof (rule nth_equalityI)
  have len: "length (header_files (with_names h cfg)) = 4" "length (header_files h) = 4"
    using assms by (simp_all add: wf_header_def with_names_def)
  then show "length (map file_version (header_files (with_names h cfg))) =
      length (map file_version (header_files h))" by simp
  fix i assume "i < length (map file_version (header_files (with_names h cfg)))"
  then show "map file_version (header_files (with_names h cfg)) ! i = map file_version (header_files h) ! i"
    using len with_names_nth [OF assms, of i] by (simp add: copy_name_def)
qed

lemma file_matches_copy_name [simp]: "file_matches blocks f (copy_name file cfg) = file_matches blocks f file"
  by (simp add: file_matches_def copy_name_def)

context reliable_device
begin

lemma remount_represents:
  assumes "represents invar addressable readable contents limit fs blocks" "\<not> fs_cachedBlockDirty fs"
    and "sealed_at contents g fs" "saved contents fs" "capacity invar P limit"
    and "fs_sd fs2 = fs_sd fs" "fresh_object fs2"
  obtains fs3 where "fkfs_initialize P fs2 False = Some (True, fs3)"
    "represents invar addressable readable contents limit fs3 blocks" "\<not> fs_cachedBlockDirty fs3"
    "fs_files fs3 = fs_files fs2" "sealed_at contents g fs3"
proof -
  note p = represents_parts [OF assms(1)]
  let ?blk = "contents (fs_sd fs2) 0"
  let ?i = "select_header_index (header_at ?blk 0) (header_at ?blk 1)"
  have m: "mounted ?blk fs" using assms(3,6) by (simp add: sealed_at_def)
  have i: "?i = fs_headerIndex fs" "unat (fs_headerIndex fs) < 2"
    and valid: "fkfs_header_crc_valid (header_at ?blk (unat (fs_headerIndex fs)))"
    using m by (simp_all add: mounted_def Let_def)
  have cur: "header_at ?blk (unat ?i) = fs_header fs" using assms(2,4,6) i(1) by (simp add: saved_def)
  have v: "fkfs_header_crc_valid (header_at ?blk 0) \<or> fkfs_header_crc_valid (header_at ?blk 1)"
    using valid u8_lt2 [OF i(2)] by auto
  have wf2: "wf_fs fs2" "wf_header (fs_header fs2)" using assms(7) by (simp_all add: fresh_object_def wf_fs_def)
  have pre: "invar (fs_sd fs2)" "readable (fs_sd fs2) 0" using p(1,4) assms(6) by simp_all
  let ?h = "with_names (fs_header fs) (fs_header fs2)"
  from fkfs_initialize_load_ok [OF pre(1) wf2(1) p(3) pre(2) v, unfolded cur]
  obtain n sd st where eq: "fkfs_initialize P fs2 False = Some (True, fs2\<lparr>fs_numberOfBlocks := n,
      fs_headerIndex := ?i, fs_header := ?h, fs_buffer := put_header ?blk (unat ?i) ?h, fs_sd := sd,
      fs_statistics := st\<rparr>)" (is "_ = Some (True, ?fs3)")
    and sd: "invar sd" "contents sd = contents (fs_sd fs2)" "readable sd = readable (fs_sd fs2)"
    by blast
  have wfh: "wf_header ?h" using p(12) wf2(2) by (rule wf_with_names)
  have "length ?blk = 512" using pre by (rule contents_length)
  then have wf3: "wf_fs ?fs3"
    using wf2(1) wfh i put_header_length [of ?blk ?h "unat ?i"] by (simp add: wf_fs_def)
  have n: "8000 + limit \<le> unat (fs_numberOfBlocks ?fs3 - 2)"
    using initialize_card_size [OF eq] capacity_card_size [OF assms(5) pre(1)] by blast
  have area: "log_area addressable readable limit ?fs3"
    using p(5) n sd assms(6) by (simp add: log_area_def)
  have nz: "fs_cachedBlockNumber ?fs3 \<noteq> log_block k" if "k < limit" for k
    using log_area_block(4) [OF p(5) that] assms(7) by (simp add: fresh_object_def)
  have cache: "cache_ok contents limit ?fs3"
    using nz assms(7) by (auto simp: cache_ok_def fresh_object_def)
  have vers: "versions ?fs3 = versions fs"
    using versions_with_names [OF p(12) wf2(2)] by (simp add: versions_def)
  have view: "block_view contents ?fs3 (log_block k) = block_view contents fs (log_block k)" if "k < limit" for k
    using nz [OF that] log_view [OF p(6) assms(2) that] sd assms(6) by (simp add: block_view_def)
  have holds: "log_holds contents limit ?fs3 blocks"
    unfolding log_holds_def
  proof (intro allI impI)
    fix k assume k: "k < limit"
    show "block_holds (versions ?fs3) (if k < length blocks then blocks ! k else [])
        (block_view contents ?fs3 (log_block k))"
      unfolding vers view [OF k] using p(11) k by (simp only: log_holds_def)
  qed
  have "file_matches blocks f (header_files (fs_header ?fs3) ! unat f)" if "unat f < 4" for f
    using p(15) [OF that] with_names_nth [OF p(12) wf2(2) that] by simp
  then have "represents invar addressable readable contents limit ?fs3 blocks"
    using wf3 area cache holds sd p(1,3,4,7-10) assms(6) by (simp add: represents_def)
  moreover have "sealed_at contents g ?fs3"
    using assms(3,6) m sd(2) i(1) by (simp add: sealed_at_def mounted_def)
  ultimately show thesis using assms(7) by (intro that [OF eq]) (simp_all add: fresh_object_def)
qed

end

context reliable_device
begin

text \<open>What is on the card, another object reads back. Its device may be in another state, as long as
  the blocks are the same.\<close>

lemma remount_extracts:
  assumes "represents invar addressable readable contents limit fs blocks" "\<not> fs_cachedBlockDirty fs"
    and "sealed_at contents g fs" "saved contents fs" "capacity invar P limit" "scannable blocks"
    and other: "invar (fs_sd fs2)" "contents (fs_sd fs2) = contents (fs_sd fs)"
      "readable (fs_sd fs2) = readable (fs_sd fs)" "fresh_object fs2"
    and "unat f < 4"
  shows "\<exists>fs3 fs4. fkfs_initialize P fs2 False = Some (True, fs3)
    \<and> extract_file P fs3 f True = Some (True, concat (file_records f blocks), fs4)"
proof -
  let ?fs = "fs\<lparr>fs_sd := fs_sd fs2, fs_statistics := fs_statistics fs\<rparr>"
  have r: "represents invar addressable readable contents limit ?fs blocks"
    using represents_device [OF assms(1) other(1-3)] .
  have s: "\<not> fs_cachedBlockDirty ?fs" "sealed_at contents g ?fs" "saved contents ?fs" "fs_sd fs2 = fs_sd ?fs"
    using assms(2-4) other(2) by (simp_all add: sealed_at_def mounted_def saved_def)
  obtain fs3 where "fkfs_initialize P fs2 False = Some (True, fs3)"
    and "represents invar addressable readable contents limit fs3 blocks" "\<not> fs_cachedBlockDirty fs3"
    using remount_represents [OF r s(1-3) assms(5) s(4) other(4)] by blast
  then show ?thesis using extract_reads [OF _ _ assms(6,11)] by blast
qed

text \<open>A wipe, appends, a synchronisation and a mount by another object, on one device.\<close>

lemma appends_survive:
  assumes fs: "invar (fs_sd fs)" "fresh_object fs" "addressable 0" "readable (fs_sd fs) 0"
    and card: "erased_area addressable readable contents limit (fs_sd fs)" "capacity invar P limit"
    and rs: "list_all valid_record rs" "length (foldl place [[]] rs) \<le> limit"
      "scannable (foldl place [[]] rs)" "2 * length rs + 2 < 2 ^ 32"
  shows "\<exists>fs1 fs2 fs3. fkfs_initialize P fs True = Some (True, fs1)
    \<and> append_all P fs1 rs = Some (True, fs2)
    \<and> fkfs_fsync P fs2 = Some (True, fs3)
    \<and> invar (fs_sd fs3)
    \<and> (\<forall>fs4 f. invar (fs_sd fs4) \<and> contents (fs_sd fs4) = contents (fs_sd fs3)
         \<and> readable (fs_sd fs4) = readable (fs_sd fs3) \<and> fresh_object fs4 \<and> unat f < 4 \<longrightarrow>
         (\<exists>fs5 fs6. fkfs_initialize P fs4 False = Some (True, fs5)
            \<and> extract_file P fs5 f True =
                Some (True, concat (map snd (filter (\<lambda>r. fst r = f) rs)), fs6)))"
proof -
  let ?bs = "foldl place [[]] rs"
  obtain fs1 where i: "fkfs_initialize P fs True = Some (True, fs1)"
    and r1: "represents invar addressable readable contents limit fs1 [[]]"
      "sealed_at contents 1 fs1" "saved contents fs1"
    using wipe_represents [OF fs card, of True] by blast
  have "1 + 2 * length rs < 2 ^ 32" using rs(4) by simp
  from represents_append_all [OF r1(1) rs(1,2) r1(2,3) this]
  obtain fs2 where a: "append_all P fs1 rs = Some (True, fs2)"
    and r2: "represents invar addressable readable contents limit fs2 ?bs"
      "sealed_at contents (1 + 2 * length rs) fs2" "saved contents fs2"
    by blast
  have g: "Suc (1 + 2 * length rs) < 2 ^ 32" using rs(4) by simp
  obtain fs3 where s: "fkfs_fsync P fs2 = Some (True, fs3)"
    and r3: "represents invar addressable readable contents limit fs3 ?bs" "\<not> fs_cachedBlockDirty fs3"
      "saved contents fs3" "sealed_at contents (Suc (1 + 2 * length rs)) fs3"
    using represents_fsync [OF r2(1)] r2(2,3) g by metis
  have "file_records f ?bs = map snd (filter (\<lambda>r. fst r = f) rs)" for f
    using concat_foldl_place [of "[[]]" rs] file_records_stored [of f rs] by (simp add: file_records_def)
  then show ?thesis
    using i a s represents_parts(1) [OF r3(1)] remount_extracts [OF r3(1,2,4,3) card(2) rs(3)]
    by (intro exI [of _ fs1] exI [of _ fs2] exI [of _ fs3] conjI) (simp_all only: refl, blast)
qed

end

section \<open>Properties\<close>

text \<open>C6: an append on an erased card refines the abstract log. Every valid record is accepted, the
  object then represents the log with the record placed at its end (in the current block or, when
  it does not fit, at the start of the next), and a file has the new record exactly when it was
  appended to it.\<close>

theorem append_refines_place:
  assumes "reliable_device P invar addressable readable contents"
    and "represents invar addressable readable contents limit fs blocks"
    and "valid_record r" "length (place blocks r) \<le> limit"
  shows "\<exists>fs'. fkfs_file_append P fs (fst r) (of_nat (length (snd r))) (snd r @ slack) = Some (True, fs')
    \<and> represents invar addressable readable contents limit fs' (place blocks r)
    \<and> (\<forall>f. file_records f (place blocks r) =
          file_records f blocks @ (if fst r = f then [snd r] else []))"
proof -
  have "blocks \<noteq> []" using represents_parts(7) [OF assms(2)] .
  then show ?thesis
    using reliable_device.represents_append [OF assms, of slack thesis for thesis] file_records_place
    by metis
qed

text \<open>C9: the extraction tool reads back exactly the records of a file, in order, and returns, for an object
  that represents a log, has nothing unwritten in its cache (a move of the cache would drop it,
  \<^verbatim>\<open>fkfs.cpp\<close> line 184), and whose blocks but the last all leave room for one more header (the scan reads
  it, line 723).\<close>

theorem extract_reads_file:
  assumes "reliable_device P invar addressable readable contents"
    and "represents invar addressable readable contents limit fs blocks" "\<not> fs_cachedBlockDirty fs"
    and "scannable blocks" "unat f < 4"
  shows "\<exists>fs'. extract_file P fs f True = Some (True, concat (file_records f blocks), fs')
    \<and> represents invar addressable readable contents limit fs' blocks"
  using reliable_device.extract_reads [OF assms] by blast

text \<open>C1: the whole path. On every device that meets the contract and holds an erased log area of \<open>limit\<close>
  blocks, wipe the card with a fresh object, append a list of records, synchronise, and mount the
  card with another fresh object, whose device may be in another state as long as its blocks are the
  same: every step succeeds, and extracting a file gives the concatenation of the data appended to
  it, in order. The conditions on the list: every record has 1 to 505 bytes and a file below 4, the log
  of the records fits the erased blocks and leaves seven bytes in every block but the last (the scan
  reads one more header there, \<^verbatim>\<open>fkfs.cpp\<close> line 723, and would leave the buffer: 505 bytes and then one more
  record do so), and there are fewer than $2^{31} - 1$ records.\<close>

theorem appends_survive_remount:
  assumes dev: "reliable_device P invar addressable readable contents"
    and fs: "invar (fs_sd fs)" "fresh_object fs" "addressable 0" "readable (fs_sd fs) 0"
    and card: "erased_area addressable readable contents limit (fs_sd fs)" "capacity invar P limit"
    and rs: "list_all valid_record rs" "length (foldl place [[]] rs) \<le> limit"
      "scannable (foldl place [[]] rs)" "2 * length rs + 2 < 2 ^ 32"
  shows "\<exists>fs1 fs2 fs3. fkfs_initialize P fs True = Some (True, fs1)
    \<and> append_all P fs1 rs = Some (True, fs2)
    \<and> fkfs_fsync P fs2 = Some (True, fs3)
    \<and> invar (fs_sd fs3)
    \<and> (\<forall>fs4 f. invar (fs_sd fs4) \<and> contents (fs_sd fs4) = contents (fs_sd fs3)
         \<and> readable (fs_sd fs4) = readable (fs_sd fs3) \<and> fresh_object fs4 \<and> unat f < 4 \<longrightarrow>
         (\<exists>fs5 fs6. fkfs_initialize P fs4 False = Some (True, fs5)
            \<and> extract_file P fs5 f True =
                Some (True, concat (map snd (filter (\<lambda>r. fst r = f) rs)), fs6)))"
  by (rule reliable_device.appends_survive [OF dev fs card rs])

end
