(* ===== verification/Fkfs_Log_Props.thy ===== *)
theory Fkfs_Log_Props
  imports Fkfs_Log Fkfs_Roundtrip
begin

text \<open>
  The text log on top of the file system. What was logged is the data already appended to the file
  followed by what still sits in the buffer; every operation of \<^verbatim>\<open>fkfs_log.cpp\<close> that takes bytes adds
  exactly those bytes at the end of it.
\<close>

definition log_stream :: "log_entry list list \<Rightarrow> fkfs_log_t \<Rightarrow> bytes" where
  "log_stream blocks log = concat (file_records (log_file log) blocks)
     @ take (unat (log_position log)) (log_buffer log)"

text \<open>The log as its client keeps it.\<close>

definition log_ok :: "fkfs_log_t \<Rightarrow> bool" where
  "log_ok log \<longleftrightarrow> wf_log log \<and> unat (log_file log) < FKFS_FILES_MAX
     \<and> unat (log_position log) \<le> FKFS_MAXIMUM_BLOCK_SIZE"

lemma length_place_le: "length (place blocks r) \<le> Suc (length blocks)" if "blocks \<noteq> []"
  using that by (simp add: place_def make_room_def)

lemma ucast_position: "ucast (w :: u32) = (of_nat (unat w) :: u16)"
  by simp

section \<open>Copying into the buffer\<close>

lemma log_copy:
  assumes "log_ok log" "unat copy \<le> length ptr" "unat (log_position log) + unat copy \<le> 505"
  obtains buffer where "mem_write (log_buffer log) (unat (log_position log)) (take (unat copy) ptr) = Some buffer"
    "log_ok (log\<lparr>log_buffer := buffer, log_position := log_position log + copy\<rparr>)"
    "log_stream blocks (log\<lparr>log_buffer := buffer, log_position := log_position log + copy\<rparr>) =
      log_stream blocks log @ take (unat copy) ptr"
    "unat (log_position log + copy) = unat (log_position log) + unat copy"
proof -
  let ?p = "unat (log_position log)"
  let ?b = "take ?p (log_buffer log) @ take (unat copy) ptr @ drop (?p + unat copy) (log_buffer log)"
  have len: "length (log_buffer log) = 505" using assms(1) by (simp add: log_ok_def wf_log_def)
  have pos: "unat (log_position log + copy) = ?p + unat copy"
    using assms(3) by (simp add: unat_word_ariths)
  show thesis
  proof (rule that [of ?b])
    show "mem_write (log_buffer log) ?p (take (unat copy) ptr) = Some ?b"
      using assms(2,3) len by (simp add: mem_write_def)
    show "log_ok (log\<lparr>log_buffer := ?b, log_position := log_position log + copy\<rparr>)"
      using assms len pos by (simp add: log_ok_def wf_log_def)
    show "log_stream blocks (log\<lparr>log_buffer := ?b, log_position := log_position log + copy\<rparr>) =
        log_stream blocks log @ take (unat copy) ptr"
      using assms(2,3) len pos by (simp add: log_stream_def)
  qed (rule pos)
qed

text \<open>One pass of the copy loop when the bytes do not reach the end of the buffer, and when they do.\<close>

lemma log_copy_part:
  assumes "log_ok log" "unat required \<le> length ptr" "unat (log_position log) + unat required < 505"
  obtains log' where "log_copy_loop P log fs ptr required = Some (True, log', fs)" "log_ok log'"
    "log_file log' = log_file log" "log_stream blocks log' = log_stream blocks log @ take (unat required) ptr"
proof (cases "required = 0")
  case True
  then show thesis using assms(1) by (intro that [of log]) (simp_all add: log_copy_loop.simps)
next
  case False
  have copy: "\<not> required > 505 - log_position log"
    using assms(3) by (simp add: word_less_nat_alt unat_sub word_le_nat_alt)
  have "unat (log_position log) + unat required \<le> 505" using assms(3) by simp
  then obtain buffer where b: "mem_write (log_buffer log) (unat (log_position log)) (take (unat required) ptr) = Some buffer"
    "log_ok (log\<lparr>log_buffer := buffer, log_position := log_position log + required\<rparr>)"
    "log_stream blocks (log\<lparr>log_buffer := buffer, log_position := log_position log + required\<rparr>) =
      log_stream blocks log @ take (unat required) ptr"
    "unat (log_position log + required) = unat (log_position log) + unat required"
    using log_copy [OF assms(1,2)] by blast
  have "\<not> log_position log + required \<ge> 505" using b(4) assms(3) by (simp add: word_le_nat_alt)
  then have "log_copy_loop P log fs ptr required =
      Some (True, log\<lparr>log_buffer := buffer, log_position := log_position log + required\<rparr>, fs)"
    using False copy b(1) assms(2)
    by (subst log_copy_loop.simps) (simp add: mem_read_def log_copy_loop.simps [of _ _ _ _ 0])
  then show thesis using b by (intro that) simp_all
qed

lemma log_copy_fill:
  assumes "log_ok log" "required \<noteq> 0" "unat required \<le> length ptr"
    and "505 \<le> unat (log_position log) + unat required"
  obtains log' where "log_copy_loop P log fs ptr required = (case fkfs_log_flush P log' fs of None \<Rightarrow> None
      | Some (ok, log'', fs'') \<Rightarrow> if \<not> ok then Some (False, log'', fs'')
          else log_copy_loop P log'' fs'' (drop (505 - unat (log_position log)) ptr) (required - (505 - log_position log)))"
    "log_ok log'" "log_position log' = 505" "log_file log' = log_file log"
    "log_stream blocks log' = log_stream blocks log @ take (505 - unat (log_position log)) ptr"
    "unat (required - (505 - log_position log)) = unat required - (505 - unat (log_position log))"
proof -
  let ?n = "505 - log_position log"
  have n: "unat ?n = 505 - unat (log_position log)" "unat (log_position log) \<le> 505"
    using assms(1) by (simp_all add: log_ok_def unat_sub word_le_nat_alt)
  then have copy: "(if required > ?n then ?n else required) = ?n"
    using assms(4) by (auto simp: word_less_nat_alt word_unat_eq_iff)
  obtain buffer where b: "mem_write (log_buffer log) (unat (log_position log)) (take (unat ?n) ptr) = Some buffer"
    "log_ok (log\<lparr>log_buffer := buffer, log_position := log_position log + ?n\<rparr>)"
    "log_stream blocks (log\<lparr>log_buffer := buffer, log_position := log_position log + ?n\<rparr>) =
      log_stream blocks log @ take (unat ?n) ptr"
  proof -
    have "unat ?n \<le> length ptr" "unat (log_position log) + unat ?n \<le> 505" using n assms(3,4) by simp_all
    then show thesis using log_copy [OF assms(1)] that by blast
  qed
  have "mem_read ptr 0 (unat ?n) = Some (take (unat ?n) ptr)"
    using n assms(3,4) by (simp add: mem_read_def)
  then have eq: "log_copy_loop P log fs ptr required = (case fkfs_log_flush P (log\<lparr>log_buffer := buffer, log_position := 505\<rparr>) fs of
      None \<Rightarrow> None | Some (ok, log'', fs'') \<Rightarrow> if \<not> ok then Some (False, log'', fs'')
        else log_copy_loop P log'' fs'' (drop (unat ?n) ptr) (required - ?n))"
    using assms(2) b(1) by (subst log_copy_loop.simps) (simp add: copy Let_def del: if_not_P)
  have left: "unat (required - ?n) = unat required - unat ?n"
    using n assms(4) by (intro unat_sub) (simp add: word_le_nat_alt)
  show thesis
    by (rule that [OF eq [unfolded n(1)] _ _ _ _ left [unfolded n(1)]]) (use b n in simp_all)
qed

context reliable_device
begin

lemma log_flush_conserves:
  assumes "represents invar addressable readable contents limit fs blocks" "log_ok log"
    and "0 < unat (log_position log)" "Suc (length blocks) \<le> limit"
  obtains log' fs' blocks' where "fkfs_log_flush P log fs = Some (True, log', fs')"
    "represents invar addressable readable contents limit fs' blocks'" "log_ok log'"
    "log_position log' = 0" "log_file log' = log_file log" "length blocks' \<le> Suc (length blocks)"
    "log_stream blocks' log' = log_stream blocks log"
    "\<And>f. f \<noteq> log_file log \<Longrightarrow> file_records f blocks' = file_records f blocks"
proof -
  let ?p = "unat (log_position log)"
  let ?r = "(log_file log, take ?p (log_buffer log))"
  have len: "length (log_buffer log) = 505" using assms(2) by (simp add: log_ok_def wf_log_def)
  have v: "valid_record ?r" using assms(2,3) len by (simp add: valid_record_def log_ok_def)
  have ne: "blocks \<noteq> []" using represents_parts(7) [OF assms(1)] .
  have "length (place blocks ?r) \<le> limit" using length_place_le [OF ne, of ?r] assms(4) by simp
  from represents_append [OF assms(1) v this, of "drop ?p (log_buffer log)"]
  obtain fs' where a: "fkfs_file_append P fs (log_file log) (of_nat (length (take ?p (log_buffer log))))
      (log_buffer log) = Some (True, fs')"
    and r: "represents invar addressable readable contents limit fs' (place blocks ?r)"
    by (metis append_take_drop_id fst_conv snd_conv)
  have "(of_nat (length (take ?p (log_buffer log))) :: u16) = ucast (log_position log)"
    using assms(2) len by (simp add: log_ok_def min_absorb2)
  then have fl: "fkfs_log_flush P log fs = Some (True, (log_terminate log)\<lparr>log_position := 0\<rparr>, fs')"
    using a by (simp add: fkfs_log_flush_def)
  show thesis
    using assms(2) length_place_le [OF ne, of ?r] file_records_place [OF ne, of _ ?r]
    by (intro that [OF fl r]) (simp_all add: log_ok_def wf_log_def log_terminate_def log_stream_def)
qed

lemma log_copy_loop_conserves:
  assumes "represents invar addressable readable contents limit fs blocks" "log_ok log"
    and "unat required \<le> length ptr"
    and "length blocks + (unat (log_position log) + unat required) div 505 \<le> limit"
  shows "\<exists>log' fs' blocks'. log_copy_loop P log fs ptr required = Some (True, log', fs')
    \<and> represents invar addressable readable contents limit fs' blocks' \<and> log_ok log'
    \<and> log_file log' = log_file log \<and> log_stream blocks' log' = log_stream blocks log @ take (unat required) ptr
    \<and> (\<forall>f. f \<noteq> log_file log \<longrightarrow> file_records f blocks' = file_records f blocks)
    \<and> length blocks' \<le> length blocks + (unat (log_position log) + unat required) div 505"
  using assms
proof (induction "2 * unat required + (if log_position log = 505 then 1 else 0)"
    arbitrary: log fs ptr required blocks rule: less_induct)
  case less
  let ?n = "505 - unat (log_position log)"
  have pos: "unat (log_position log) \<le> 505" using less.prems(2) by (simp add: log_ok_def)
  consider "required = 0" | "unat (log_position log) + unat required < 505"
    | "required \<noteq> 0" "505 \<le> unat (log_position log) + unat required"
    by linarith
  then show ?case
  proof cases
    case 1
    then show ?thesis using less.prems by (auto simp: log_copy_loop.simps)
  next
    case 2
    obtain log' where "log_copy_loop P log fs ptr required = Some (True, log', fs)" "log_ok log'"
      "log_file log' = log_file log" "log_stream blocks log' = log_stream blocks log @ take (unat required) ptr"
      by (rule log_copy_part [OF less.prems(2,3) 2, of P fs blocks])
    then show ?thesis using less.prems(1) by (intro exI [of _ log'] exI [of _ fs] exI [of _ blocks]) simp
  next
    case 3
    obtain log1 where l: "log_copy_loop P log fs ptr required = (case fkfs_log_flush P log1 fs of None \<Rightarrow> None
        | Some (ok, log'', fs'') \<Rightarrow> if \<not> ok then Some (False, log'', fs'')
            else log_copy_loop P log'' fs'' (drop ?n ptr) (required - (505 - log_position log)))"
      and l1: "log_ok log1" "log_position log1 = 505" "log_file log1 = log_file log"
        "log_stream blocks log1 = log_stream blocks log @ take ?n ptr"
      and left: "unat (required - (505 - log_position log)) = unat required - ?n" (is "unat ?left = _")
      by (rule log_copy_fill [OF less.prems(2) 3(1) less.prems(3) 3(2), of P fs blocks])
    have sum: "unat (log_position log) + unat required = 505 + unat ?left" using left pos 3(2) by simp
    then have room: "length blocks + 1 + unat ?left div 505 \<le> limit" using less.prems(4) by simp
    then have "0 < unat (log_position log1)" "Suc (length blocks) \<le> limit" using l1(2) by simp_all
    then obtain log2 fs2 blocks2 where fl: "fkfs_log_flush P log1 fs = Some (True, log2, fs2)"
      and r2: "represents invar addressable readable contents limit fs2 blocks2" "log_ok log2"
      and l2: "log_position log2 = 0" "log_file log2 = log_file log" "length blocks2 \<le> Suc (length blocks)"
        "log_stream blocks2 log2 = log_stream blocks log1"
      and o2: "\<And>f. f \<noteq> log_file log \<Longrightarrow> file_records f blocks2 = file_records f blocks"
      using log_flush_conserves [OF less.prems(1) l1(1)] l1(3) by metis
    have "unat (log_position log) = 505 \<Longrightarrow> log_position log = 505" by (simp add: word_unat_eq_iff)
    then have dec: "2 * unat ?left + (if log_position log2 = 505 then 1 else 0) <
        2 * unat required + (if log_position log = 505 then 1 else 0)"
      using l2(1) sum pos by (cases "unat (log_position log) = 505") simp_all
    have room2: "length blocks2 + (unat (log_position log2) + unat ?left) div 505 \<le> limit"
      using l2(1,3) room by simp
    have rest: "unat ?left \<le> length (drop ?n ptr)" using left less.prems(3) by simp
    have "unat required = ?n + unat ?left" using sum pos by simp
    then have tk: "take (unat required) ptr = take ?n ptr @ take (unat ?left) (drop ?n ptr)"
      by (simp only: take_add)
    from less.hyps [OF dec r2 rest room2] obtain log3 fs3 blocks3 where
      "log_copy_loop P log2 fs2 (drop ?n ptr) ?left = Some (True, log3, fs3)"
      "represents invar addressable readable contents limit fs3 blocks3" "log_ok log3"
      "log_file log3 = log_file log2" "log_stream blocks3 log3 = log_stream blocks2 log2 @ take (unat ?left) (drop ?n ptr)"
      "\<forall>f. f \<noteq> log_file log2 \<longrightarrow> file_records f blocks3 = file_records f blocks2"
      "length blocks3 \<le> length blocks2 + (unat (log_position log2) + unat ?left) div 505" by blast
    then show ?thesis
      using l fl l1(4) l2 o2 sum tk by (intro exI [of _ log3] exI [of _ fs3] exI [of _ blocks3]) simp
  qed
qed

end


section \<open>Properties\<close>

text \<open>C17: appending to the log loses and duplicates nothing. On an object that represents a log with
  room for the records the bytes fill, the call succeeds, and what the file holds followed by what
  the buffer holds grows by exactly the bytes given, whether they may be split over two records or
  (when they are shorter than a record) not. The other files keep their records.\<close>

theorem log_append_conserves:
  assumes "reliable_device P invar addressable readable contents"
    and "represents invar addressable readable contents limit fs blocks" "log_ok log"
    and "unat len \<le> length ptr" "canSplit \<or> unat len < FKFS_MAXIMUM_BLOCK_SIZE"
    and "length blocks + 1 + (unat (log_position log) + unat len) div FKFS_MAXIMUM_BLOCK_SIZE \<le> limit"
  shows "\<exists>log' fs' blocks'. fkfs_log_append_binary P log fs ptr len canSplit = Some (True, log', fs')
    \<and> represents invar addressable readable contents limit fs' blocks' \<and> log_ok log'
    \<and> log_file log' = log_file log \<and> log_stream blocks' log' = log_stream blocks log @ take (unat len) ptr
    \<and> (\<forall>f. f \<noteq> log_file log \<longrightarrow> file_records f blocks' = file_records f blocks)"
proof (cases "\<not> canSplit \<and> 505 - log_position log < len")
  case True
  have pos: "unat (log_position log) \<le> 505" using assms(3) by (simp add: log_ok_def)
  then have "505 - unat (log_position log) < unat len"
    using True by (simp add: word_less_nat_alt unat_sub word_le_nat_alt)
  moreover have len: "unat len < 505" using True assms(5) by simp
  ultimately have "0 < unat (log_position log)" "Suc (length blocks) \<le> limit" using assms(6) by simp_all
  then obtain log1 fs1 blocks1 where fl: "fkfs_log_flush P log fs = Some (True, log1, fs1)"
    and r1: "represents invar addressable readable contents limit fs1 blocks1" "log_ok log1"
    and l1: "log_position log1 = 0" "log_file log1 = log_file log" "length blocks1 \<le> Suc (length blocks)"
    and st: "log_stream blocks1 log1 = log_stream blocks log"
    and o1: "\<And>f. f \<noteq> log_file log \<Longrightarrow> file_records f blocks1 = file_records f blocks"
    using reliable_device.log_flush_conserves [OF assms(1-3)] by metis
  have "length blocks1 + (unat (log_position log1) + unat len) div 505 \<le> limit"
    using l1 len assms(6) by simp
  from reliable_device.log_copy_loop_conserves [OF assms(1) r1 assms(4) this]
  obtain log2 fs2 blocks2 where "log_copy_loop P log1 fs1 ptr len = Some (True, log2, fs2)"
    "represents invar addressable readable contents limit fs2 blocks2" "log_ok log2"
    "log_file log2 = log_file log1" "log_stream blocks2 log2 = log_stream blocks1 log1 @ take (unat len) ptr"
    "\<forall>f. f \<noteq> log_file log1 \<longrightarrow> file_records f blocks2 = file_records f blocks1" by blast
  then show ?thesis
    using True len fl l1(2) st o1
    by (intro exI [of _ log2] exI [of _ fs2] exI [of _ blocks2]) (simp add: fkfs_log_append_binary_def word_le_nat_alt)
next
  case False
  have "length blocks + (unat (log_position log) + unat len) div 505 \<le> limit" using assms(6) by simp
  from reliable_device.log_copy_loop_conserves [OF assms(1-4) this] show ?thesis
    unfolding fkfs_log_append_binary_def if_not_P [OF False] by blast
qed

end
