(* ===== verification/Host_Hal.thy ===== *)
theory Host_Hal
  imports Block_Device
begin

text \<open>
  \<^verbatim>\<open>testing/hal.cpp\<close>: the platform of the host build, where the card is an image file accessed
  through \<^verbatim>\<open>stdio\<close>. The file system of the host is a map from paths to bytes; an open stream is a
  path and a position. The system's uptime and the values of \<^verbatim>\<open>rand()\<close> come from outside: the
  k-th reading of each is given by a function in the state.
\<close>

record host =
  host_disk :: "string \<rightharpoonup> bytes"
  host_creatable :: "string \<Rightarrow> bool"
  host_fp :: "(string \<times> nat) option"
  host_uptime :: "nat \<Rightarrow> u32"
  host_ticks :: nat
  host_rand :: "nat \<Rightarrow> u32"
  host_rands :: nat

section \<open>The part of stdio the file uses\<close>

definition host_image :: "host \<Rightarrow> bytes option" where
  "host_image h = Option.bind (host_fp h) (\<lambda>(path, _). host_disk h path)"

definition host_fseek_end :: "host \<Rightarrow> (int \<times> host) option" where
  "host_fseek_end h = do {
     (path, _) \<leftarrow> host_fp h;
     img \<leftarrow> host_disk h path;
     Some (0, h\<lparr>host_fp := Some (path, length img)\<rparr>)
   }"

definition host_fseek_set :: "host \<Rightarrow> nat \<Rightarrow> (int \<times> host) option" where
  "host_fseek_set h position = do {
     (path, _) \<leftarrow> host_fp h;
     Some (0, h\<lparr>host_fp := Some (path, position)\<rparr>)
   }"

definition host_ftell :: "host \<Rightarrow> nat option" where
  "host_ftell h = map_option snd (host_fp h)"

text \<open>\<^verbatim>\<open>fread\<close> returns how many bytes it stored at the front of the destination.\<close>

definition host_fread :: "host \<Rightarrow> bytes \<Rightarrow> nat \<Rightarrow> (nat \<times> bytes \<times> host) option" where
  "host_fread h destiny n = do {
     (path, pos) \<leftarrow> host_fp h;
     img \<leftarrow> host_disk h path;
     let got = take n (drop pos img);
     destiny \<leftarrow> mem_write destiny 0 got;
     Some (length got, destiny, h\<lparr>host_fp := Some (path, pos + length got)\<rparr>)
   }"

text \<open>Writing past the end of a file fills the gap with zeros.\<close>

definition image_write :: "bytes \<Rightarrow> nat \<Rightarrow> bytes \<Rightarrow> bytes" where
  "image_write img pos src =
     (let padded = img @ replicate (pos - length img) 0
      in take pos padded @ src @ drop (pos + length src) padded)"

definition host_fwrite :: "host \<Rightarrow> bytes \<Rightarrow> nat \<Rightarrow> (nat \<times> host) option" where
  "host_fwrite h source n = do {
     (path, pos) \<leftarrow> host_fp h;
     img \<leftarrow> host_disk h path;
     bs \<leftarrow> mem_read source 0 n;
     Some (n, h\<lparr> host_disk := (host_disk h)(path \<mapsto> image_write img pos bs),
                 host_fp := Some (path, pos + n) \<rparr>)
   }"

section \<open>The platform functions\<close>

definition hal_millis :: "host \<Rightarrow> u32 \<times> host" where
  "hal_millis h = (host_uptime h (host_ticks h), h\<lparr>host_ticks := host_ticks h + 1\<rparr>)"

definition hal_random :: "host \<Rightarrow> u32 \<Rightarrow> u32 \<times> host" where
  "hal_random h m = (host_rand h (host_rands h) mod m, h\<lparr>host_rands := host_rands h + 1\<rparr>)"

definition sd_raw_file_initialize :: "host \<Rightarrow> string \<Rightarrow> bool \<times> host" where
  "sd_raw_file_initialize h path =
     (case host_disk h path of
        Some _ \<Rightarrow> (True, h\<lparr>host_fp := Some (path, 0)\<rparr>)
      | None \<Rightarrow>
          if host_creatable h path
          then (True, h\<lparr>host_disk := (host_disk h)(path \<mapsto> []), host_fp := Some (path, 0)\<rparr>)
          else (False, h\<lparr>host_fp := None\<rparr>))"

definition sd_raw_file_close :: "host \<Rightarrow> (bool \<times> host) option" where
  "sd_raw_file_close h = do { _ \<leftarrow> host_fp h; Some (True, h\<lparr>host_fp := None\<rparr>) }"

text \<open>\<^verbatim>\<open>SD_RAW_BLOCK_SIZE * block\<close> is computed in 32 bits.\<close>

definition hal_position :: "u32 \<Rightarrow> u32" where
  "hal_position block = 512 * block"

definition hal_read_block :: "host \<Rightarrow> u32 \<Rightarrow> bytes \<Rightarrow> (bool \<times> bytes \<times> host) option" where
  "hal_read_block h block destiny = do {
     (r, h) \<leftarrow> host_fseek_end h;
     if r \<noteq> 0 then Some (False, destiny, h)
     else do {
       lengthOfFile \<leftarrow> host_ftell h;
       let position = hal_position block;
       if unat (position + 512) > lengthOfFile then Some (True, destiny, h)
       else do {
         (r, h) \<leftarrow> host_fseek_set h (unat position);
         if r \<noteq> 0 then Some (False, destiny, h)
         else do {
           (n, destiny, h) \<leftarrow> host_fread h destiny SD_RAW_BLOCK_SIZE;
           if n \<noteq> SD_RAW_BLOCK_SIZE then Some (False, destiny, h) else Some (True, destiny, h)
         }
       }
     }
   }"

definition hal_write_block :: "host \<Rightarrow> u32 \<Rightarrow> bytes \<Rightarrow> (bool \<times> host) option" where
  "hal_write_block h block source = do {
     (r, h) \<leftarrow> host_fseek_end h;
     if r \<noteq> 0 then Some (False, h)
     else do {
       _ \<leftarrow> host_ftell h;
       (r, h) \<leftarrow> host_fseek_set h (unat (hal_position block));
       if r \<noteq> 0 then Some (False, h)
       else do {
         (n, h) \<leftarrow> host_fwrite h source SD_RAW_BLOCK_SIZE;
         if n \<noteq> SD_RAW_BLOCK_SIZE then Some (False, h) else Some (True, h)
       }
     }
   }"

definition hal_card_size :: "host \<Rightarrow> (u32 \<times> host) option" where
  "hal_card_size h = Some (0, h)"

definition hal_erase :: "host \<Rightarrow> u32 \<Rightarrow> u32 \<Rightarrow> bool \<times> host" where
  "hal_erase h firstBlock lastBlock = (False, h)"

text \<open>\<^verbatim>\<open>sd_raw_file_t\<close> overlays \<^verbatim>\<open>sd_raw_t\<close>, so clearing the structure clears the stream.\<close>

definition host_platform :: "host platform" where
  "host_platform = \<lparr> plat_read_block = hal_read_block, plat_write_block = hal_write_block,
     plat_card_size = hal_card_size, plat_memzero = (\<lambda>h. h\<lparr>host_fp := None\<rparr>),
     plat_millis = hal_millis, plat_random = hal_random \<rparr>"

section \<open>The image as a block store\<close>

definition host_invar :: "host \<Rightarrow> bool" where
  "host_invar h \<longleftrightarrow> host_image h \<noteq> None"

text \<open>The last block below 4 GiB is excluded: its end wraps to zero.\<close>

definition host_addressable :: "u32 \<Rightarrow> bool" where
  "host_addressable b \<longleftrightarrow> unat b < 2 ^ 23 - 1"

definition host_readable :: "host \<Rightarrow> u32 \<Rightarrow> bool" where
  "host_readable h b \<longleftrightarrow> host_addressable b \<and> 512 * unat b + 512 \<le> length (the (host_image h))"

definition host_contents :: "host \<Rightarrow> u32 \<Rightarrow> bytes" where
  "host_contents h b = take 512 (drop (512 * unat b) (the (host_image h)))"

lemma hal_position_exact:
  assumes "host_addressable b"
  shows "unat (hal_position b) = 512 * unat b" "unat (hal_position b + 512) = 512 * unat b + 512"
  using assms by (auto simp: host_addressable_def hal_position_def unat_word_ariths)

lemma host_image_cases:
  assumes "host_invar h"
  obtains path pos img where "host_fp h = Some (path, pos)" "host_disk h path = Some img"
    "host_image h = Some img"
  using assms by (auto simp: host_invar_def host_image_def split: bind_splits)

lemma length_image_write:
  "length (image_write img pos src) = max (length img) (pos + length src)"
  by (auto simp: image_write_def Let_def)

lemma image_write_same: "take (length src) (drop pos (image_write img pos src)) = src"
  by (simp add: image_write_def Let_def)

lemma image_write_before:
  assumes "a + n \<le> pos" "a + n \<le> length img"
  shows "take n (drop a (image_write img pos src)) = take n (drop a img)"
proof -
  have "take (a + n) (image_write img pos src) = take (a + n) img"
    using assms by (simp add: image_write_def Let_def min_def)
  then show ?thesis by (metis take_drop add.commute)
qed

lemma image_write_after:
  assumes "pos + length src \<le> a"
  shows "take n (drop a (image_write img pos src)) = take n (drop a img)"
proof -
  have "drop a (image_write img pos src) = drop a (img @ replicate (pos - length img) 0)"
    using assms by (simp add: image_write_def Let_def min_def)
  also have "\<dots> = drop a img" using assms by simp
  finally show ?thesis by simp
qed

text \<open>The two block operations on an open image, in closed form.\<close>

lemma hal_read_block_readable:
  assumes "host_fp h = Some (path, pos)" "host_disk h path = Some img" "host_readable h b"
    and "length buf = 512"
  shows "hal_read_block h b buf =
    Some (True, host_contents h b, h\<lparr>host_fp := Some (path, 512 * unat b + 512)\<rparr>)"
proof -
  have img: "host_image h = Some img" using assms by (simp add: host_image_def)
  then have len: "512 * unat b + 512 \<le> length img" and a: "host_addressable b"
    using assms(3) by (simp_all add: host_readable_def)
  then show ?thesis using assms img
    by (simp add: hal_read_block_def host_fseek_end_def host_ftell_def host_fseek_set_def
        host_fread_def hal_position_exact mem_write_def host_contents_def Let_def)
qed

lemma hal_read_block_beyond:
  assumes "host_fp h = Some (path, pos)" "host_disk h path = Some img" "host_addressable b"
    and "\<not> host_readable h b"
  shows "hal_read_block h b buf = Some (True, buf, h\<lparr>host_fp := Some (path, length img)\<rparr>)"
proof -
  have "host_image h = Some img" using assms by (simp add: host_image_def)
  then show ?thesis using assms
    by (simp add: hal_read_block_def host_fseek_end_def host_ftell_def hal_position_exact
        host_readable_def)
qed

lemma hal_write_block_open:
  assumes "host_fp h = Some (path, pos)" "host_disk h path = Some img" "host_addressable b"
    and "length src = 512"
  shows "hal_write_block h b src =
    Some (True, h\<lparr> host_disk := (host_disk h)(path \<mapsto> image_write img (512 * unat b) src),
                   host_fp := Some (path, 512 * unat b + 512) \<rparr>)"
  using assms
  by (simp add: hal_write_block_def host_fseek_end_def host_ftell_def host_fseek_set_def
      host_fwrite_def hal_position_exact mem_read_def)

lemma host_image_after_write:
  assumes "host_fp h = Some (path, pos)" "host_disk h path = Some img" "host_addressable b"
    and "length src = 512" "hal_write_block h b src = Some (r, h')"
  shows "r" "host_image h' = Some (image_write img (512 * unat b) src)"
  using assms by (auto simp: hal_write_block_open host_image_def)

lemma host_write_contents:
  assumes "host_invar h" "length src = 512" "host_addressable b" "hal_write_block h b src = Some (r, h')"
  shows "r" "host_invar h'" "host_contents h' b = src" "host_readable h' b"
    and "\<And>c. b \<noteq> c \<Longrightarrow> host_readable h c \<Longrightarrow> host_contents h' c = host_contents h c \<and> host_readable h' c"
proof -
  obtain path pos img where fp: "host_fp h = Some (path, pos)" "host_disk h path = Some img"
    and img: "host_image h = Some img"
    using assms(1) by (rule host_image_cases)
  note w = host_image_after_write [OF fp assms(3,2,4)]
  show r using w by simp
  show "host_invar h'" using w by (simp add: host_invar_def)
  show "host_contents h' b = src"
    using w(2) assms(2) image_write_same [of src "512 * unat b" img] by (simp add: host_contents_def)
  show "host_readable h' b"
    using w(2) assms(2,3) by (simp add: host_readable_def length_image_write)
  fix c
  assume "b \<noteq> c" and rd: "host_readable h c"
  then have ne: "unat b \<noteq> unat c" by (simp add: word_unat_eq_iff)
  have len: "512 * unat c + 512 \<le> length img" using rd img by (simp add: host_readable_def)
  have "take 512 (drop (512 * unat c) (image_write img (512 * unat b) src)) =
      take 512 (drop (512 * unat c) img)"
  proof (cases "unat c < unat b")
    case True
    then show ?thesis using len by (intro image_write_before) simp_all
  next
    case False
    with ne have "unat b < unat c" by simp
    then show ?thesis using assms(2) by (intro image_write_after) simp
  qed
  then show "host_contents h' c = host_contents h c \<and> host_readable h' c"
    using w(2) img rd len by (simp add: host_contents_def host_readable_def length_image_write)
qed

lemma host_read_frame:
  assumes "host_invar h" "length buf = 512" "hal_read_block h b buf = Some (r, buf', h')"
  shows "host_image h' = host_image h \<and> length buf' = 512"
proof -
  obtain path pos img where fp: "host_fp h = Some (path, pos)" "host_disk h path = Some img"
    and img: "host_image h = Some img"
    using assms(1) by (rule host_image_cases)
  from assms(2,3) fp img show ?thesis
    by (auto simp: hal_read_block_def host_fseek_end_def host_ftell_def host_fseek_set_def
        host_fread_def Let_def bind_eq_Some_conv host_image_def split: if_splits
        dest!: mem_write_length)
qed

interpretation host: reliable_device host_platform host_invar host_addressable host_readable
  host_contents
proof (unfold_locales, goal_cases)
  case (1 d b)
  then show ?case by (auto simp: host_readable_def host_contents_def)
next
  case (2 d buf b buf' d')
  obtain path pos img where "host_fp d = Some (path, pos)" "host_disk d path = Some img"
    using 2(1) by (rule host_image_cases)
  with 2 show ?case by (simp add: host_platform_def hal_read_block_readable)
next
  case (3 d buf b r buf' d')
  then have "host_image d' = host_image d \<and> length buf' = 512"
    by (intro host_read_frame) (simp_all add: host_platform_def)
  with 3(1) show ?case
    by (simp add: host_invar_def host_contents_def host_readable_def fun_eq_iff)
next
  case (4 d src b d')
  then show ?case by (simp add: host_platform_def host_write_contents(3,4))
next
  case (5 d src b c r d')
  then show ?case by (auto simp: host_platform_def dest: host_write_contents(5))
next
  case (6 d src b r d')
  then show ?case by (auto simp: host_platform_def dest: host_write_contents(2))
next
  case (7 d n d')
  then show ?case by (simp add: host_platform_def hal_card_size_def)
next
  case (8 d)
  then show ?case
    by (simp add: host_platform_def hal_millis_def host_invar_def host_image_def host_contents_def
        host_readable_def fun_eq_iff)
next
  case (9 d m)
  then show ?case
    by (simp add: host_platform_def hal_random_def host_invar_def host_image_def host_contents_def
        host_readable_def fun_eq_iff)
next
  case (10 d buf b)
  obtain path pos img where "host_fp d = Some (path, pos)" "host_disk d path = Some img"
    using 10(1) by (rule host_image_cases)
  with 10 show ?case
    by (cases "host_readable d b")
      (simp_all add: host_platform_def hal_read_block_readable hal_read_block_beyond)
next
  case (11 d src b)
  obtain path pos img where "host_fp d = Some (path, pos)" "host_disk d path = Some img"
    using 11(1) by (rule host_image_cases)
  with 11 show ?case by (simp add: host_platform_def hal_write_block_open)
next
  case (12 d)
  then show ?case by (simp add: host_platform_def hal_card_size_def)
qed

text \<open>Also on a file that is not open or too short a read keeps the length of its destination.\<close>

interpretation sized_host: sized_platform host_platform
proof
  fix buf b d ok buf' d'
  assume "length buf = SD_RAW_BLOCK_SIZE" "plat_read_block host_platform d b buf = Some (ok, buf', d')"
  then show "length buf' = SD_RAW_BLOCK_SIZE"
    by (auto simp: host_platform_def hal_read_block_def host_fread_def Let_def bind_eq_Some_conv split: if_splits
        dest!: mem_write_length)
qed

end
