(* ===== verification/Fkfs_Examples.thy ===== *)
theory Fkfs_Examples
  imports Fkfs_Roundtrip Host_Hal
begin

text \<open>
  The properties of the file system on a concrete device: the host platform of
  \<^verbatim>\<open>testing/hal.cpp\<close> with a small image. The interpretation of the device contract on that platform
  discharges the contract, and the examples discharge the other hypotheses.
\<close>

section \<open>An image with a header\<close>

definition demo_host :: "bytes \<Rightarrow> host" where
  "demo_host img = \<lparr> host_disk = [''card'' \<mapsto> img], host_creatable = (\<lambda>_. False),
     host_fp = Some (''card'', 0), host_uptime = (\<lambda>n. of_nat n), host_ticks = 0,
     host_rand = (\<lambda>n. of_nat (7 * n + 3)), host_rands = 0 \<rparr>"

definition demo_header :: "u32 \<Rightarrow> fkfs_header_t" where
  "demo_header g = seal_header (header_zero\<lparr>header_block := 1, header_generation := g\<rparr>)"

definition demo_block0 :: "u32 \<Rightarrow> bytes" where
  "demo_block0 g = put_header (memzero 512) 0 (demo_header g)"

definition demo_fs :: "u32 \<Rightarrow> host fkfs_t" where
  "demo_fs g = \<lparr> fs_headerIndex = 0, fs_cachedBlockDirty = True, fs_cachedBlockNumber = 1,
     fs_numberOfBlocks = 0, fs_header = demo_header g,
     fs_sd = demo_host (demo_block0 g @ memzero 1536), fs_buffer = replicate 512 7,
     fs_files = replicate 4 settings_zero, fs_statistics = fkfs_statistics_zero \<rparr>"

lemma demo_header_facts:
  "wf_header (demo_header g)" "fkfs_header_crc_valid (demo_header g)"
  "header_generation (demo_header g) = g" "header_block (demo_header g) = 1"
  using header_of_zeros(1) by (simp_all add: demo_header_def seal_header_valid)

lemma demo_block0_length: "length (demo_block0 g) = 512"
  unfolding demo_block0_def using demo_header_facts(1) by (intro put_header_length) simp_all

lemma demo_slots:
  "header_at (demo_block0 g) 0 = demo_header g"
  "\<not> fkfs_header_crc_valid (header_at (demo_block0 g) 1)"
proof -
  show "header_at (demo_block0 g) 0 = demo_header g"
    unfolding demo_block0_def using demo_header_facts(1) by (intro header_at_put_same) simp_all
  have "header_at (demo_block0 g) 1 = header_at (memzero 512) 1"
    unfolding demo_block0_def using demo_header_facts(1) by (intro header_at_put_other) simp_all
  then show "\<not> fkfs_header_crc_valid (header_at (demo_block0 g) 1)"
    using zero_slot_invalid [of 1] by simp
qed

lemma demo_contents:
  "host_contents (fs_sd (demo_fs g)) 0 = demo_block0 g"
  using demo_block0_length by (simp add: demo_fs_def demo_host_def host_contents_def host_image_def)

lemma demo_device:
  "host_invar (fs_sd (demo_fs g))" "host_addressable 0" "host_addressable 1"
  "host_readable (fs_sd (demo_fs g)) 0"
  using demo_block0_length
  by (simp_all add: demo_fs_def demo_host_def host_invar_def host_image_def host_addressable_def
      host_readable_def)

lemma demo_wf: "wf_fs (demo_fs g)"
  using demo_header_facts(1) by (simp add: wf_fs_def demo_fs_def)

lemma demo_mounted: "mounted (host_contents (fs_sd (demo_fs g)) 0) (demo_fs g)"
proof -
  have "fs_headerIndex (demo_fs g) = 0" "fs_header (demo_fs g) = demo_header g"
    by (simp_all add: demo_fs_def)
  then show ?thesis
    using demo_slots demo_header_facts
    by (simp add: demo_contents mounted_def select_header_index_def)
qed

lemma demo_fields:
  "fs_cachedBlockDirty (demo_fs g)" "header_block (fs_header (demo_fs g)) = 1"
  "header_generation (fs_header (demo_fs g)) = g" "fs_headerIndex (demo_fs g) = 0"
  "fs_header (demo_fs g) = demo_header g"
  using demo_header_facts by (simp_all add: demo_fs_def)

section \<open>The header properties on the image\<close>

theorem fsync_survives_remount_witness:
  "\<exists>fs1. fkfs_fsync host_platform (demo_fs 5) = Some (True, fs1)
    \<and> host_contents (fs_sd fs1) (header_block (fs_header (demo_fs 5))) = fs_buffer (demo_fs 5)
    \<and> header_generation (fs_header fs1) = header_generation (fs_header (demo_fs 5)) + 1"
  using fsync_survives_remount [OF host.reliable_device_axioms demo_device(1) demo_wf demo_device(2,4)
      demo_fields(1), of 5] demo_device(3) demo_mounted [of 5] demo_fields [of 5]
  by auto

theorem wipe_then_remount_witness:
  "\<exists>fs1. fkfs_initialize host_platform (demo_fs 5) True = Some (True, fs1)
    \<and> header_block (fs_header fs1) = FKFS_FIRST_BLOCK
    \<and> list_all (empty_file_at FKFS_FIRST_BLOCK) (header_files (fs_header fs1))"
  using wipe_then_remount [OF host.reliable_device_axioms demo_device(1) demo_wf demo_device(2,4), of 5]
  by auto

theorem mount_takes_newest_valid_witness:
  "\<exists>fs1. fkfs_initialize host_platform (demo_fs 5) False = Some (True, fs1)
    \<and> fs_header fs1 = with_names (demo_header 5) (demo_header 5)"
proof -
  have "\<exists>fs1 i. fkfs_initialize host_platform (demo_fs 5) False = Some (True, fs1) \<and> i < 2
      \<and> fkfs_header_crc_valid (header_at (demo_block0 5) i)
      \<and> fs_header fs1 = with_names (header_at (demo_block0 5) i) (fs_header (demo_fs 5))"
    using mount_takes_newest_valid [OF host.reliable_device_axioms demo_device(1) demo_wf
        demo_device(2,4), of 5 0] demo_slots(1) demo_header_facts(2)
    by (auto simp: demo_contents)
  then show ?thesis
    using demo_slots by (auto simp: demo_fields less_2_cases_iff)
qed

text \<open>The synchronisation of \<open>demo_fs 5\<close>, cut off two bytes before the end of the new header: the checksum is
  still that of the empty slot.\<close>

definition torn_block0 :: bytes where
  "torn_block0 = take 272 (put_header (demo_block0 5) 1 (demo_header 6)) @ drop 272 (demo_block0 5)"

lemma demo_crc: "fkfs_header_crc (demo_header 6) \<noteq> 0"
proof -
  let ?p = "[0, 6, 0, 0, 0, 1, 0, 0, 0, 0, 0, 0, 0, 0, 0] :: bytes"
  have "header_bytes (header_zero\<lparr>header_block := 1, header_generation := 6\<rparr>) = ?p @ replicate 122 0"
    by code_simp
  then have "fkfs_header_crc (demo_header 6) = crc16_update (crc16_update 31337 ?p) (replicate 120 0)"
    using header_of_zeros(1)
    by (simp add: demo_header_def seal_header_def fkfs_header_crc_def [of "header_zero\<lparr>header_block := 1, header_generation := 6\<rparr>"]
)
  moreover have "crc16_update 31337 ?p \<noteq> 0" by code_simp
  ultimately show ?thesis using crc16_seed_inj [of _ "replicate 120 0" 0] by (metis crc16_zeros)
qed

lemma torn_slot: "\<not> fkfs_header_crc_valid (header_at torn_block0 1)"
proof -
  let ?h = "(demo_header 6)\<lparr>header_crc := 0\<rparr>"
  have wf: "wf_header ?h" using demo_header_facts(1) by simp
  have "take 137 (drop 137 torn_block0) = take 135 (header_bytes (demo_header 6)) @ take 2 (drop 272 (demo_block0 5))"
    using demo_header_facts(1) [of 6] demo_block0_length [of 5]
    by (simp add: torn_block0_def put_header_def length_header_bytes)
  also have "take 2 (drop 272 (demo_block0 5)) = [0, 0]"
    using demo_header_facts(1) [of 5]
    by (simp add: demo_block0_def put_header_def length_header_bytes memzero_def numeral_2_eq_2)
  also have "take 135 (header_bytes (demo_header 6)) @ [0, 0] = header_bytes ?h"
    using demo_header_facts(1) [of 6] by (simp add: header_bytes_def wf_header_def length_concat_files le16_def)
  finally have "header_at torn_block0 1 = ?h"
    using header_roundtrip [OF wf, of "[]"] by (simp add: header_at_def)
  then show ?thesis using demo_crc demo_header_facts(1) by (simp add: fkfs_header_crc_valid_def)
qed

lemma demo_next: "seal_header ((demo_header g)\<lparr>header_generation := g'\<rparr>) = demo_header g'"
proof -
  let ?h = "header_zero\<lparr>header_block := 1, header_generation := g'\<rparr>"
  have "(demo_header g)\<lparr>header_generation := g'\<rparr> = ?h\<lparr>header_crc := header_crc (demo_header g)\<rparr>"
    by (simp add: demo_header_def seal_header_def)
  then have "seal_header ((demo_header g)\<lparr>header_generation := g'\<rparr>) = seal_header ?h"
    using header_of_zeros(1) by (simp only: seal_header_def) simp
  then show ?thesis by (simp add: demo_header_def)
qed

theorem torn_header_write_falls_back_witness:
  "\<exists>fs1 fs3. fkfs_fsync host_platform (demo_fs 5) = Some (True, fs1)
    \<and> torn_write (demo_block0 5) (host_contents (fs_sd fs1) 0) torn_block0
    \<and> fkfs_initialize host_platform ((demo_fs 5)\<lparr>fs_sd := demo_host (torn_block0 @ memzero 1536)\<rparr>) False = Some (True, fs3)
    \<and> fs_headerIndex fs3 = 0 \<and> fs_header fs3 = with_names (demo_header 5) (demo_header 5)"
proof -
  let ?fs2 = "(demo_fs 5)\<lparr>fs_sd := demo_host (torn_block0 @ memzero 1536)\<rparr>"
  have l: "length torn_block0 = 512"
    using demo_block0_length put_header_length [OF demo_block0_length demo_header_facts(1), of 1 5 6]
    by (simp add: torn_block0_def)
  have fs2: "host_invar (fs_sd ?fs2)" "wf_fs ?fs2" "host_readable (fs_sd ?fs2) 0" "host_contents (fs_sd ?fs2) 0 = torn_block0"
    using l demo_wf [of 5] by (simp_all add: demo_host_def host_invar_def host_image_def host_readable_def
      host_contents_def wf_fs_def host_addressable_def)
  have b: "host_addressable (header_block (fs_header (demo_fs 5)))" "header_block (fs_header (demo_fs 5)) \<noteq> 0"
    using demo_device(3) by (simp_all add: demo_fields(2))
  note pre = host.reliable_device_axioms demo_device(1) demo_wf demo_device(2,4) demo_fields(1)
  obtain fs0 where
    f: "fkfs_fsync host_platform (demo_fs 5) = Some (True, fs0)" "fs_headerIndex fs0 = 1"
      "host_contents (fs_sd fs0) 0 = put_header (demo_block0 5) 1 (demo_header 6)"
    by (rule reliable_device.fkfs_fsync_ok [OF pre refl b])
      (simp add: demo_fields demo_contents demo_header_facts demo_next)
  moreover have "torn_write (demo_block0 5) (put_header (demo_block0 5) 1 (demo_header 6)) torn_block0"
    using l demo_block0_length put_header_length [OF demo_block0_length demo_header_facts(1), of 1 5 6]
    by (auto simp: torn_write_def torn_block0_def nth_append)
  moreover have "\<exists>fs3. fkfs_initialize host_platform fs2 False = Some (True, fs3) \<and> fs_headerIndex fs3 = 0
      \<and> fs_header fs3 = with_names (demo_header 5) (fs_header fs2)"
    if "host_invar (fs_sd fs2)" "wf_fs fs2" "host_readable (fs_sd fs2) 0" "host_contents (fs_sd fs2) 0 = torn_block0" for fs2
    using torn_header_write_falls_back [OF pre b demo_mounted] f that calculation(4) torn_slot demo_slots(1) [of 5]
    by (auto simp: demo_fields demo_contents)
  from this [OF fs2] have "\<exists>fs3. fkfs_initialize host_platform ?fs2 False = Some (True, fs3) \<and> fs_headerIndex fs3 = 0
      \<and> fs_header fs3 = with_names (demo_header 5) (demo_header 5)" by (simp add: demo_fields)
  ultimately show ?thesis by auto
qed

theorem generation_wrap_mounts_old_header_witness:
  "\<exists>fs1. fkfs_fsync host_platform (demo_fs UINT32_MAX) = Some (True, fs1)
    \<and> (\<exists>fs3. fkfs_initialize host_platform ((demo_fs UINT32_MAX)\<lparr>fs_sd := fs_sd fs1\<rparr>) False = Some (True, fs3)
         \<and> header_generation (fs_header fs3) = UINT32_MAX)"
proof -
  let ?g = "UINT32_MAX" and ?fs = "demo_fs UINT32_MAX"
  have "\<exists>fs1. fkfs_fsync host_platform ?fs = Some (True, fs1) \<and> (\<forall>fs2. fs_sd fs2 = fs_sd fs1 \<and> wf_fs fs2 \<longrightarrow>
      (\<exists>fs3. fkfs_initialize host_platform fs2 False = Some (True, fs3)
        \<and> fs_header fs3 = with_names (demo_header ?g) (fs_header fs2)))"
    using generation_wrap_mounts_old_header [OF host.reliable_device_axioms demo_device(1) demo_wf
        demo_device(2,4) demo_fields(1), of ?g] demo_device(3) demo_mounted [of ?g] demo_fields [of ?g] demo_slots(1)
    by (simp add: demo_contents)
  then obtain fs1 where s: "fkfs_fsync host_platform ?fs = Some (True, fs1)"
    and m: "\<And>fs2. fs_sd fs2 = fs_sd fs1 \<Longrightarrow> wf_fs fs2 \<Longrightarrow>
      \<exists>fs3. fkfs_initialize host_platform fs2 False = Some (True, fs3)
        \<and> fs_header fs3 = with_names (demo_header ?g) (fs_header fs2)"
    by blast
  have "wf_fs (?fs\<lparr>fs_sd := fs_sd fs1\<rparr>)" using demo_wf [of ?g] by (simp add: wf_fs_def)
  then show ?thesis
    using m [of "?fs\<lparr>fs_sd := fs_sd fs1\<rparr>"] s demo_header_facts(3) [of ?g] by auto
qed

section \<open>A card with an erased log\<close>

definition blank_fs :: "host fkfs_t" where
  "blank_fs = \<lparr> fs_headerIndex = 0, fs_cachedBlockDirty = False, fs_cachedBlockNumber = 0,
     fs_numberOfBlocks = 0, fs_header = header_zero,
     fs_sd = demo_host (memzero (512 * 8004)), fs_buffer = memzero 512,
     fs_files = replicate 4 settings_zero, fs_statistics = fkfs_statistics_zero \<rparr>"

definition demo_records :: "log_record list" where
  "demo_records = [(0, [1, 2, 3]), (1, replicate 488 9), (0, [4, 5]), (1, [6])]"

lemma blank_fresh: "fresh_object blank_fs"
  using header_of_zeros(1) by (simp add: fresh_object_def blank_fs_def wf_fs_def header_zero_def)

lemma blank_device: "host_invar (fs_sd blank_fs)" "host_readable (fs_sd blank_fs) 0"
  by (simp_all add: blank_fs_def demo_host_def host_invar_def host_image_def host_addressable_def
      host_readable_def)

lemma blank_area: "erased_area host_addressable host_readable host_contents 3 (fs_sd blank_fs)"
proof -
  have "host_addressable (log_block i) \<and> host_readable (fs_sd blank_fs) (log_block i)
      \<and> erased (host_contents (fs_sd blank_fs) (log_block i))" if "i < 3" for i
  proof -
    have "unat (log_block i) = 8000 + i" using that by (intro unat_log_block) simp
    then show ?thesis
      using that
      by (simp add: blank_fs_def demo_host_def host_readable_def host_addressable_def host_image_def
          host_contents_def erased_def memzero_def list_all_iff)
  qed
  then show ?thesis by (simp add: erased_area_def)
qed

lemma host_capacity: "capacity invar host_platform 3"
  by (simp add: capacity_def host_platform_def hal_card_size_def)

lemma blank_represents:
  "\<exists>fs. fkfs_initialize host_platform blank_fs True = Some (True, fs)
    \<and> represents host_invar host_addressable host_readable host_contents 3 fs [[]]"
  using reliable_device.wipe_represents [OF host.reliable_device_axioms blank_device(1) blank_fresh
      demo_device(2) blank_device(2) blank_area host_capacity, of True] by metis

text \<open>An object that holds one record and has nothing unwritten.\<close>

lemma blank_with_record:
  "\<exists>fs. represents host_invar host_addressable host_readable host_contents 3 fs [[((0, 0), [1, 2, 3])]]
    \<and> \<not> fs_cachedBlockDirty fs"
proof -
  let ?r = "(0, [1, 2, 3]) :: log_record"
  have v: "valid_record ?r" by (simp add: valid_record_def)
  have pl: "place [[]] ?r = [[stored ?r]]" by (simp add: place_def make_room_def fits_def extend_last_def)
  obtain fs where r: "represents host_invar host_addressable host_readable host_contents 3 fs [[]]"
    using blank_represents by blast
  have "length (place [[]] ?r) \<le> 3" by (simp add: pl)
  then obtain fs1 where "represents host_invar host_addressable host_readable host_contents 3 fs1 [[stored ?r]]"
    using reliable_device.represents_append [OF host.reliable_device_axioms r v, of "[]"] pl by metis
  then have "represents host_invar host_addressable host_readable host_contents 3 fs1 [[((0, 0), [1, 2, 3])]]"
    by (simp add: stored_def)
  then show ?thesis
    using reliable_device.represents_fsync [OF host.reliable_device_axioms] by metis
qed

theorem append_refines_place_witness:
  "\<exists>fs fs'. fkfs_initialize host_platform blank_fs True = Some (True, fs)
    \<and> fkfs_file_append host_platform fs 1 3 [7, 8, 9, 0] = Some (True, fs')
    \<and> represents host_invar host_addressable host_readable host_contents 3 fs' [[((1, 0), [7, 8, 9])]]"
proof -
  let ?r = "(1, [7, 8, 9]) :: log_record"
  have v: "valid_record ?r" by (simp add: valid_record_def)
  have pl: "place [[]] ?r = [[stored ?r]]" by (simp add: place_def make_room_def fits_def extend_last_def)
  obtain fs where i: "fkfs_initialize host_platform blank_fs True = Some (True, fs)"
    and r: "represents host_invar host_addressable host_readable host_contents 3 fs [[]]"
    using blank_represents by blast
  have "length (place [[]] ?r) \<le> 3" by (simp add: pl)
  from append_refines_place [OF host.reliable_device_axioms r v this, of "[0]"] i pl
  show ?thesis by (auto simp: stored_def)
qed

theorem extract_reads_file_witness:
  "\<exists>fs fs'. represents host_invar host_addressable host_readable host_contents 3 fs [[((0, 0), [1, 2, 3])]]
    \<and> extract_file host_platform fs 0 True = Some (True, [1, 2, 3], fs')"
proof -
  obtain fs where r: "represents host_invar host_addressable host_readable host_contents 3 fs
      [[((0, 0), [1, 2, 3])]]" "\<not> fs_cachedBlockDirty fs"
    using blank_with_record by blast
  have "scannable [[((0, 0), [1, 2, 3])]]" by (simp add: scannable_def)
  from extract_reads_file [OF host.reliable_device_axioms r this, of 0] r(1)
  show ?thesis by (auto simp: file_records_def)
qed

lemma demo_records_ok:
  "list_all valid_record demo_records" "length (foldl place [[]] demo_records) \<le> 3"
  "scannable (foldl place [[]] demo_records)" "2 * length demo_records + 2 < 2 ^ 32"
proof -
  have bs: "foldl place [[]] demo_records =
      [[((0, 0), [1, 2, 3]), ((1, 0), replicate 488 9)], [((0, 0), [4, 5]), ((1, 0), [6])]]"
    by (simp add: demo_records_def place_def make_room_def fits_def extend_last_def stored_def)
  show "list_all valid_record demo_records" by (simp add: demo_records_def valid_record_def)
  show "length (foldl place [[]] demo_records) \<le> 3" using bs by simp
  show "scannable (foldl place [[]] demo_records)"
    unfolding bs by (simp add: scannable_def less_Suc_eq)
  show "2 * length demo_records + 2 < 2 ^ 32" by (simp add: demo_records_def)
qed

theorem appends_survive_remount_witness:
  "\<exists>fs1 fs2 fs3 fs5 fs6. fkfs_initialize host_platform blank_fs True = Some (True, fs1)
    \<and> append_all host_platform fs1 demo_records = Some (True, fs2)
    \<and> fkfs_fsync host_platform fs2 = Some (True, fs3)
    \<and> fkfs_initialize host_platform (blank_fs\<lparr>fs_sd := fs_sd fs3\<rparr>) False = Some (True, fs5)
    \<and> extract_file host_platform fs5 0 True = Some (True, [1, 2, 3, 4, 5], fs6)"
proof -
  have f: "fresh_object (blank_fs\<lparr>fs_sd := d\<rparr>)" for d
    using blank_fresh by (simp add: fresh_object_def wf_fs_def)
  have out: "concat (map snd (filter (\<lambda>r. fst r = 0) demo_records)) = [1, 2, 3, 4, 5]"
    by (simp add: demo_records_def)
  from appends_survive_remount [OF host.reliable_device_axioms blank_device(1) blank_fresh
      demo_device(2) blank_device(2) blank_area host_capacity demo_records_ok]
  obtain fs1 fs2 fs3 where steps: "fkfs_initialize host_platform blank_fs True = Some (True, fs1)"
    "append_all host_platform fs1 demo_records = Some (True, fs2)"
    "fkfs_fsync host_platform fs2 = Some (True, fs3)"
    and inv: "host_invar (fs_sd fs3)"
    and rd: "\<And>fs4 f. host_invar (fs_sd fs4) \<and> host_contents (fs_sd fs4) = host_contents (fs_sd fs3)
      \<and> host_readable (fs_sd fs4) = host_readable (fs_sd fs3) \<and> fresh_object fs4 \<and> unat f < 4 \<Longrightarrow>
      \<exists>fs5 fs6. fkfs_initialize host_platform fs4 False = Some (True, fs5)
        \<and> extract_file host_platform fs5 f True =
            Some (True, concat (map snd (filter (\<lambda>r. fst r = f) demo_records)), fs6)"
    by blast
  have "\<exists>fs5 fs6. fkfs_initialize host_platform (blank_fs\<lparr>fs_sd := fs_sd fs3\<rparr>) False = Some (True, fs5)
      \<and> extract_file host_platform fs5 0 True = Some (True, [1, 2, 3, 4, 5], fs6)"
    using rd [of "blank_fs\<lparr>fs_sd := fs_sd fs3\<rparr>" 0] f [of "fs_sd fs3"] inv out by simp
  then show ?thesis using steps by blast
qed

end
