(* ===== verification/Fkfs_Safety_Examples.thy ===== *)
theory Fkfs_Safety_Examples
  imports Fkfs_Safety Fkfs_Log_Props Fkfs_Examples
begin

text \<open>
  The properties of \<^verbatim>\<open>Fkfs_Safety\<close> and \<^verbatim>\<open>Fkfs_Log_Props\<close> at concrete inputs, on the host platform
  with the images of \<^verbatim>\<open>Fkfs_Examples\<close>.
\<close>

theorem iterate_delivers_checked_entry_witness:
  "\<exists>fs iter fs' iter' offset.
     fkfs_file_iterate host_platform fs
       \<lparr> config_maxBlocks = 10, config_maxTime = 0, config_manualNext = False \<rparr> iter = Some (True, fs', iter')
     \<and> fkfs_block_check fs' (drop offset (take SD_RAW_BLOCK_SIZE (fs_buffer fs'))) = Some FKFS_OFFSET_SEARCH_STATUS_GOOD
     \<and> iter_data iter' = Some (offset + sizeof_fkfs_entry_t) \<and> fs_header fs' = fs_header fs"
proof -
  let ?bs = "[[((0, 0), [1, 2, 3])]] :: log_entry list list"
  let ?c = "\<lparr> config_maxBlocks = 10, config_maxTime = 0, config_manualNext = False \<rparr>"
  obtain fs where r: "represents host_invar host_addressable host_readable host_contents 3 fs ?bs"
    "\<not> fs_cachedBlockDirty fs"
    using blank_with_record by blast
  obtain iter where a: "iter_after ?bs 0 0 iter"
    using iterator_create_at [OF r(1), of 0] by auto
  have s: "scannable ?bs" by (simp add: scannable_def)
  have k: "0 < length (ends 0 ?bs)" by (simp add: ends_def)
  have c: "reaches ?c (config_maxBlocks ?c) (length ?bs)" by (simp add: reaches_def)
  obtain fs' iter' where i: "fkfs_file_iterate host_platform fs ?c iter = Some (True, fs', iter')"
    using reliable_device.iterate_next [OF host.reliable_device_axioms r s a k c] by blast
  from iterate_delivers_checked_entry [OF i] i show ?thesis by blast
qed

text \<open>A block that starts with a record of file 0 under version 0.\<close>

definition demo_ptr :: bytes where
  "demo_ptr = record_image [0, 0, 0, 0] ((0, 0), [1, 2, 3]) @ memzero 502"

lemma demo_ptr_good: "fkfs_block_check (demo_fs 5) demo_ptr = Some FKFS_OFFSET_SEARCH_STATUS_GOOD"
proof -
  have "versions (demo_fs 5) = [0, 0, 0, 0]"
    by (simp add: versions_def demo_fs_def demo_header_def header_zero_def file_zero_def numeral_eq_Suc)
  then show ?thesis
    using check_record [of "demo_fs 5" "((0, 0), [1, 2, 3])" "memzero 502"] demo_header_facts(1) [of 5]
    by (simp add: demo_ptr_def valid_entry_def valid_record_def demo_fields)
qed

lemma truncate_invalidates_entries_example:
  "\<exists>fs'. fkfs_file_truncate (demo_fs 5) 0 = Some (True, fs')
    \<and> fkfs_block_check fs' demo_ptr = Some FKFS_OFFSET_SEARCH_STATUS_CRC"
proof -
  have wf: "wf_header (fs_header (demo_fs 5))" using demo_header_facts(1) by (simp add: demo_fs_def)
  obtain fs' where t: "fkfs_file_truncate (demo_fs 5) 0 = Some (True, fs')"
    by (simp add: fkfs_file_truncate_def)
  have e: "entry_file (entry_of_bytes (take 7 demo_ptr)) = 0"
    using entry_roundtrip [of _ "[]"] by (simp add: demo_ptr_def record_image_def)
  from truncate_invalidates_entries [OF wf t demo_ptr_good] t e show ?thesis by simp
qed

theorem allocate_stays_in_block_witness:
  "\<exists>fs fs'. fkfs_file_allocate_block host_platform fs 0 10 = Some (True, fs')
    \<and> unat (header_offset (fs_header fs')) + 10 \<le> SD_RAW_BLOCK_SIZE"
proof -
  let ?r = "(0, [1, 2, 3]) :: log_record"
  obtain fs where r: "represents host_invar host_addressable host_readable host_contents 3 fs [[]]"
    using blank_represents by blast
  have v: "valid_record ?r" by (simp add: valid_record_def)
  have l: "length (make_room [[]] ?r) \<le> 3" by (simp add: make_room_def)
  obtain fs' where a: "fkfs_file_allocate_block host_platform fs 0 10 = Some (True, fs')"
    using reliable_device.represents_allocate [OF host.reliable_device_axioms r v l, of 0] by force
  from allocate_stays_in_block [OF a] a show ?thesis by auto
qed

lemma demo_allocate:
  "fkfs_file_allocate_block host_platform (demo_fs 5) 0 1 =
     Some (True, fs_header_map (\<lambda>h. h\<lparr>header_offset := 0\<rparr>) (demo_fs 5))"
proof -
  have f: "header_offset (fs_header (demo_fs 5)) = 0" "header_block (fs_header (demo_fs 5)) = 1"
    "fs_cachedBlockNumber (demo_fs 5) = 1" "fs_buffer (demo_fs 5) = replicate 512 7"
    by (simp_all add: demo_fs_def demo_header_def header_zero_def)
  have "entry_file (entry_of_bytes (replicate 7 7)) = 7" by (simp add: entry_of_bytes_def)
  then have "fkfs_block_check (demo_fs 5) (replicate 512 7) = Some FKFS_OFFSET_SEARCH_STATUS_SIZE"
    by (simp add: fkfs_block_check_def mem_read_def Let_def)
  then have "fkfs_block_available_offset (demo_fs 5) p 1 (replicate 512 7) 0 =
      Some (True, \<lparr> search_offset = 0, search_status = FKFS_OFFSET_SEARCH_STATUS_SIZE \<rparr>)" for p
    by (subst fkfs_block_available_offset.simps) (simp add: Let_def)
  then show ?thesis
    using f by (subst fkfs_file_allocate_block_def, subst allocate_loop.simps)
      (simp add: allocate_move_def fkfs_block_ensure_def)
qed

theorem append_size_guard_witness:
  "fkfs_file_append host_platform (demo_fs 5) 0 0 [] = Some (False, demo_fs 5)
    \<and> fkfs_file_append host_platform (demo_fs 5) 0 506 [] = Some (False, demo_fs 5)
    \<and> fkfs_file_append host_platform (demo_fs 5) 0 65530 (replicate 65530 1) = None"
proof -
  have b: "length (fs_buffer (fs_header_map g (demo_fs 5))) = 512" for g
    by (simp add: fs_header_map_def demo_fs_def)
  have w: "(65537 :: u16) = 1" by (intro word_unat_eq_iff [THEN iffD2]) simp
  show ?thesis
    using append_size_guard [of 0 0 host_platform "demo_fs 5" "[]"]
      append_size_guard [of 0 506 host_platform "demo_fs 5" "[]"]
      append_size_guard [of 0 65530 host_platform "demo_fs 5" "replicate 65530 1"
        "fs_header_map (header_offset_update (\<lambda>_. 0)) (demo_fs 5)"] demo_allocate b
    by (simp add: w del: replicate.simps replicate_Suc)
qed

lemma block_check_reads_past_block_example:
  "fkfs_block_check (demo_fs 5) ([0, 0xFC, 1, 1, 0, 0, 0] @ memzero 505) = None"
proof -
  let ?b = "[0, 0xFC, 1, 1, 0, 0, 0] @ memzero 505 :: bytes"
  have e: "entry_of_bytes (take 7 (drop 0 ?b)) =
      \<lparr> entry_file = 0, entry_size = 508, entry_available = 1, entry_crc = 0 \<rparr>"
    by (simp add: entry_of_bytes_def u16_at_def)
  have "fkfs_block_check (demo_fs 5) (drop 0 ?b) = None"
    using block_check_reads_past_block [of ?b 0 "demo_fs 5"] unfolding e by simp
  then show ?thesis by simp
qed

theorem log_append_conserves_witness:
  "\<exists>fs log' fs' blocks'.
     fkfs_log_append_binary host_platform
       \<lparr> log_file = 1, log_position = 503, log_buffer = replicate 505 7 \<rparr> fs [1, 2, 3, 4, 5] 4 True =
       Some (True, log', fs')
     \<and> represents host_invar host_addressable host_readable host_contents 3 fs' blocks'
     \<and> log_stream blocks' log' = replicate 503 7 @ [1, 2, 3, 4]"
proof -
  let ?log = "\<lparr> log_file = 1, log_position = 503, log_buffer = replicate 505 7 \<rparr> :: fkfs_log_t"
  obtain fs where r: "represents host_invar host_addressable host_readable host_contents 3 fs [[]]"
    using blank_represents by blast
  have ok: "log_ok ?log" by (simp add: log_ok_def wf_log_def)
  have s: "log_stream [[]] ?log = replicate 503 7" by (simp add: log_stream_def file_records_def)
  from log_append_conserves [OF host.reliable_device_axioms r ok, of 4 "[1, 2, 3, 4, 5]" True] s
  show ?thesis by auto
qed

end
