(* ===== verification/Fkfs_Truncate.thy ===== *)
theory Fkfs_Truncate
  imports Fkfs_Roundtrip
begin

text \<open>
  Truncation on the log. A truncation moves no data: it makes the entries of the file one version
  older, which the scan then skips, and starts the file again in the current block. The theory
  shows that this empties the file and leaves the others as they were, that any sequence of
  appends, truncations and synchronisations does to the files what the abstract operations do, and
  what a mount sees of a truncation.
\<close>

section \<open>The log with one file truncated\<close>

definition truncate_log :: "u8 \<Rightarrow> log_entry list list \<Rightarrow> log_entry list list" where
  "truncate_log f = map (map (age_entry f))"

text \<open>The version of \<open>f\<close> has not come back to that of an entry still in the log.\<close>

definition younger :: "nat \<Rightarrow> u8 \<Rightarrow> log_entry list list \<Rightarrow> bool" where
  "younger n f blocks \<longleftrightarrow> list_all (\<lambda>e. fst (fst e) = f \<longrightarrow> snd (fst e) < n) (concat blocks)"

lemma truncate_log_shape [simp]:
  "length (truncate_log f blocks) = length blocks"
  "truncate_log f blocks = [] \<longleftrightarrow> blocks = []"
  by (simp_all add: truncate_log_def)

lemma truncate_log_nth [simp]:
  "i < length blocks \<Longrightarrow> truncate_log f blocks ! i = map (age_entry f) (blocks ! i)"
  by (simp add: truncate_log_def)

lemma last_truncate_log: "blocks \<noteq> [] \<Longrightarrow> last (truncate_log f blocks) = map (age_entry f) (last blocks)"
  by (simp add: truncate_log_def last_map)

lemma age_entry_live: "fst (age_entry f e) = (g, 0) \<longleftrightarrow> g \<noteq> f \<and> fst e = (g, 0)"
  by (cases e; cases "fst e") (auto simp: age_entry_def)

lemma file_records_truncate:
  "file_records g (truncate_log f blocks) = (if g = f then [] else file_records g blocks)"
proof -
  have "concat (truncate_log f blocks) = map (age_entry f) (concat blocks)"
    by (simp add: truncate_log_def map_concat)
  then show ?thesis
    by (auto simp: file_records_def filter_map comp_def age_entry_live intro!: filter_False)
qed

lemma ends_truncate: "ends g (truncate_log f blocks) = (if g = f then [] else ends g blocks)"
proof -
  have "ends g (truncate_log f blocks) = concat (map (\<lambda>i. map (\<lambda>j. (i, Suc j))
     (filter (\<lambda>j. g \<noteq> f \<and> fst (blocks ! i ! j) = (g, 0)) [0..<length (blocks ! i)])) [0..<length blocks])"
    unfolding ends_def truncate_log_shape
    by (intro arg_cong [where f = concat] map_cong refl arg_cong2 [where f = map] filter_cong)
      (auto simp: age_entry_live)
  then show ?thesis by (simp add: ends_def)
qed

lemma position_offset_truncate:
  "fst p < length blocks \<Longrightarrow> position_offset (truncate_log f blocks) p = position_offset blocks p"
  by (simp add: position_offset_def take_map)

lemma scannable_truncate [simp]: "scannable (truncate_log f blocks) = scannable blocks"
  by (auto simp: scannable_def)

lemma file_matches_truncate:
  assumes "file_matches blocks g file" "g \<noteq> f"
  shows "file_matches (truncate_log f blocks) g file"
proof -
  obtain k where k: "starts_at k g blocks" "file_startBlock file = log_block k" "file_startOffset file = 0"
    "file_endBlock file = log_block (fst (file_end k g blocks))"
    "file_endOffset file = position_offset blocks (file_end k g blocks)"
    using assms(1) by (auto simp: file_matches_def)
  have "position_offset (truncate_log f blocks) (file_end k g blocks) = position_offset blocks (file_end k g blocks)"
    using file_end_in_range(1) [OF k(1)] by (rule position_offset_truncate)
  moreover have "file_end k g (truncate_log f blocks) = file_end k g blocks" "starts_at k g (truncate_log f blocks)"
    using k(1) assms(2) by (simp_all add: file_end_def starts_at_def ends_truncate)
  ultimately show ?thesis using k assms by (auto simp: file_matches_def file_records_truncate)
qed

text \<open>The file descriptor a truncation leaves: empty, at the head of the log.\<close>

lemma file_matches_truncated:
  assumes "blocks \<noteq> []"
  shows "file_matches (truncate_log f blocks) f (file\<lparr> file_version := v,
    file_startBlock := log_block (length blocks - 1), file_endBlock := log_block (length blocks - 1),
    file_startOffset := 0, file_endOffset := 0, file_size := 0 \<rparr>)"
  using assms
  by (auto simp: file_matches_def starts_at_def file_end_def ends_truncate file_records_truncate
      position_offset_def intro!: exI [of _ "length blocks - 1"])

section \<open>Truncating refines it\<close>

definition truncated :: "u8 \<Rightarrow> 'd fkfs_t \<Rightarrow> 'd fkfs_t" where
  "truncated f fs = fs_file_update f (\<lambda>file. file
     \<lparr> file_version := file_version file + 1, file_startBlock := header_block (fs_header fs),
       file_endBlock := header_block (fs_header fs), file_startOffset := 0, file_endOffset := 0,
       file_size := 0 \<rparr>) fs"

lemma truncate_eq: "unat f < 4 \<Longrightarrow> fkfs_file_truncate fs f = Some (True, truncated f fs)"
  by (simp add: fkfs_file_truncate_def truncated_def)

lemma truncated_fields [simp]:
  "fs_sd (truncated f fs) = fs_sd fs" "fs_buffer (truncated f fs) = fs_buffer fs"
  "fs_cachedBlockNumber (truncated f fs) = fs_cachedBlockNumber fs"
  "fs_cachedBlockDirty (truncated f fs) = fs_cachedBlockDirty fs" "fs_files (truncated f fs) = fs_files fs"
  "fs_headerIndex (truncated f fs) = fs_headerIndex fs"
  "fs_numberOfBlocks (truncated f fs) = fs_numberOfBlocks fs"
  "header_block (fs_header (truncated f fs)) = header_block (fs_header fs)"
  "header_offset (fs_header (truncated f fs)) = header_offset (fs_header fs)"
  "header_generation (fs_header (truncated f fs)) = header_generation (fs_header fs)"
  by (simp_all add: truncated_def fs_file_update_def)

lemma versions_truncated: "wf_header (fs_header fs) \<Longrightarrow> unat f < 4 \<Longrightarrow> versions (truncated f fs) = bump f (versions fs)"
  by (simp add: versions_def truncated_def fs_file_update_def bump_def map_update wf_header_def)

lemma wf_truncated:
  assumes "wf_fs fs" "unat f < 4"
  shows "wf_fs (truncated f fs)"
  using assms
  by (auto simp: wf_fs_def wf_header_def wf_file_def truncated_def fs_file_update_def list_all_length
      nth_list_update)

lemma represents_truncate:
  assumes "represents invar addressable readable contents limit fs blocks" "unat f < 4"
    and "younger (2 ^ 16 - 1) f blocks"
  shows "represents invar addressable readable contents limit (truncated f fs) (truncate_log f blocks)"
proof -
  note p = represents_parts [OF assms(1)]
  let ?fs' = "truncated f fs" and ?bs = "truncate_log f blocks"
  have vers: "versions ?fs' = bump f (versions fs)" using p(12) assms(2) by (rule versions_truncated)
  have len: "length (versions fs) = 4" using p(12) by (simp add: versions_def wf_header_def)
  have holds: "log_holds contents limit ?fs' ?bs"
    unfolding log_holds_def
  proof (intro allI impI)
    fix i assume i: "i < limit"
    let ?es = "if i < length blocks then blocks ! i else []"
    have "list_all (\<lambda>e. fst (fst e) = f \<longrightarrow> Suc (snd (fst e)) < 2 ^ 16) ?es"
      using assms(3) by (fastforce simp: younger_def list_all_iff)
    moreover have "block_holds (versions fs) ?es (block_view contents fs (log_block i))"
      using p(11) i by (simp only: log_holds_def)
    moreover have "block_view contents ?fs' (log_block i) = block_view contents fs (log_block i)"
      by (simp add: block_view_def)
    moreover have "(if i < length ?bs then ?bs ! i else []) = map (age_entry f) ?es" by simp
    ultimately show "block_holds (versions ?fs') (if i < length ?bs then ?bs ! i else [])
        (block_view contents ?fs' (log_block i))"
      unfolding vers using block_holds_age [of "versions fs" ?es] assms(2) len by simp
  qed
  have files: "file_matches ?bs g (header_files (fs_header ?fs') ! unat g)" if g: "unat g < 4" for g
  proof (cases "g = f")
    case True
    have "unat f < length (header_files (fs_header fs))" using p(12) g True by (simp add: wf_header_def)
    then show ?thesis
      using file_matches_truncated [OF p(7), of f] True p(9) by (simp add: truncated_def fs_file_update_def)
  next
    case False
    then have "unat f \<noteq> unat g" by (metis word_unat_eq_iff)
    then show ?thesis
      using file_matches_truncate [OF p(15) [OF g] False] by (simp add: truncated_def fs_file_update_def)
  qed
  have "wf_fs ?fs'" using p(2) assms(2) by (rule wf_truncated)
  moreover have "log_area addressable readable limit ?fs'" using p(5) by (simp add: log_area_def)
  moreover have "cache_ok contents limit ?fs'" using p(6) by (simp add: cache_ok_def)
  ultimately show ?thesis
    using p(1,3,4,7,8,9,10) holds files by (simp add: represents_def last_truncate_log)
qed

section \<open>Sequences of operations\<close>

datatype log_op = Append log_record | Truncate u8 | TruncateAll | Sync | Flush

fun truncates :: "log_op \<Rightarrow> bool" where
  "truncates (Truncate f) = True"
| "truncates TruncateAll = True"
| "truncates _ = False"

definition truncations :: "log_op list \<Rightarrow> nat" where
  "truncations xs = length (filter truncates xs)"

fun run_op :: "'d platform \<Rightarrow> 'd fkfs_t \<Rightarrow> log_op \<Rightarrow> (bool \<times> 'd fkfs_t) option" where
  "run_op P fs (Append r) = fkfs_file_append P fs (fst r) (of_nat (length (snd r))) (snd r)"
| "run_op P fs (Truncate f) = fkfs_file_truncate fs f"
| "run_op P fs TruncateAll = fkfs_file_truncate_all fs"
| "run_op P fs Sync = fkfs_fsync P fs"
| "run_op P fs Flush = fkfs_flush P fs"

text \<open>Giving up at the first failure.\<close>

fun run_ops :: "'d platform \<Rightarrow> 'd fkfs_t \<Rightarrow> log_op list \<Rightarrow> (bool \<times> 'd fkfs_t) option" where
  "run_ops P fs [] = Some (True, fs)"
| "run_ops P fs (x # xs) = do {
     (ok, fs) \<leftarrow> run_op P fs x;
     if \<not> ok then Some (False, fs) else run_ops P fs xs
   }"

fun valid_op :: "log_op \<Rightarrow> bool" where
  "valid_op (Append r) = valid_record r"
| "valid_op (Truncate f) = (unat f < FKFS_FILES_MAX)"
| "valid_op _ = True"

text \<open>What an operation does to the log, and what it means for one file: the specification.\<close>

fun op_log :: "log_entry list list \<Rightarrow> log_op \<Rightarrow> log_entry list list" where
  "op_log blocks (Append r) = place blocks r"
| "op_log blocks (Truncate f) = truncate_log f blocks"
| "op_log blocks TruncateAll = fold truncate_log [0, 1, 2, 3] blocks"
| "op_log blocks _ = blocks"

fun op_file :: "u8 \<Rightarrow> bytes list \<Rightarrow> log_op \<Rightarrow> bytes list" where
  "op_file f ds (Append r) = (if fst r = f then ds @ [snd r] else ds)"
| "op_file f ds (Truncate g) = (if g = f then [] else ds)"
| "op_file f ds TruncateAll = (if unat f < FKFS_FILES_MAX then [] else ds)"
| "op_file f ds _ = ds"

lemma op_log_nonempty [simp]: "blocks \<noteq> [] \<Longrightarrow> op_log blocks x \<noteq> []"
  by (cases x) simp_all

lemma file_number: "f = 0 \<or> f = 1 \<or> f = 2 \<or> f = 3 \<longleftrightarrow> unat f < 4" for f :: u8
  by (auto simp: word_unat_eq_iff)

lemma file_records_op: "blocks \<noteq> [] \<Longrightarrow> file_records f (op_log blocks x) = op_file f (file_records f blocks) x"
  using file_number [of f] by (cases x) (auto simp: file_records_place file_records_truncate)

lemma file_records_ops:
  "blocks \<noteq> [] \<Longrightarrow> file_records f (foldl op_log blocks xs) = foldl (op_file f) (file_records f blocks) xs"
  by (induction xs arbitrary: blocks) (simp_all add: file_records_op)

lemma length_op_log: "blocks \<noteq> [] \<Longrightarrow> length blocks \<le> length (op_log blocks x)"
  by (cases x) (simp_all add: length_place_mono)

lemma length_foldl_op_log: "blocks \<noteq> [] \<Longrightarrow> length blocks \<le> length (foldl op_log blocks xs)"
proof (induction xs arbitrary: blocks)
  case (Cons x xs)
  then have "length (op_log blocks x) \<le> length (foldl op_log (op_log blocks x) xs)" by simp
  then show ?case using length_op_log [OF Cons.prems, of x] by simp
qed simp

text \<open>Only truncations make entries older.\<close>

lemma younger_mono: "younger m f blocks \<Longrightarrow> m \<le> n \<Longrightarrow> younger n f blocks"
  unfolding younger_def list_all_iff using less_le_trans by blast

lemma younger_truncate: "younger n f blocks \<Longrightarrow> younger (Suc n) f (truncate_log g blocks)"
  by (fastforce simp: younger_def list_all_iff truncate_log_def age_entry_def)

lemma younger_truncate_other: "f \<noteq> g \<Longrightarrow> younger n f (truncate_log g blocks) = younger n f blocks"
  by (auto simp: younger_def list_all_iff truncate_log_def age_entry_def)

lemma younger_truncate_fold:
  "distinct gs \<Longrightarrow> younger n f blocks \<Longrightarrow>
   younger (if f \<in> set gs then Suc n else n) f (fold truncate_log gs blocks)"
proof (induction gs arbitrary: n blocks)
  case (Cons g gs)
  show ?case
  proof (cases "f = g")
    case True
    then show ?thesis
      using Cons.IH [of "Suc n" "truncate_log g blocks"] Cons.prems younger_truncate by simp
  next
    case False
    then show ?thesis
      using Cons.IH [of n "truncate_log g blocks"] Cons.prems younger_truncate_other [of f g] by simp
  qed
qed simp

lemma younger_truncate_all:
  assumes "younger n f blocks"
  shows "younger (Suc n) f (fold truncate_log [0, 1, 2, 3] blocks)"
proof -
  have "younger (if f \<in> set [0, 1, 2, 3] then Suc n else n) f (fold truncate_log [0, 1, 2, 3] blocks)"
    using assms by (intro younger_truncate_fold) simp_all
  then show ?thesis by (rule younger_mono) simp
qed

lemma younger_op:
  assumes "younger (Suc n) f blocks" "blocks \<noteq> []"
  shows "younger (Suc n + truncations [x]) f (op_log blocks x)"
proof (cases x)
  case (Append r)
  then show ?thesis
    using assms by (auto simp: younger_def concat_place list_all_iff truncations_def)
qed (use assms younger_truncate [OF assms(1)] younger_truncate_all [OF assms(1)] in
  \<open>simp_all add: truncations_def\<close>)

lemma represents_truncate_all:
  assumes "represents invar addressable readable contents limit fs blocks"
    and "\<forall>f. younger (2 ^ 16 - 1) f blocks"
  shows "\<exists>fs'. fkfs_file_truncate_all fs = Some (True, fs')
    \<and> represents invar addressable readable contents limit fs' (fold truncate_log [0, 1, 2, 3] blocks)
    \<and> (\<forall>g. sealed_at contents g fs' = sealed_at contents g fs)"
proof -
  let ?R = "represents invar addressable readable contents limit"
  have step: "?R (truncated f fs) (truncate_log f bs)"
    if "?R fs bs" "unat f < 4" "younger (2 ^ 16 - 1) f bs" for f fs bs
    using that by (rule represents_truncate)
  have "?R (truncated 3 (truncated 2 (truncated 1 (truncated 0 fs)))) (fold truncate_log [0, 1, 2, 3] blocks)"
    using assms by (auto simp: younger_truncate_other intro!: step)
  moreover have "fkfs_file_truncate_all fs = Some (True, truncated 3 (truncated 2 (truncated 1 (truncated 0 fs))))"
    by (simp add: fkfs_file_truncate_all_def truncate_eq)
  moreover have "sealed_at contents g (truncated f fs) = sealed_at contents g fs" for g f and fs :: "'a fkfs_t"
    by (rule sealed_at_cong) simp_all
  ultimately show ?thesis by simp
qed

context reliable_device
begin

lemma represents_op:
  assumes "represents invar addressable readable contents limit fs blocks" "valid_op x"
    and "length (op_log blocks x) \<le> limit" "\<forall>f. younger (2 ^ 16 - 1) f blocks"
    and "sealed_at contents g fs" "g + 2 < 2 ^ 32"
  shows "\<exists>fs'. run_op P fs x = Some (True, fs')
    \<and> represents invar addressable readable contents limit fs' (op_log blocks x)
    \<and> sealed_at contents (g + 2) fs'"
proof (cases x)
  case (Append r)
  then have v: "valid_record r" "length (place blocks r) \<le> limit" using assms(2,3) by simp_all
  obtain fs' where "fkfs_file_append P fs (fst r) (of_nat (length (snd r))) (snd r @ []) = Some (True, fs')"
    "represents invar addressable readable contents limit fs' (place blocks r)"
    and s: "\<And>g. sealed_at contents g fs \<Longrightarrow> g + 2 < 2 ^ 32 \<Longrightarrow> sealed_at contents (g + 2) fs'"
    using represents_append [OF assms(1) v, of "[]"] by metis
  with Append s [OF assms(5,6)] show ?thesis by simp
next
  case (Truncate f)
  have "sealed_at contents g (truncated f fs) = sealed_at contents g fs" by (rule sealed_at_cong) simp_all
  then have "sealed_at contents (g + 2) (truncated f fs)" using assms(5) by (simp add: sealed_at_def)
  with Truncate assms(2,4) show ?thesis
    using truncate_eq [of f fs] represents_truncate [OF assms(1), of f] by simp
next
  case TruncateAll
  obtain fs' where "fkfs_file_truncate_all fs = Some (True, fs')"
    "represents invar addressable readable contents limit fs' (fold truncate_log [0, 1, 2, 3] blocks)"
    "\<forall>g. sealed_at contents g fs' = sealed_at contents g fs"
    using represents_truncate_all [OF assms(1,4)] by blast
  with TruncateAll assms(5) sealed_at_mono [OF assms(5), of "g + 2"] show ?thesis by simp
next
  case Sync
  have "Suc g < 2 ^ 32" using assms(6) by simp
  then obtain fs' where "fkfs_fsync P fs = Some (True, fs')"
    "represents invar addressable readable contents limit fs' blocks" "sealed_at contents (Suc g) fs'"
    using represents_fsync [OF assms(1)] assms(5) by metis
  with Sync show ?thesis using sealed_at_mono [of contents "Suc g" fs' "g + 2"] by simp
next
  case Flush
  have "Suc g < 2 ^ 32" using assms(6) by simp
  then obtain fs' where "fkfs_flush P fs = Some (True, fs')"
    "represents invar addressable readable contents limit fs' blocks" "sealed_at contents (Suc g) fs'"
    using represents_flush [OF assms(1)] assms(5) by metis
  with Flush show ?thesis using sealed_at_mono [of contents "Suc g" fs' "g + 2"] by simp
qed

lemma represents_ops:
  assumes "represents invar addressable readable contents limit fs blocks" "list_all valid_op xs"
    and "length (foldl op_log blocks xs) \<le> limit"
    and "\<forall>f. younger (Suc n) f blocks" "n + truncations xs < 2 ^ 16 - 1"
    and "sealed_at contents g fs" "g + 2 * length xs < 2 ^ 32"
  shows "\<exists>fs'. run_ops P fs xs = Some (True, fs')
    \<and> represents invar addressable readable contents limit fs' (foldl op_log blocks xs)
    \<and> sealed_at contents (g + 2 * length xs) fs'"
  using assms
proof (induction xs arbitrary: fs blocks n g)
  case Nil
  then show ?case by simp
next
  case (Cons x xs)
  have ne: "blocks \<noteq> []" using represents_parts(7) [OF Cons.prems(1)] .
  have v: "valid_op x" "list_all valid_op xs" using Cons.prems(2) by simp_all
  have len: "length (op_log blocks x) \<le> limit"
    using length_foldl_op_log [of "op_log blocks x" xs] ne Cons.prems(3) by simp
  have y: "\<forall>f. younger (2 ^ 16 - 1) f blocks"
    using Cons.prems(4,5) younger_mono [of "Suc n" _ blocks "2 ^ 16 - 1"] by simp
  have g: "g + 2 < 2 ^ 32" using Cons.prems(7) by simp
  obtain fs1 where a: "run_op P fs x = Some (True, fs1)"
    and r1: "represents invar addressable readable contents limit fs1 (op_log blocks x)"
      "sealed_at contents (g + 2) fs1"
    using represents_op [OF Cons.prems(1) v(1) len y Cons.prems(6) g] by blast
  have tr: "truncations (x # xs) = truncations [x] + truncations xs" by (simp add: truncations_def)
  have "\<forall>f. younger (Suc (n + truncations [x])) f (op_log blocks x)"
    using Cons.prems(4) younger_op [OF _ ne, of n _ x] by simp
  moreover have "length (foldl op_log (op_log blocks x) xs) \<le> limit" "n + truncations [x] + truncations xs < 2 ^ 16 - 1"
    "g + 2 + 2 * length xs < 2 ^ 32"
    using Cons.prems(3,5,7) tr by simp_all
  ultimately obtain fs2 where "run_ops P fs1 xs = Some (True, fs2)"
    "represents invar addressable readable contents limit fs2 (foldl op_log (op_log blocks x) xs)"
    "sealed_at contents (g + 2 + 2 * length xs) fs2"
    using Cons.IH [OF r1(1) v(2) _ _ _ r1(2)] by blast
  then show ?case using a by (auto simp: add.commute add.left_commute)
qed

text \<open>A wipe, any operations, a flush and a mount by another object.\<close>

lemma operations_survive:
  assumes fs: "invar (fs_sd fs)" "fresh_object fs" "addressable 0" "readable (fs_sd fs) 0"
    and card: "erased_area addressable readable contents limit (fs_sd fs)" "capacity invar P limit"
    and xs: "list_all valid_op xs" "length (foldl op_log [[]] xs) \<le> limit"
      "scannable (foldl op_log [[]] xs)" "truncations xs < 2 ^ 16 - 1" "2 * length xs + 2 < 2 ^ 32"
  shows "\<exists>fs1 fs2 fs3. fkfs_initialize P fs True = Some (True, fs1)
    \<and> run_ops P fs1 xs = Some (True, fs2)
    \<and> fkfs_flush P fs2 = Some (True, fs3)
    \<and> invar (fs_sd fs3)
    \<and> (\<forall>fs4 f. invar (fs_sd fs4) \<and> contents (fs_sd fs4) = contents (fs_sd fs3)
         \<and> readable (fs_sd fs4) = readable (fs_sd fs3) \<and> fresh_object fs4 \<and> unat f < 4 \<longrightarrow>
         (\<exists>fs5 fs6. fkfs_initialize P fs4 False = Some (True, fs5)
            \<and> extract_file P fs5 f True = Some (True, concat (foldl (op_file f) [] xs), fs6)))"
proof -
  let ?bs = "foldl op_log [[]] xs"
  obtain fs1 where i: "fkfs_initialize P fs True = Some (True, fs1)"
    and r1: "represents invar addressable readable contents limit fs1 [[]]" "sealed_at contents 1 fs1"
    using wipe_represents [OF fs card, of True] by blast
  have y: "\<forall>f. younger (Suc 0) f [[]]" by (simp add: younger_def)
  have n: "0 + truncations xs < 2 ^ 16 - 1" "1 + 2 * length xs < 2 ^ 32" using xs(4,5) by simp_all
  obtain fs2 where a: "run_ops P fs1 xs = Some (True, fs2)"
    and r2: "represents invar addressable readable contents limit fs2 ?bs"
      "sealed_at contents (1 + 2 * length xs) fs2"
    using represents_ops [OF r1(1) xs(1,2) y n(1) r1(2) n(2)] by blast
  have g: "Suc (1 + 2 * length xs) < 2 ^ 32" using xs(5) by simp
  obtain fs3 where s: "fkfs_flush P fs2 = Some (True, fs3)"
    and r3: "represents invar addressable readable contents limit fs3 ?bs" "\<not> fs_cachedBlockDirty fs3"
      "saved contents fs3" "sealed_at contents (Suc (1 + 2 * length xs)) fs3"
    using represents_flush [OF r2(1)] r2(2) g by metis
  have "file_records f ?bs = foldl (op_file f) [] xs" for f
    using file_records_ops [of "[[]]" f xs] by (simp add: file_records_def)
  then show ?thesis
    using i a s represents_parts(1) [OF r3(1)] remount_extracts [OF r3(1,2,4,3) card(2) xs(3)]
    by (intro exI [of _ fs1] exI [of _ fs2] exI [of _ fs3] conjI) (simp_all only: refl, blast)
qed

text \<open>Neither a truncation nor a synchronisation with nothing to write reaches the card.\<close>

lemma truncate_not_saved:
  assumes "represents invar addressable readable contents limit fs blocks" "\<not> fs_cachedBlockDirty fs"
    and "sealed_at contents g fs" "saved contents fs" "capacity invar P limit" "scannable blocks"
    and "unat f < 4"
  shows "\<exists>fs1. fkfs_file_truncate fs f = Some (True, fs1) \<and> fkfs_fsync P fs1 = Some (True, fs1)
    \<and> (\<forall>fs2. invar (fs_sd fs2) \<and> contents (fs_sd fs2) = contents (fs_sd fs1)
         \<and> readable (fs_sd fs2) = readable (fs_sd fs1) \<and> fresh_object fs2 \<longrightarrow>
         (\<exists>fs3 fs4. fkfs_initialize P fs2 False = Some (True, fs3)
            \<and> extract_file P fs3 f True = Some (True, concat (file_records f blocks), fs4)))"
  using truncate_eq [OF assms(7), of fs] remount_extracts [OF assms(1-6) _ _ _ _ assms(7)] assms(2)
  by (simp add: fkfs_fsync_def)

end

section \<open>Properties\<close>

text \<open>C7: truncating a file refines the abstract truncation. Of an object that represents a log in which
  no entry of the file is 65535 truncations old, so that its 16 bit version does not come back to the one
  of such an entry, the truncation succeeds and the object then represents the log in which the entries of
  the file are one version older; the file has no records and every other file has the records it had.
  Neither the card nor the cached block changes. (When the version has come back, the old entries of the
  file are good again.)\<close>

theorem truncate_refines_log:
  assumes "represents invar addressable readable contents limit fs blocks" "unat f < 4"
    and "younger (2 ^ 16 - 1) f blocks"
  shows "\<exists>fs'. fkfs_file_truncate fs f = Some (True, fs')
    \<and> fs_sd fs' = fs_sd fs \<and> fs_buffer fs' = fs_buffer fs
    \<and> represents invar addressable readable contents limit fs' (truncate_log f blocks)
    \<and> (\<forall>g. file_records g (truncate_log f blocks) = (if g = f then [] else file_records g blocks))"
  using truncate_eq [OF assms(2)] represents_truncate [OF assms] file_records_truncate
    truncated_fields(1,2) [of f fs] by blast

text \<open>C5: a sequence of operations. On every device that meets the contract and holds an erased log
  area of \<open>limit\<close> blocks, wipe the card, run a list of appends, truncations of one file or of all,
  synchronisations and flushes, flush, and mount the card with another fresh object: every step succeeds,
  and extracting a file gives the data appended to it since it was last truncated, in order. The conditions
  on the list: its records have 1 to 505 bytes and its files are below 4, its log fits the erased blocks and
  leaves seven bytes in every block but the last (a scan reads one more header there, \<^verbatim>\<open>fkfs.cpp\<close> line 723,
  and would leave the buffer), it has fewer than 65535 truncations, and its length is below $2^{31} - 1$.\<close>

theorem operations_survive_remount:
  assumes dev: "reliable_device P invar addressable readable contents"
    and fs: "invar (fs_sd fs)" "fresh_object fs" "addressable 0" "readable (fs_sd fs) 0"
    and card: "erased_area addressable readable contents limit (fs_sd fs)" "capacity invar P limit"
    and xs: "list_all valid_op xs" "length (foldl op_log [[]] xs) \<le> limit"
      "scannable (foldl op_log [[]] xs)" "truncations xs < 2 ^ 16 - 1" "2 * length xs + 2 < 2 ^ 32"
  shows "\<exists>fs1 fs2 fs3. fkfs_initialize P fs True = Some (True, fs1)
    \<and> run_ops P fs1 xs = Some (True, fs2)
    \<and> fkfs_flush P fs2 = Some (True, fs3)
    \<and> invar (fs_sd fs3)
    \<and> (\<forall>fs4 f. invar (fs_sd fs4) \<and> contents (fs_sd fs4) = contents (fs_sd fs3)
         \<and> readable (fs_sd fs4) = readable (fs_sd fs3) \<and> fresh_object fs4 \<and> unat f < 4 \<longrightarrow>
         (\<exists>fs5 fs6. fkfs_initialize P fs4 False = Some (True, fs5)
            \<and> extract_file P fs5 f True = Some (True, concat (foldl (op_file f) [] xs), fs6)))"
  by (rule reliable_device.operations_survive [OF dev fs card xs])

text \<open>C14: a truncation is not durable by a synchronisation. When there is nothing else to write,
  \<^verbatim>\<open>fkfs_fsync\<close> after \<^verbatim>\<open>fkfs_file_truncate\<close> reports success and writes nothing, and the next mount
  reads back every record of the truncated file. (A flush writes the header and keeps the
  truncation, by the property before.)\<close>

theorem synced_truncate_is_lost:
  assumes dev: "reliable_device P invar addressable readable contents"
    and "represents invar addressable readable contents limit fs blocks" "\<not> fs_cachedBlockDirty fs"
    and "sealed_at contents g fs" "saved contents fs" "capacity invar P limit" "scannable blocks"
    and "unat f < 4"
  shows "\<exists>fs1. fkfs_file_truncate fs f = Some (True, fs1) \<and> fkfs_fsync P fs1 = Some (True, fs1)
    \<and> (\<forall>fs2. invar (fs_sd fs2) \<and> contents (fs_sd fs2) = contents (fs_sd fs1)
         \<and> readable (fs_sd fs2) = readable (fs_sd fs1) \<and> fresh_object fs2 \<longrightarrow>
         (\<exists>fs3 fs4. fkfs_initialize P fs2 False = Some (True, fs3)
            \<and> extract_file P fs3 f True = Some (True, concat (file_records f blocks), fs4)))"
  by (rule reliable_device.truncate_not_saved [OF assms])

end
