(* ===== verification/Single_Record.thy ===== *)
theory Single_Record
  imports Fkfs_Safety Fkfs_Truncate
begin

text \<open>
  The helpers of \<^verbatim>\<open>examples/simple/main.cpp\<close> that keep one record in a file by truncating the file
  before every write. The structure holds a pointer to a shared file system object; the model
  passes that object beside it. On the log the pair of helpers is a cell: what was written last is what
  is read, whatever the log held before.
\<close>

record fkfs_single_record_t =
  sr_file :: u8

definition fkfs_single_record_initialize :: "fkfs_single_record_t \<Rightarrow> u8 \<Rightarrow> bool \<times> fkfs_single_record_t" where
  "fkfs_single_record_initialize sr file = (True, sr\<lparr>sr_file := file\<rparr>)"

text \<open>The file that is read is the constant \<^verbatim>\<open>FKFS_FILE_LOG\<close>, not the file of the structure.\<close>

definition fkfs_single_record_read ::
  "'d platform \<Rightarrow> fkfs_single_record_t \<Rightarrow> 'd fkfs_t \<Rightarrow> bytes \<Rightarrow> u16 \<Rightarrow> (bool \<times> bytes \<times> 'd fkfs_t) option" where
  "fkfs_single_record_read P sr fs ptr sz = do {
     let iter = \<lparr> iter_token = fkfs_token_empty, iter_data = None, iter_size = 0, iter_iterated = 0 \<rparr>;
     let config = \<lparr> config_maxBlocks = 10, config_maxTime = 0, config_manualNext = False \<rparr>;
     (_, iter) \<leftarrow> fkfs_file_iterator_create fs 0 iter;
     (more, fs, iter) \<leftarrow> fkfs_file_iterate P fs config iter;
     if more then
       if iter_size iter \<noteq> sz then Some (False, ptr, fs)
       else do {
         data \<leftarrow> iter_data iter;
         bs \<leftarrow> mem_read (fs_buffer fs) data (unat sz);
         ptr \<leftarrow> mem_write ptr 0 bs;
         Some (True, ptr, fs)
       }
     else Some (False, ptr, fs)
   }"

definition fkfs_single_record_write ::
  "'d platform \<Rightarrow> fkfs_single_record_t \<Rightarrow> 'd fkfs_t \<Rightarrow> bytes \<Rightarrow> u16 \<Rightarrow> (bool \<times> 'd fkfs_t) option" where
  "fkfs_single_record_write P sr fs ptr sz = do {
     (ok, fs) \<leftarrow> fkfs_file_truncate fs (sr_file sr);
     if \<not> ok then Some (False, fs)
     else fkfs_file_append P fs (sr_file sr) sz ptr
   }"

text \<open>A read that succeeds has stored the payload of a checked entry, and always one of file 0.\<close>

lemma single_record_read_checked:
  assumes "fkfs_single_record_read P sr fs ptr sz = Some (True, ptr', fs')"
  shows "\<exists>offset. let p = drop offset (take SD_RAW_BLOCK_SIZE (fs_buffer fs'));
       entry = entry_of_bytes (take sizeof_fkfs_entry_t p)
     in fkfs_block_check fs' p = Some FKFS_OFFSET_SEARCH_STATUS_GOOD \<and> entry_file entry = 0
        \<and> entry_size entry = sz
        \<and> take (unat sz) ptr' = take (unat sz) (drop (offset + sizeof_fkfs_entry_t) (fs_buffer fs'))
        \<and> length ptr' = length ptr"
proof -
  let ?file = "header_files (fs_header fs) ! 0"
  let ?iter = "\<lparr> iter_token = \<lparr> token_file = 0, token_block = file_startBlock ?file,
      token_offset = file_startOffset ?file, token_lastBlock = file_endBlock ?file,
      token_lastOffset = file_endOffset ?file, token_size = file_size ?file \<rparr>,
    iter_data = None, iter_size = 0, iter_iterated = 0 \<rparr>"
  have c: "token_file (iter_token ?iter) = 0" by simp
  obtain iter' data bs where i: "fkfs_file_iterate P fs
      \<lparr> config_maxBlocks = 10, config_maxTime = 0, config_manualNext = False \<rparr> ?iter = Some (True, fs', iter')"
    and d: "iter_size iter' = sz" "iter_data iter' = Some data"
    and m: "mem_read (fs_buffer fs') data (unat sz) = Some bs" "mem_write ptr 0 bs = Some ptr'"
    using assms
    by (auto simp: fkfs_single_record_read_def fkfs_file_iterator_create_def bind_eq_Some_conv Let_def split: if_splits)
  have "take (unat sz) ptr' = bs" "bs = take (unat sz) (drop data (fs_buffer fs'))" "length ptr' = length ptr"
    using m by (auto simp: mem_read_def mem_write_def split: if_splits)
  with iterate_hit [OF i] c d show ?thesis by (auto simp: delivered_def Let_def)
qed

section \<open>Writing and reading on the log\<close>

text \<open>The log after the file was truncated and the record placed.\<close>

definition rewrite :: "log_entry list list \<Rightarrow> log_record \<Rightarrow> log_entry list list" where
  "rewrite blocks r = place (truncate_log (fst r) blocks) r"

lemma length_rewrite: "length (rewrite blocks r) = length (place blocks r)" if "blocks \<noteq> []"
  using that by (simp add: rewrite_def place_def make_room_def fits_def last_truncate_log)

lemma file_records_rewrite:
  "blocks \<noteq> [] \<Longrightarrow> file_records f (rewrite blocks r) = (if fst r = f then [snd r] else file_records f blocks)"
  by (simp add: rewrite_def file_records_place file_records_truncate)

text \<open>The file has one entry, the last of the log, at most one block after its start.\<close>

lemma ends_rewrite:
  assumes "blocks \<noteq> []"
  shows "ends (fst r) (rewrite blocks r) =
    [(length (rewrite blocks r) - 1, Suc (length (last (make_room (truncate_log (fst r) blocks) r))))]"
proof -
  let ?bs = "make_room (truncate_log (fst r) blocks) r"
  have "?bs \<noteq> []" using assms by (simp add: make_room_def)
  moreover have "ends (fst r) ?bs = []" by (simp add: make_room_def ends_truncate)
  ultimately show ?thesis by (simp add: rewrite_def place_def ends_extend)
qed

lemma rewrite_next_block: "blocks \<noteq> [] \<Longrightarrow> length (rewrite blocks r) \<le> Suc (length blocks)"
  by (simp add: rewrite_def place_def make_room_def)

context reliable_device
begin

lemma single_record_write_ok:
  assumes "represents invar addressable readable contents limit fs blocks"
    and "valid_record (sr_file sr, d)" "younger (2 ^ 16 - 1) (sr_file sr) blocks"
    and "length (place blocks (sr_file sr, d)) \<le> limit"
  obtains fs' where "fkfs_single_record_write P sr fs (d @ slack) (of_nat (length d)) = Some (True, fs')"
    "represents invar addressable readable contents limit fs' (rewrite blocks (sr_file sr, d))"
    "fs_files fs' = fs_files fs"
    "settings_sync (fs_files fs ! unat (sr_file sr)) \<noteq> 0 \<Longrightarrow> \<not> fs_cachedBlockDirty fs'"
    "file_startBlock (header_files (fs_header fs') ! unat (sr_file sr)) = log_block (length blocks - 1)"
proof -
  let ?f = "sr_file sr" and ?r = "(sr_file sr, d)" and ?fs1 = "truncated (sr_file sr) fs"
  note p = represents_parts [OF assms(1)]
  have f: "unat ?f < 4" using assms(2) by (simp add: valid_record_def)
  have r1: "represents invar addressable readable contents limit ?fs1 (truncate_log ?f blocks)"
    using assms(1) f assms(3) by (rule represents_truncate)
  have len: "length (place (truncate_log ?f blocks) ?r) \<le> limit"
    using assms(4) length_rewrite [OF p(7), of ?r] by (simp add: rewrite_def)
  obtain fs' where a: "fkfs_file_append P ?fs1 ?f (of_nat (length d)) (d @ slack) = Some (True, fs')"
    and r2: "represents invar addressable readable contents limit fs' (place (truncate_log ?f blocks) ?r)"
    and m: "fs_files fs' = fs_files ?fs1"
      "settings_sync (fs_files ?fs1 ! unat ?f) \<noteq> 0 \<Longrightarrow> \<not> fs_cachedBlockDirty fs'"
      "map file_startBlock (header_files (fs_header fs')) = map file_startBlock (header_files (fs_header ?fs1))"
    using represents_append [OF r1 assms(2) len, of slack] unfolding fst_conv snd_conv by metis
  have l: "unat ?f < length (header_files (fs_header fs))" "unat ?f < length (header_files (fs_header fs'))"
    using f p(12) represents_parts(12) [OF r2] by (simp_all add: wf_header_def)
  have "file_startBlock (header_files (fs_header fs') ! unat ?f) =
      map file_startBlock (header_files (fs_header fs')) ! unat ?f"
    using l(2) by simp
  also have "\<dots> = log_block (length blocks - 1)"
    unfolding m(3) using l(1) p(9) by (simp add: truncated_def fs_file_update_def)
  finally show thesis
    using a r2 m truncate_eq [OF f, of fs]
    by (intro that [of fs']) (simp_all add: fkfs_single_record_write_def rewrite_def)
qed

lemma single_record_read_ok:
  assumes "represents invar addressable readable contents limit fs (rewrite blocks (0, d))" "blocks \<noteq> []"
    and "\<not> fs_cachedBlockDirty fs" "scannable (rewrite blocks (0, d))" "length d \<le> length ptr" "valid_record (0, d)"
    and "file_startBlock (header_files (fs_header fs) ! 0) = log_block (length blocks - 1)"
  obtains fs' where "fkfs_single_record_read P sr fs ptr (of_nat (length d)) =
      Some (True, d @ drop (length d) ptr, fs')"
    "represents invar addressable readable contents limit fs' (rewrite blocks (0, d))" "same_meta fs fs'"
proof -
  let ?bs = "rewrite blocks (0, d)" and ?file = "header_files (fs_header fs) ! 0"
  let ?c = "\<lparr> config_maxBlocks = 10, config_maxTime = 0, config_manualNext = False \<rparr>"
  have z: "unat (0 :: u8) < 4" by simp
  obtain iter where c: "fkfs_file_iterator_create fs 0 \<lparr> iter_token = fkfs_token_empty, iter_data = None,
      iter_size = 0, iter_iterated = 0 \<rparr> = Some (True, iter)" and a: "iter_after ?bs 0 0 iter"
    using iterator_create_at [OF assms(1) z] by blast
  obtain s where st: "starts_at s 0 ?bs" and at: "iter_at ?bs 0 (stop_at s 0 ?bs 0) (file_end s 0 ?bs) iter"
    using a by (auto simp: iter_after_def)
  have "token_block (iter_token iter) = file_startBlock ?file"
    using c by (auto simp: fkfs_file_iterator_create_def Let_def)
  then have eq: "log_block s = log_block (length blocks - 1)"
    using at assms(7) by (simp add: iter_at_def stop_at_def)
  note area = log_area_block [OF represents_parts(5) [OF assms(1)]]
  have "s < limit" "length blocks - 1 < limit"
    using st represents_parts(8) [OF assms(1)] length_rewrite [OF assms(2), of "(0, d)"]
      length_place_mono [OF assms(2), of "(0, d)"] assms(2)
    by (auto simp: starts_at_def simp del: length_greater_0_conv intro: less_le_trans [of _ "length blocks"])
  then have s: "s = length blocks - 1" using area(3) eq by (metis add_left_cancel)
  define i where "i = length ?bs - 1"
  define j where "j = length (last (make_room (truncate_log 0 blocks) (0, d)))"
  have e: "ends 0 ?bs = [(i, Suc j)]" using ends_rewrite [OF assms(2), of "(0, d)"] by (simp add: i_def j_def)
  then have k: "0 < length (ends 0 ?bs)" "ends 0 ?bs ! 0 = (i, Suc j)" by simp_all
  have np: "next_record ?bs 0 (stop_at s 0 ?bs 0) (i, j)" using k st by (rule next_of_stop)
  have bp: "before (i, j) (file_end s 0 ?bs)" using k st by (rule next_before_end)
  have rec: "snd (?bs ! i ! j) = d"
    using file_records_ends [of 0 ?bs] file_records_rewrite [OF assms(2), of 0 "(0, d)"] e by simp
  have "i - s \<le> 1" using rewrite_next_block [OF assms(2), of "(0, d)"] by (simp add: i_def s)
  then have rc: "reaches ?c (config_maxBlocks ?c) (fst (i, j) - fst (stop_at s 0 ?bs 0))"
    by (simp add: reaches_def stop_at_def)
  obtain fs' where it: "fkfs_file_iterate P fs ?c iter = Some (True, fs', iter_hit ?c ?bs (i, j) iter)"
    and r: "represents invar addressable readable contents limit fs' ?bs" "same_meta fs fs'"
    and m: "mem_read (fs_buffer fs') (chain_length (take (snd (i, j)) (?bs ! fst (i, j))) + 7)
       (length (snd (?bs ! fst (i, j) ! snd (i, j)))) = Some (snd (?bs ! fst (i, j) ! snd (i, j)))"
    by (rule iterate_finds [OF assms(1,3,4) at np bp rc])
  have hit: "iter_size (iter_hit ?c ?bs (i, j) iter) = of_nat (length d)"
    "iter_data (iter_hit ?c ?bs (i, j) iter) = Some (chain_length (take j (?bs ! i)) + 7)"
    by (simp_all add: iter_hit_def rec Let_def)
  have "unat (of_nat (length d) :: u16) = length d" using unat_record_size [OF assms(6)] by simp
  then have "fkfs_single_record_read P sr fs ptr (of_nat (length d)) = Some (True, d @ drop (length d) ptr, fs')"
    using c it hit m rec assms(5) by (simp add: fkfs_single_record_read_def mem_write_def)
  then show thesis using r by (rule that)
qed

end

section \<open>Any number of writes\<close>

text \<open>Writing one record after the other, giving up at the first failure.\<close>

fun write_records ::
  "'d platform \<Rightarrow> fkfs_single_record_t \<Rightarrow> 'd fkfs_t \<Rightarrow> bytes list \<Rightarrow> (bool \<times> 'd fkfs_t) option" where
  "write_records P sr fs [] = Some (True, fs)"
| "write_records P sr fs (d # ds) = do {
     (ok, fs) \<leftarrow> fkfs_single_record_write P sr fs d (of_nat (length d));
     if \<not> ok then Some (False, fs) else write_records P sr fs ds
   }"

definition rewrite_all :: "u8 \<Rightarrow> log_entry list list \<Rightarrow> bytes list \<Rightarrow> log_entry list list" where
  "rewrite_all f = foldl (\<lambda>blocks d. rewrite blocks (f, d))"

lemma rewrite_all_simps [simp]:
  "rewrite_all f blocks [] = blocks" "rewrite_all f blocks (d # ds) = rewrite_all f (rewrite blocks (f, d)) ds"
  "rewrite_all f blocks (ds @ [d]) = rewrite (rewrite_all f blocks ds) (f, d)"
  by (simp_all add: rewrite_all_def)

lemma write_records_snoc:
  assumes "write_records P sr fs ds = Some (True, fs1)"
    and "fkfs_single_record_write P sr fs1 d (of_nat (length d)) = Some (True, fs2)"
  shows "write_records P sr fs (ds @ [d]) = Some (True, fs2)"
  using assms by (induction ds arbitrary: fs) (auto simp: bind_eq_Some_conv split: if_splits)

lemma rewrite_nonempty [simp]: "rewrite blocks r \<noteq> []"
  by (simp add: rewrite_def)

lemma rewrite_all_nonempty: "blocks \<noteq> [] \<Longrightarrow> rewrite_all f blocks ds \<noteq> []"
  by (induction ds arbitrary: blocks) simp_all

lemma length_rewrite_all: "blocks \<noteq> [] \<Longrightarrow> length blocks \<le> length (rewrite_all f blocks ds)"
proof (induction ds arbitrary: blocks)
  case (Cons d ds)
  have "length (rewrite blocks (f, d)) \<le> length (rewrite_all f (rewrite blocks (f, d)) ds)" by (rule Cons.IH) simp
  then show ?case
    using length_rewrite [OF Cons.prems, of "(f, d)"] length_place_mono [OF Cons.prems, of "(f, d)"] by simp
qed simp

lemma file_records_rewrite_all:
  "blocks \<noteq> [] \<Longrightarrow> g \<noteq> f \<Longrightarrow> file_records g (rewrite_all f blocks ds) = file_records g blocks"
  by (induction ds arbitrary: blocks) (simp_all add: file_records_rewrite)

lemma younger_rewrite:
  assumes "younger (Suc n) f blocks" "blocks \<noteq> []"
  shows "younger (Suc (Suc n)) f (rewrite blocks (f, d))"
proof -
  have "younger (Suc (Suc n)) f (truncate_log f blocks)" using assms(1) by (rule younger_truncate)
  then show ?thesis using assms(2) by (simp add: younger_def rewrite_def concat_place)
qed

context reliable_device
begin

lemma write_records_ok:
  assumes "represents invar addressable readable contents limit fs blocks"
    and "list_all (\<lambda>d. valid_record (sr_file sr, d)) ds" "length (rewrite_all (sr_file sr) blocks ds) \<le> limit"
    and "younger (Suc n) (sr_file sr) blocks" "n + length ds < 2 ^ 16 - 1"
  shows "\<exists>fs'. write_records P sr fs ds = Some (True, fs')
    \<and> represents invar addressable readable contents limit fs' (rewrite_all (sr_file sr) blocks ds)
    \<and> younger (Suc (n + length ds)) (sr_file sr) (rewrite_all (sr_file sr) blocks ds) \<and> fs_files fs' = fs_files fs"
  using assms
proof (induction ds arbitrary: fs blocks n)
  case Nil
  then show ?case by simp
next
  case (Cons d ds)
  let ?f = "sr_file sr"
  have ne: "blocks \<noteq> []" using represents_parts(7) [OF Cons.prems(1)] .
  have v: "valid_record (?f, d)" "list_all (\<lambda>d. valid_record (?f, d)) ds" using Cons.prems(2) by simp_all
  have len: "length (place blocks (?f, d)) \<le> limit"
    using Cons.prems(3) length_rewrite_all [of "rewrite blocks (?f, d)" ?f ds] length_rewrite [OF ne, of "(?f, d)"]
    by simp
  have y: "younger (2 ^ 16 - 1) ?f blocks" using Cons.prems(4,5) younger_mono by simp
  obtain fs1 where w: "fkfs_single_record_write P sr fs (d @ []) (of_nat (length d)) = Some (True, fs1)"
    and r1: "represents invar addressable readable contents limit fs1 (rewrite blocks (?f, d))"
    and f1: "fs_files fs1 = fs_files fs"
    using single_record_write_ok [OF Cons.prems(1) v(1) y len, of "[]"] by metis
  have "younger (Suc (Suc n)) ?f (rewrite blocks (?f, d))" using Cons.prems(4) ne by (rule younger_rewrite)
  moreover have "length (rewrite_all ?f (rewrite blocks (?f, d)) ds) \<le> limit" "Suc n + length ds < 2 ^ 16 - 1"
    using Cons.prems(3,5) by simp_all
  ultimately show ?case using Cons.IH [OF r1 v(2), of "Suc n"] w f1 by auto
qed

lemma single_record_last:
  assumes "represents invar addressable readable contents limit fs blocks" "sr_file sr = 0"
    and "settings_sync (fs_files fs ! 0) \<noteq> 0" "list_all (\<lambda>d. valid_record (0, d)) (ds @ [d])"
    and "length (rewrite_all 0 blocks (ds @ [d])) \<le> limit" "scannable (rewrite_all 0 blocks (ds @ [d]))"
    and "younger (Suc n) 0 blocks" "n + length ds < 2 ^ 16 - 1" "length d \<le> length ptr"
  shows "\<exists>fs1 fs2 blocks'. write_records P sr fs (ds @ [d]) = Some (True, fs1)
    \<and> fkfs_single_record_read P sr fs1 ptr (of_nat (length d)) = Some (True, d @ drop (length d) ptr, fs2)
    \<and> represents invar addressable readable contents limit fs2 blocks'
    \<and> (\<forall>f. file_records f blocks' = (if f = 0 then [d] else file_records f blocks))"
proof -
  let ?bs = "rewrite_all 0 blocks ds"
  have ne: "blocks \<noteq> []" using represents_parts(7) [OF assms(1)] .
  then have ne': "?bs \<noteq> []" by (rule rewrite_all_nonempty)
  have v: "list_all (\<lambda>d. valid_record (0, d)) ds" "valid_record (0, d)" using assms(4) by simp_all
  have len: "length (place ?bs (0, d)) \<le> limit" "length ?bs \<le> limit"
    using assms(5) length_rewrite [OF ne', of "(0, d)"] length_place_mono [OF ne', of "(0, d)"] by simp_all
  obtain fs0 where w: "write_records P sr fs ds = Some (True, fs0)"
    and r0: "represents invar addressable readable contents limit fs0 ?bs"
      "younger (Suc (n + length ds)) 0 ?bs" "fs_files fs0 = fs_files fs"
    using write_records_ok [OF assms(1), of sr ds n] v(1) len(2) assms(2,7,8) by auto
  have y: "younger (2 ^ 16 - 1) (sr_file sr) ?bs" using younger_mono [OF r0(2)] assms(2,8) by simp
  obtain fs1 where w1: "fkfs_single_record_write P sr fs0 (d @ []) (of_nat (length d)) = Some (True, fs1)"
    and r1: "represents invar addressable readable contents limit fs1 (rewrite ?bs (0, d))"
      "\<not> fs_cachedBlockDirty fs1" "file_startBlock (header_files (fs_header fs1) ! 0) = log_block (length ?bs - 1)"
    using single_record_write_ok [OF r0(1) _ y, of d "[]"] v(2) len(1) assms(2,3) r0(3)
    by (metis unat_0)
  have sc: "scannable (rewrite ?bs (0, d))" using assms(6) by simp
  obtain fs2 where "fkfs_single_record_read P sr fs1 ptr (of_nat (length d)) = Some (True, d @ drop (length d) ptr, fs2)"
    "represents invar addressable readable contents limit fs2 (rewrite ?bs (0, d))"
    using single_record_read_ok [OF r1(1) ne' r1(2) sc assms(9) v(2) r1(3)] by metis
  moreover have "write_records P sr fs (ds @ [d]) = Some (True, fs1)"
    using w w1 by (intro write_records_snoc) simp_all
  moreover have "file_records f (rewrite ?bs (0, d)) = (if f = 0 then [d] else file_records f blocks)" for f
    using file_records_rewrite [OF ne', of f "(0, d)"] file_records_rewrite_all [OF ne, of f 0 ds] by simp
  ultimately show ?thesis by blast
qed

end

section \<open>Property\<close>

text \<open>C8: the single record helpers are a cell. On every device that meets the contract, on a represented log,
  for file 0 configured to be synchronised after each write, a sequence of writes of valid records
  succeeds, and the read returns the record written last in the first bytes of the destination; the log
  then has that record as the only one of file 0 and the other files as they were. The conditions: the log
  of the writes fits the \<open>limit\<close> blocks and leaves seven bytes in every block but the last, there are fewer
  than 65535 truncations since the oldest entry of file 0 in the log, counting one for each write, and the
  destination has room for the last record.\<close>

theorem single_record_reads_last_write:
  assumes dev: "reliable_device P invar addressable readable contents"
    and "represents invar addressable readable contents limit fs blocks" "sr_file sr = 0"
    and "settings_sync (fs_files fs ! 0) \<noteq> 0" "list_all (\<lambda>d. valid_record (0, d)) (ds @ [d])"
    and "length (rewrite_all 0 blocks (ds @ [d])) \<le> limit" "scannable (rewrite_all 0 blocks (ds @ [d]))"
    and "younger (Suc n) 0 blocks" "n + length ds < 2 ^ 16 - 1" "length d \<le> length ptr"
  shows "\<exists>fs1 fs2 blocks'. write_records P sr fs (ds @ [d]) = Some (True, fs1)
    \<and> fkfs_single_record_read P sr fs1 ptr (of_nat (length d)) = Some (True, d @ drop (length d) ptr, fs2)
    \<and> represents invar addressable readable contents limit fs2 blocks'
    \<and> (\<forall>f. file_records f blocks' = (if f = 0 then [d] else file_records f blocks))"
  by (rule reliable_device.single_record_last [OF assms])

end
