(* ===== verification/Fkfs_Size.thy ===== *)
theory Fkfs_Size
  imports Fkfs_Truncate
begin

text \<open>
  The size of a file. Appending adds to the size in the header; \<^verbatim>\<open>calculate_file_size\<close> counts it again
  by iterating over the file, with the size in the header as its counter. The scan does not look at
  the size, so a change of it commutes with the iteration, and on the log the two ways of counting agree.
\<close>

section \<open>The scan and the size\<close>

definition set_size :: "u8 \<Rightarrow> u32 \<Rightarrow> 'd fkfs_t \<Rightarrow> 'd fkfs_t" where
  "set_size f n = fs_file_update f (\<lambda>file. file\<lparr>file_size := n\<rparr>)"

lemma set_size_fields [simp]:
  "fs_sd (set_size f n fs) = fs_sd fs" "fs_buffer (set_size f n fs) = fs_buffer fs"
  "fs_cachedBlockNumber (set_size f n fs) = fs_cachedBlockNumber fs"
  "fs_numberOfBlocks (set_size f n fs) = fs_numberOfBlocks fs"
  "header_block (fs_header (set_size f n fs)) = header_block (fs_header fs)"
  by (simp_all add: set_size_def fs_file_update_def)

lemma set_size_update [simp]:
  "set_size f n (fs\<lparr>fs_sd := sd\<rparr>) = (set_size f n fs)\<lparr>fs_sd := sd\<rparr>"
  "set_size f n (fs\<lparr>fs_buffer := b\<rparr>) = (set_size f n fs)\<lparr>fs_buffer := b\<rparr>"
  "set_size f n (fs\<lparr>fs_cachedBlockNumber := c\<rparr>) = (set_size f n fs)\<lparr>fs_cachedBlockNumber := c\<rparr>"
  "set_size f n (fs\<lparr>fs_cachedBlockDirty := d\<rparr>) = (set_size f n fs)\<lparr>fs_cachedBlockDirty := d\<rparr>"
  "set_size f n (fs_stat_update g fs) = fs_stat_update g (set_size f n fs)"
  by (simp_all add: set_size_def fs_file_update_def fs_stat_update_def)

lemma millis_set_size: "fs_millis P (set_size f n fs) = apsnd (set_size f n) (fs_millis P fs)"
  by (simp add: fs_millis_def Let_def case_prod_beta)

lemma read_block_set_size:
  "fkfs_read_block P (set_size f n fs) b buf =
     map_option (\<lambda>(s, buf, fs). (s, buf, set_size f n fs)) (fkfs_read_block P fs b buf)"
  by (cases "plat_read_block P (snd (plat_millis P (fs_sd fs))) b buf")
    (auto simp: fkfs_read_block_def fs_millis_def fs_stat_update_def set_size_def fs_file_update_def Let_def
      case_prod_beta)

lemma block_ensure_set_size:
  "fkfs_block_ensure P (set_size f n fs) b = map_option (apsnd (set_size f n)) (fkfs_block_ensure P fs b)"
  by (cases "fkfs_read_block P fs b (fs_buffer fs)")
    (auto simp: fkfs_block_ensure_def read_block_set_size Let_def)

lemma update_size_version:
  "file_version (xs[i := (xs ! i)\<lparr>file_size := n\<rparr>] ! j) = file_version (xs ! j)"
  by (cases "i < length xs") (auto simp: nth_list_update list_update_beyond)

lemma block_check_set_size: "fkfs_block_check (set_size f n fs) ptr = fkfs_block_check fs ptr"
proof -
  have "fkfs_block_crc (header_files (fs_header (set_size f n fs)) ! k) = fkfs_block_crc (header_files (fs_header fs) ! k)" for k
    by (intro ext) (simp add: fkfs_block_crc_def set_size_def fs_file_update_def update_size_version)
  then show ?thesis by (simp only: fkfs_block_check_def Let_def)
qed

lemma status_tick_set_size: "status_tick P (set_size f n fs) ls = apfst (set_size f n) (status_tick P fs ls)"
  by (simp add: status_tick_def millis_set_size Let_def case_prod_beta)

lemma scan_next_block_set_size:
  "scan_next_block P config started (set_size f n fs) iter mb =
     (case scan_next_block P config started fs iter mb of (stop, fs, iter, mb) \<Rightarrow> (stop, set_size f n fs, iter, mb))"
  by (simp add: scan_next_block_def wrap_token_def millis_set_size Let_def case_prod_beta)

lemma scan_body_set_size:
  "scan_body P config started (set_size f n fs, iter, ls, mb) =
     map_option (map_sum (\<lambda>(ok, fs, iter). (ok, set_size f n fs, iter))
         (\<lambda>(fs, iter, ls, mb). (set_size f n fs, iter, ls, mb)))
       (scan_body P config started (fs, iter, ls, mb))"
proof (cases "fkfs_block_ensure P fs (token_block (iter_token iter))")
  case None
  then show ?thesis by (simp add: scan_body_def block_ensure_set_size)
next
  case (Some r)
  obtain ok fs1 where r: "r = (ok, fs1)" by (cases r)
  have ptr: "iter_ptr (set_size f n fs1) iter = iter_ptr fs1 iter" by (simp add: iter_ptr_def)
  show ?thesis
    using Some r
    by (cases "fkfs_block_check fs1 (iter_ptr fs1 iter)")
      (auto simp: scan_body_def block_ensure_set_size block_check_set_size ptr status_tick_set_size
        scan_next_block_set_size Let_def case_prod_beta)
qed

lemma scan_loop_set_size:
  assumes "scan_loop P config started (fs, iter, ls, mb) = Some (ok, fs', iter')"
  shows "scan_loop P config started (set_size f n fs, iter, ls, mb) = Some (ok, set_size f n fs', iter')"
proof -
  let ?Q = "\<lambda>(((P, config), started), (st :: 'a scan_state)) r.
    scan_loop P config started (set_size f n (fst st), snd st) = Some (fst r, set_size f n (fst (snd r)), snd (snd r))"
  have "?Q (((P, config), started), (fs, iter, ls, mb)) (ok, fs', iter')"
  proof (rule scan_loop.raw_induct [where Pa = ?Q, OF _ assms], goal_cases)
    case (1 loop P config started st r)
    obtain fs iter ls mb where st: "st = (fs, iter, ls, mb)" by (cases st)
    from 1(2) obtain b where b: "scan_body P config started st = Some b"
      and r: "(case b of Inl result \<Rightarrow> Some result | Inr st' \<Rightarrow> loop P config started st') = Some r"
      by (auto simp: bind_eq_Some_conv)
    show ?case
    proof (cases b)
      case (Inl result)
      with b r show ?thesis
        by (subst split_conv, subst scan_loop.simps) (simp add: st scan_body_set_size case_prod_beta)
    next
      case (Inr st')
      then have "?Q (((P, config), started), st') r" using r by (intro 1(1)) simp
      with b Inr show ?thesis
        by (subst split_conv, subst scan_loop.simps) (simp add: st scan_body_set_size case_prod_beta)
    qed
  qed
  then show ?thesis by simp
qed

lemma iterate_set_size:
  assumes "fkfs_file_iterate P fs config iter = Some (ok, fs', iter')"
  shows "fkfs_file_iterate P (set_size f n fs) config iter = Some (ok, set_size f n fs', iter')"
proof -
  let ?st = "fs_stat_update (\<lambda>s. s\<lparr>stat_iterateCalls := stat_iterateCalls s + 1\<rparr>)"
  have v: "fkfs_file_iterator_valid (?st (set_size f n fs)) iter = fkfs_file_iterator_valid (?st fs) iter"
    by (simp add: fkfs_file_iterator_valid_def fs_stat_update_def)
  obtain t fs1 where m: "fs_millis P (?st fs) = (t, fs1)" by (cases "fs_millis P (?st fs)")
  then have m': "fs_millis P (?st (set_size f n fs)) = (t, set_size f n fs1)"
    using millis_set_size [of P f n "?st fs"] by simp
  show ?thesis
  proof (cases "fkfs_file_iterator_valid (?st fs) iter \<and> \<not> fkfs_file_iterator_done iter")
    case False
    then show ?thesis using assms v by (auto simp: fkfs_file_iterate_def Let_def)
  next
    case True
    then obtain fs2 where l: "scan_loop P config t (fs1, iter, t, config_maxBlocks config) = Some (ok, fs2, iter')"
      and f: "fs' = (let (now, fs) = fs_millis P fs2 in
        fs_stat_update (\<lambda>s. s\<lparr>stat_iterateTime := stat_iterateTime s + (now - t)\<rparr>) fs)"
      using assms m by (auto simp: fkfs_file_iterate_def Let_def case_prod_beta bind_eq_Some_conv)
    show ?thesis
      using True v m' scan_loop_set_size [OF l, of f n] f
      by (simp add: fkfs_file_iterate_def millis_set_size Let_def case_prod_beta)
  qed
qed

section \<open>Counting again\<close>

lemma set_size_set_size [simp]: "set_size f m (set_size f n fs) = set_size f m fs"
  by (cases "unat f < length (header_files (fs_header fs))")
    (simp_all add: set_size_def fs_file_update_def list_update_beyond)

lemma set_size_id: "file_size (header_files (fs_header fs) ! unat f) = n \<Longrightarrow> set_size f n fs = fs"
  by (auto simp: set_size_def fs_file_update_def)

lemma add_to_size:
  assumes "unat f < length (header_files (fs_header fs))"
  shows "fs_file_update f (\<lambda>file. file\<lparr>file_size := file_size file + m\<rparr>) (set_size f n fs) = set_size f (n + m) fs"
  using assms by (simp add: set_size_def fs_file_update_def)

lemma create_set_size:
  assumes "represents invar addressable readable contents limit fs blocks" "unat f < 4"
  shows "\<exists>iter'. fkfs_file_iterator_create (set_size f n fs) f iter = Some (True, iter') \<and> iter_after blocks f 0 iter'"
proof -
  obtain iter' where c: "fkfs_file_iterator_create fs f iter = Some (True, iter')" and a: "iter_after blocks f 0 iter'"
    using iterator_create_at [OF assms] by blast
  have l: "unat f < length (header_files (fs_header fs))"
    using represents_parts(12) [OF assms(1)] assms(2) by (simp add: wf_header_def)
  obtain z where "fkfs_file_iterator_create (set_size f n fs) f iter =
      Some (True, iter'\<lparr>iter_token := (iter_token iter')\<lparr>token_size := z\<rparr>\<rparr>)"
    using c l by (auto simp: fkfs_file_iterator_create_def set_size_def fs_file_update_def Let_def split: if_splits)
  moreover have "iter_after blocks f 0 (iter'\<lparr>iter_token := (iter_token iter')\<lparr>token_size := z\<rparr>\<rparr>)"
    using a by (simp add: iter_after_def iter_at_def)
  ultimately show ?thesis by blast
qed

context reliable_device
begin

lemma size_loop_counts:
  assumes "represents invar addressable readable contents limit fs blocks" "\<not> fs_cachedBlockDirty fs"
    and "scannable blocks" "iter_after blocks f k iter" "unat f < 4"
    and "reaches config (config_maxBlocks config) (length blocks)" "\<not> config_manualNext config"
  shows "\<exists>fs'. file_size_loop P config f (set_size f n fs) iter =
      Some (True, set_size f (n + of_nat (sum_list (map length (drop k (file_records f blocks))))) fs')
    \<and> represents invar addressable readable contents limit fs' blocks \<and> same_meta fs fs'"
  using assms(1,2,4)
proof (induction "length (ends f blocks) - k" arbitrary: fs iter k n)
  case 0
  then have k: "k = length (ends f blocks)" by (simp add: iter_after_def)
  from iterate_end [OF 0(2) 0(4) [unfolded k], of config]
  obtain fs1 where i: "fkfs_file_iterate P fs config iter = Some (False, fs1, iter)"
    and r: "represents invar addressable readable contents limit fs1 blocks" "same_meta fs fs1"
    by blast
  have "file_size_loop P config f (set_size f n fs) iter = Some (True, set_size f n fs1)"
    using iterate_set_size [OF i, of f n] by (subst file_size_loop.simps) simp
  then show ?case using r k by (auto simp: length_file_records)
next
  case (Suc m)
  have k: "k < length (ends f blocks)" using Suc.hyps(2) by simp
  let ?d = "file_records f blocks ! k"
  obtain fs1 iter1 where i: "fkfs_file_iterate P fs config iter = Some (True, fs1, iter1)"
    and r: "represents invar addressable readable contents limit fs1 blocks" "same_meta fs fs1"
    and a: "iter_after blocks f (Suc k) iter1" and d: "iter_size iter1 = of_nat (length ?d)"
    using iterate_next [OF Suc.prems(1,2) assms(3) Suc.prems(3) k assms(6)] assms(7) by metis
  have kf: "k < length (file_records f blocks)" using k by (simp add: length_file_records)
  then have dr: "drop k (file_records f blocks) = ?d # drop (Suc k) (file_records f blocks)"
    by (rule Cons_nth_drop_Suc [symmetric])
  have "length ?d \<le> 505"
    using nth_mem [OF kf] represents_valid_records [OF assms(1)] by (rule file_records_bound)
  then have sz: "ucast (iter_size iter1) = (of_nat (length ?d) :: u32)"
    unfolding d by (simp add: unsigned_of_nat take_bit_nat_eq_self)
  have clean: "\<not> fs_cachedBlockDirty fs1" using r(2) Suc.prems(2) by (simp add: same_meta_def)
  have l: "unat f < length (header_files (fs_header fs1))"
    using represents_parts(12) [OF r(1)] assms(5) by (simp add: wf_header_def)
  have m: "m = length (ends f blocks) - Suc k" using Suc.hyps(2) by simp
  from Suc.hyps(1) [OF m r(1) clean a, of "n + of_nat (length ?d)"] obtain fs2 where
    s: "file_size_loop P config f (set_size f (n + of_nat (length ?d)) fs1) iter1 = Some (True, set_size f
      (n + of_nat (length ?d) + of_nat (sum_list (map length (drop (Suc k) (file_records f blocks))))) fs2)"
    and r2: "represents invar addressable readable contents limit fs2 blocks" "same_meta fs1 fs2"
    by blast
  have "file_size_loop P config f (set_size f n fs) iter =
      Some (True, set_size f (n + of_nat (sum_list (map length (drop k (file_records f blocks))))) fs2)"
    using iterate_set_size [OF i, of f n] s
    by (subst file_size_loop.simps) (simp add: sz add_to_size [OF l] dr add.assoc)
  then show ?case using r2 same_meta_trans [OF r(2) r2(2)] by blast
qed

lemma calculate_size_agrees:
  assumes "represents invar addressable readable contents limit fs blocks" "\<not> fs_cachedBlockDirty fs"
    and "scannable blocks" "unat f < 4" "length blocks < 10"
  shows "\<exists>fs'. calculate_file_size P fs f stack = Some (True, fs')
    \<and> represents invar addressable readable contents limit fs' blocks \<and> fs_header fs' = fs_header fs
    \<and> file_size (header_files (fs_header fs') ! unat f) = of_nat (sum_list (map length (file_records f blocks)))"
proof -
  let ?c = "\<lparr> config_maxBlocks = 10, config_maxTime = 0, config_manualNext = False \<rparr>"
  obtain iter where c: "fkfs_file_iterator_create (set_size f 0 fs) f stack = Some (True, iter)"
    and a: "iter_after blocks f 0 iter"
    using create_set_size [OF assms(1,4)] by blast
  have rc: "reaches ?c (config_maxBlocks ?c) (length blocks)" using assms(5) by (simp add: reaches_def)
  let ?n = "of_nat (sum_list (map length (file_records f blocks))) :: u32"
  from size_loop_counts [OF assms(1-3) a assms(4) rc, of 0]
  obtain fs' where s: "file_size_loop P ?c f (set_size f 0 fs) iter = Some (True, set_size f ?n fs')"
    and r: "represents invar addressable readable contents limit fs' blocks" "same_meta fs fs'"
    by auto
  have n: "file_size (header_files (fs_header fs') ! unat f) = ?n"
    using represents_parts(15) [OF r(1) assms(4)] by (simp add: file_matches_def)
  then have "set_size f ?n fs' = fs'" by (rule set_size_id)
  then have "calculate_file_size P fs f stack = Some (True, fs')"
    using c s by (simp add: calculate_file_size_def set_size_def [symmetric])
  then show ?thesis using r n by (auto simp: same_meta_def)
qed

end

section \<open>Property\<close>

text \<open>C10: counting the size of a file again agrees with the size the appends have kept, on small logs. For an
  object that represents a log of fewer than ten blocks, has nothing unwritten in its cache, and whose
  blocks but the last leave room for one more header, \<^verbatim>\<open>calculate_file_size\<close>, which sets the size in the
  header to zero and adds up the records of an iteration, returns and leaves the header as it was, whatever
  its local iterator held at the start. (Behind ten blocks without a record of the file the iteration gives
  up and the count is too small, \<^verbatim>\<open>fkfs.cpp\<close> line 578.)\<close>

theorem calculate_file_size_agrees:
  assumes "reliable_device P invar addressable readable contents"
    and "represents invar addressable readable contents limit fs blocks" "\<not> fs_cachedBlockDirty fs"
    and "scannable blocks" "unat f < 4" "length blocks < 10"
  shows "\<exists>fs'. calculate_file_size P fs f stack = Some (True, fs')
    \<and> represents invar addressable readable contents limit fs' blocks \<and> fs_header fs' = fs_header fs
    \<and> file_size (header_files (fs_header fs') ! unat f) = of_nat (sum_list (map length (file_records f blocks)))"
  by (rule reliable_device.calculate_size_agrees [OF assms])

end
