(* ===== verification/Fkfs_Reuse.thy ===== *)
theory Fkfs_Reuse
  imports Fkfs_Refine
begin

text \<open>
  Where the search for a place stops, and what happens when it stops at an entry of a file of lower
  priority. The search takes the first place that is not a good entry or whose entry may be
  overwritten. The entry that is written there says that it has its own size available and not
  that of the entry it replaces, so the chain ends in the middle of the old data.
\<close>

section \<open>The search\<close>

text \<open>The entry at an offset, and whether a file of priority \<open>priority\<close> may overwrite it.\<close>

definition at_offset :: "bytes \<Rightarrow> u16 \<Rightarrow> bytes" where
  "at_offset buffer offset = drop (unat offset) (take SD_RAW_BLOCK_SIZE buffer)"

definition entry_at :: "bytes \<Rightarrow> u16 \<Rightarrow> fkfs_entry_t" where
  "entry_at buffer offset = entry_of_bytes (take sizeof_fkfs_entry_t (at_offset buffer offset))"

definition replaceable :: "'d fkfs_t \<Rightarrow> u8 \<Rightarrow> u16 \<Rightarrow> fkfs_entry_t \<Rightarrow> bool" where
  "replaceable fs priority required entry \<longleftrightarrow>
     settings_priority (fs_files fs ! unat (entry_file entry)) > priority \<and> entry_available entry \<ge> required"

text \<open>Good entries that must be kept lead from one offset to another.\<close>

inductive kept_chain :: "'d fkfs_t \<Rightarrow> u8 \<Rightarrow> u16 \<Rightarrow> bytes \<Rightarrow> u16 \<Rightarrow> u16 \<Rightarrow> bool"
  for fs priority required buffer where
  kept_refl: "kept_chain fs priority required buffer offset offset"
| kept_step: "\<lbrakk>fkfs_block_check fs (at_offset buffer offset) = Some FKFS_OFFSET_SEARCH_STATUS_GOOD;
     \<not> replaceable fs priority required (entry_at buffer offset);
     kept_chain fs priority required buffer (offset + (7 + entry_available (entry_at buffer offset))) last_offset\<rbrakk>
   \<Longrightarrow> kept_chain fs priority required buffer offset last_offset"

lemma search_step:
  "fkfs_block_available_offset fs priority required buffer offset =
     (case fkfs_block_check fs (at_offset buffer offset) of
        None \<Rightarrow> None
      | Some status \<Rightarrow>
          if status = FKFS_OFFSET_SEARCH_STATUS_SIZE \<or> status = FKFS_OFFSET_SEARCH_STATUS_CRC
          then Some (True, \<lparr> search_offset = offset, search_status = status \<rparr>)
          else if replaceable fs priority required (entry_at buffer offset)
          then Some (True, \<lparr> search_offset = offset, search_status = FKFS_OFFSET_SEARCH_STATUS_PRIORITY \<rparr>)
          else let offset' = offset + (7 + entry_available (entry_at buffer offset))
            in if unat offset' + unat required < SD_RAW_BLOCK_SIZE
               then fkfs_block_available_offset fs priority required buffer offset'
               else Some (False, \<lparr> search_offset = offset', search_status = FKFS_OFFSET_SEARCH_STATUS_EOB \<rparr>))"
  by (subst fkfs_block_available_offset.simps) (simp only: at_offset_def entry_at_def replaceable_def Let_def)

lemma search_pass:
  assumes "fkfs_block_check fs (at_offset buffer offset) = Some FKFS_OFFSET_SEARCH_STATUS_GOOD"
    and "\<not> replaceable fs priority required (entry_at buffer offset)"
    and "next_offset = offset + (7 + entry_available (entry_at buffer offset))"
  shows "fkfs_block_available_offset fs priority required buffer offset =
    (if unat next_offset + unat required < SD_RAW_BLOCK_SIZE
     then fkfs_block_available_offset fs priority required buffer next_offset
     else Some (False, \<lparr> search_offset = next_offset, search_status = FKFS_OFFSET_SEARCH_STATUS_EOB \<rparr>))"
  unfolding search_step [of fs priority required buffer offset] assms(1) assms(3) [symmetric] option.case Let_def
  using assms(2) by simp

lemma search_first_place:
  assumes "fkfs_block_available_offset fs priority required buffer offset = Some (found, search)"
  shows "kept_chain fs priority required buffer offset (search_offset search)
    \<and> (if found then
         (search_status search = FKFS_OFFSET_SEARCH_STATUS_SIZE \<or> search_status search = FKFS_OFFSET_SEARCH_STATUS_CRC)
           \<and> fkfs_block_check fs (at_offset buffer (search_offset search)) = Some (search_status search)
         \<or> search_status search = FKFS_OFFSET_SEARCH_STATUS_PRIORITY
           \<and> fkfs_block_check fs (at_offset buffer (search_offset search)) = Some FKFS_OFFSET_SEARCH_STATUS_GOOD
           \<and> replaceable fs priority required (entry_at buffer (search_offset search))
       else search_status search = FKFS_OFFSET_SEARCH_STATUS_EOB
         \<and> SD_RAW_BLOCK_SIZE \<le> unat (search_offset search) + unat required)"
  using assms
proof (induction fs priority required buffer offset arbitrary: found search rule: fkfs_block_available_offset.induct)
  case (1 fs priority required buffer offset)
  let ?next = "offset + (7 + entry_available (entry_at buffer offset))"
  obtain status where c: "fkfs_block_check fs (at_offset buffer offset) = Some status"
    using "1.prems" by (subst (asm) search_step) (auto split: option.splits)
  have b: "status = FKFS_OFFSET_SEARCH_STATUS_SIZE \<or> status = FKFS_OFFSET_SEARCH_STATUS_CRC \<or>
      status = FKFS_OFFSET_SEARCH_STATUS_GOOD"
    using c fkfs_block_check_bounds(7) by blast
  show ?case
  proof (cases "status = FKFS_OFFSET_SEARCH_STATUS_GOOD \<and> \<not> replaceable fs priority required (entry_at buffer offset)")
    case False
    have "found \<and> search_offset search = offset \<and> (status \<noteq> FKFS_OFFSET_SEARCH_STATUS_GOOD \<and> search_status search = status
        \<or> status = FKFS_OFFSET_SEARCH_STATUS_GOOD \<and> search_status search = FKFS_OFFSET_SEARCH_STATUS_PRIORITY)"
      using "1.prems" c b False by (subst (asm) search_step) (auto split: if_splits)
    then show ?thesis using c b False by (auto intro: kept_refl)
  next
    case True
    then have good: "fkfs_block_check fs (at_offset buffer offset) = Some FKFS_OFFSET_SEARCH_STATUS_GOOD"
      and keep: "\<not> replaceable fs priority required (entry_at buffer offset)" using c by simp_all
    note eq = "1.prems" [unfolded search_pass [OF good keep refl]]
    have step: "kept_chain fs priority required buffer ?next q \<Longrightarrow> kept_chain fs priority required buffer offset q" for q
      by (rule kept_step [OF good keep])
    show ?thesis
    proof (cases "unat ?next + unat required < SD_RAW_BLOCK_SIZE")
      case again: True
      note IH = "1.IH" [OF refl refl, folded at_offset_def, OF c, folded at_offset_def entry_at_def replaceable_def]
      from IH [OF _ _ refl refl again] eq again True show ?thesis by (auto intro: step)
    next
      case stop: False
      with eq step [OF kept_refl] show ?thesis by auto
    qed
  qed
qed

section \<open>Overwriting an entry of lower priority\<close>

lemma search_replaces:
  assumes "wf_header (fs_header fs)" "block_holds (versions fs) (es1 @ e # es2) buffer"
    and "unat offset = chain_length es1" "snd (fst e) = 0"
    and "settings_priority (fs_files fs ! unat (fst (fst e))) > priority" "unat required \<le> length (snd e)"
  shows "fkfs_block_available_offset fs priority required buffer offset =
    Some (True, \<lparr> search_offset = offset, search_status = FKFS_OFFSET_SEARCH_STATUS_PRIORITY \<rparr>)"
proof -
  have "length buffer = 512" and v: "valid_entry e" using assms(2) by (simp_all add: block_holds_def)
  then have at: "at_offset buffer offset = drop (chain_length (take (length es1) (es1 @ e # es2))) buffer"
    using assms(3) by (simp add: at_offset_def)
  note c = check_chain [OF assms(1,2), of "length es1", folded at]
  have "replaceable fs priority required (entry_at buffer offset)"
    using c(2) assms(5,6) valid_entry_size(3) [OF v]
    by (simp add: entry_at_def replaceable_def word_le_nat_alt)
  then show ?thesis using c(1) assms(4) by (subst search_step) simp
qed

lemma mem_write_middle:
  "length b = length b' \<Longrightarrow> n = length a \<Longrightarrow> mem_write (a @ b @ c) n b' = Some (a @ b' @ c)"
  by (simp add: mem_write_def)

text \<open>The bytes after an entry and its data were written over the entry behind \<open>es1\<close>.\<close>

lemma overwrite_entry:
  assumes "block_holds vers (es1 @ e # es2) blk" "7 + length (snd r) \<le> length (snd e)"
  shows "\<exists>blk1 blk2. mem_write blk (chain_length es1) (entry_bytes (record_entry vers (stored r))) = Some blk1
    \<and> mem_write blk1 (chain_length es1 + 7) (snd r) = Some blk2
    \<and> blk2 = chain_image vers (es1 @ [stored r]) @ drop (length (snd r)) (snd e)
        @ chain_image vers es2 @ drop (chain_length (es1 @ e # es2)) blk"
proof -
  let ?n = "chain_length es1" and ?h = "entry_bytes (record_entry vers (stored r))"
  let ?tl = "chain_image vers es2 @ drop (chain_length (es1 @ e # es2)) blk"
  have blk: "chain_image vers es1 @ entry_bytes (record_entry vers e) @ snd e @ ?tl = blk"
    using block_holds_drop [OF assms(1), of 0] by (simp add: record_image_def)
  define blk1 where "blk1 = chain_image vers es1 @ ?h @ snd e @ ?tl"
  define blk2 where "blk2 = (chain_image vers es1 @ ?h) @ snd r @ drop (length (snd r)) (snd e) @ ?tl"
  have "mem_write (chain_image vers es1 @ entry_bytes (record_entry vers e) @ snd e @ ?tl) ?n ?h = Some blk1"
    unfolding blk1_def by (rule mem_write_middle) simp_all
  then have "mem_write blk ?n ?h = Some blk1" unfolding blk .
  moreover have "mem_write ((chain_image vers es1 @ ?h) @ take (length (snd r)) (snd e)
      @ drop (length (snd r)) (snd e) @ ?tl) (?n + 7) (snd r) = Some blk2"
    unfolding blk2_def using assms(2) by (intro mem_write_middle) simp_all
  then have "mem_write blk1 (?n + 7) (snd r) = Some blk2"
    unfolding append_assoc append_assoc [of "take _ _", symmetric] append_take_drop_id blk1_def [symmetric] .
  moreover have "blk2 = chain_image vers (es1 @ [stored r]) @ drop (length (snd r)) (snd e) @ ?tl"
    by (simp add: blk2_def record_image_def)
  ultimately show ?thesis by simp
qed

text \<open>An allocation that needs neither a new block nor a transfer.\<close>

lemma allocate_in_place:
  assumes "fs_cachedBlockNumber fs = header_block (fs_header fs)"
    and "unat required + unat (header_offset (fs_header fs)) \<le> SD_RAW_BLOCK_SIZE"
    and "fkfs_block_available_offset fs (settings_priority (fs_files fs ! unat f)) required (fs_buffer fs)
      (header_offset (fs_header fs)) = Some (True, search)" "search_offset search = header_offset (fs_header fs)"
  shows "fkfs_file_allocate_block P fs f required = Some (True, fs)"
  using assms
  by (simp add: fkfs_file_allocate_block_def allocate_loop.simps [of P f required fs] allocate_move_def
      fkfs_block_ensure_def fs_header_map_def)

lemma append_replaces:
  assumes wf: "wf_header (fs_header fs)" "fs_cachedBlockNumber fs = header_block (fs_header fs)"
    and blk: "block_holds (versions fs) (es1 @ e # es2) (fs_buffer fs)"
      "unat (header_offset (fs_header fs)) = chain_length es1" "snd (fst e) = 0"
    and r: "valid_record r" "7 + length (snd r) \<le> length (snd e)"
      "settings_priority (fs_files fs ! unat (fst (fst e))) > settings_priority (fs_files fs ! unat (fst r))"
    and "settings_sync (fs_files fs ! unat (fst r)) = 0"
  shows "\<exists>fs'. fkfs_file_append P fs (fst r) (of_nat (length (snd r))) (snd r @ slack) = Some (True, fs')
    \<and> versions fs' = versions fs \<and> wf_header (fs_header fs') \<and> fs_cachedBlockNumber fs' = fs_cachedBlockNumber fs
    \<and> unat (header_offset (fs_header fs')) = chain_length (es1 @ [stored r])
    \<and> fs_buffer fs' = chain_image (versions fs) (es1 @ [stored r]) @ drop (length (snd r)) (snd e)
        @ chain_image (versions fs) es2 @ drop (chain_length (es1 @ e # es2)) (fs_buffer fs)"
proof -
  let ?req = "7 + of_nat (length (snd r)) :: u16" and ?off = "header_offset (fs_header fs)"
  have lim: "chain_length es1 + 7 + length (snd e) \<le> 512" using blk(1) by (simp add: block_holds_def)
  note req = unat_required [OF r(1)]
  have "unat ?req \<le> length (snd e)" using req r(2) by simp
  note search = search_replaces [OF wf(1) blk r(3) this]
  have a: "fkfs_file_allocate_block P fs (fst r) ?req = Some (True, fs)"
    using req r(2) lim blk(2) by (intro allocate_in_place [OF wf(2) _ search]) simp_all
  obtain b1 b2 where b1: "mem_write (fs_buffer fs) (unat ?off) (entry_bytes (record_entry (versions fs) (stored r))) = Some b1"
    and b2: "mem_write b1 (unat ?off + 7) (snd r) = Some b2"
      "b2 = chain_image (versions fs) (es1 @ [stored r]) @ drop (length (snd r)) (snd e)
        @ chain_image (versions fs) es2 @ drop (chain_length (es1 @ e # es2)) (fs_buffer fs)"
    using overwrite_entry [OF blk(1) r(2)] unfolding blk(2) by blast
  have "fkfs_file_append P fs (fst r) (of_nat (length (snd r))) (snd r @ slack) = Some (True, put_record fs r b2)"
    using append_eq [OF a r(1) wf(1) refl b1 b2(1)] assms(9) by simp
  moreover have "unat (?off + ?req) = chain_length (es1 @ [stored r])"
    using req r(2) lim blk(2) by (simp add: unat_plus_if' del: of_nat_add)
  moreover have "wf_header (fs_header (put_record fs r b2))" using wf(1) by (rule wf_header_put_record)
  ultimately show ?thesis using b2(2) by auto
qed

section \<open>Scanning a block with foreign bytes behind its chain\<close>

text \<open>The offsets at which a scan of a chain of entries stands, and an iterator that is at one of them or
  in another block.\<close>

definition chain_offsets :: "log_entry list \<Rightarrow> nat set" where
  "chain_offsets es = (\<lambda>j. chain_length (take j es)) ` {..length es}"

definition at_chain :: "u32 \<Rightarrow> log_entry list \<Rightarrow> fkfs_file_iter_t \<Rightarrow> bool" where
  "at_chain b es iter \<longleftrightarrow>
     (token_block (iter_token iter) = b \<longrightarrow> unat (token_offset (iter_token iter)) \<in> chain_offsets es)"

definition same_block :: "'d fkfs_t \<Rightarrow> 'd fkfs_t \<Rightarrow> bool" where
  "same_block fs fs' \<longleftrightarrow> fs_header fs = fs_header fs' \<and> fs_buffer fs = fs_buffer fs'
     \<and> fs_cachedBlockNumber fs = fs_cachedBlockNumber fs'"

text \<open>What a step of a scan leaves: the object and the iterator.\<close>

definition scan_result :: "((bool \<times> 'd fkfs_t \<times> fkfs_file_iter_t) + 'd scan_state) \<Rightarrow> 'd fkfs_t \<times> fkfs_file_iter_t" where
  "scan_result res = (case res of Inl (ok, fs, iter) \<Rightarrow> (fs, iter) | Inr (fs, iter, t, n) \<Rightarrow> (fs, iter))"

lemma same_block_tick: "same_block (fst (status_tick P fs t)) fs"
  by (simp add: same_block_def status_tick_def fs_millis_def Let_def case_prod_beta)

lemma next_block_at_chain:
  assumes "scan_next_block P config started fs iter n = (stop, fs1, iter1, n1)"
  shows "same_block fs1 fs" "at_chain b es iter1"
proof -
  have "0 \<in> chain_offsets es" unfolding chain_offsets_def by (rule image_eqI [of _ _ 0]) simp_all
  then show "same_block fs1 fs" "at_chain b es iter1"
    using assms
    by (auto simp: scan_next_block_def Let_def wrap_token_def token_map_def at_chain_def same_block_def
        fs_millis_def case_prod_beta split: if_splits)
qed

lemma scan_step_entry:
  assumes wf: "wf_header (fs_header fs)" and buf: "fs_buffer fs = chain_image (versions fs) es @ rest"
    "length (fs_buffer fs) = 512" "list_all valid_entry es" "j < length es"
    and it: "fs_cachedBlockNumber fs = token_block (iter_token iter)"
      "unat (token_offset (iter_token iter)) = chain_length (take j es)"
  shows "\<exists>res. scan_body P config started (fs, iter, t, n) = Some res
    \<and> same_block (fst (scan_result res)) fs \<and> at_chain b es (snd (scan_result res))"
proof -
  let ?r = "es ! j" and ?tl = "chain_image (versions fs) (drop (Suc j) es) @ rest"
  have es: "chain_image (versions fs) es = chain_image (versions fs) (take j es) @ record_image (versions fs) ?r
      @ chain_image (versions fs) (drop (Suc j) es)"
    using id_take_nth_drop [OF buf(4)] chain_image_simps(2,3) by metis
  have v: "valid_entry ?r" using buf(3,4) by (simp add: list_all_length)
  have ptr: "iter_ptr fs iter = record_image (versions fs) ?r @ ?tl"
    using buf(1,2) it(2) es by (simp add: iter_ptr_def)
  have entry: "entry_of_bytes (take 7 (iter_ptr fs iter)) = record_entry (versions fs) ?r"
    unfolding ptr record_image_def using entry_roundtrip [of _ "[]"] by simp
  have ch: "fkfs_block_check fs (iter_ptr fs iter) = Some (if snd (fst ?r) = 0
      then FKFS_OFFSET_SEARCH_STATUS_GOOD else FKFS_OFFSET_SEARCH_STATUS_CRC)"
    unfolding ptr by (rule check_record [OF wf v])
  have "chain_length (take (Suc j) es) \<le> 512" using buf(1,2) chain_length_take_le [of "Suc j" es] by simp
  then have "unat (token_offset (iter_token iter) + (entry_available (record_entry (versions fs) ?r) + 7)) =
      chain_length (take (Suc j) es)"
    using it(2) chain_length_take_Suc [OF buf(4)] by (simp add: unat_plus_if' unat_of_nat)
  then have adv: "at_chain b es (advance_token (record_entry (versions fs) ?r) iter)"
    using buf(4) by (auto simp: at_chain_def advance_token_def token_map_def chain_offsets_def)
  have stay: "at_chain b es iter" using it(2) buf(4) by (auto simp: at_chain_def chain_offsets_def)
  show ?thesis
    using ch entry adv stay it(1) same_block_tick [of P fs t]
    by (auto simp: scan_body_def fkfs_block_ensure_def scan_result_def Let_def at_chain_def advance_token_def
        token_map_def same_block_def case_prod_beta)
qed

lemma scan_step_end:
  assumes buf: "fs_buffer fs = chain_image vers es @ rest" "length (fs_buffer fs) = 512"
    "7 \<le> length rest" "erased (take 7 rest)"
    and it: "fs_cachedBlockNumber fs = token_block (iter_token iter)"
      "unat (token_offset (iter_token iter)) = chain_length es"
  shows "\<exists>res. scan_body P config started (fs, iter, t, n) = Some res
    \<and> same_block (fst (scan_result res)) fs \<and> at_chain b es (snd (scan_result res))"
proof -
  have "iter_ptr fs iter = rest" using buf(1,2) it(2) by (simp add: iter_ptr_def)
  then have ch: "fkfs_block_check fs (iter_ptr fs iter) = Some FKFS_OFFSET_SEARCH_STATUS_SIZE"
    using check_erased_prefix [OF buf(4,3)] by simp
  obtain stop fs1 iter1 n1 where nb: "scan_next_block P config started fs iter n = (stop, fs1, iter1, n1)"
    by (metis prod_cases4)
  have "same_block (fst (status_tick P fs1 t)) fs"
    using same_block_tick [of P fs1 t] next_block_at_chain(1) [OF nb] by (simp add: same_block_def)
  then show ?thesis
    using ch nb next_block_at_chain [OF nb] it(1)
    by (simp add: scan_body_def fkfs_block_ensure_def scan_result_def case_prod_beta)
qed

lemma scan_stays_on_chain:
  assumes "wf_header (fs_header fs)" "fs_buffer fs = chain_image (versions fs) es @ rest"
    and "length (fs_buffer fs) = 512" "list_all valid_entry es" "7 \<le> length rest" "erased (take 7 rest)"
    and "fs_cachedBlockNumber fs = token_block (iter_token iter)"
      "unat (token_offset (iter_token iter)) \<in> chain_offsets es"
  shows "\<exists>res. scan_body P config started (fs, iter, t, n) = Some res
    \<and> same_block (fst (scan_result res)) fs \<and> at_chain b es (snd (scan_result res))"
proof -
  obtain j where j: "j \<le> length es" "unat (token_offset (iter_token iter)) = chain_length (take j es)"
    using assms(8) by (auto simp: chain_offsets_def)
  show ?thesis
  proof (cases "j < length es")
    case True
    show ?thesis by (rule scan_step_entry [OF assms(1-4) True assms(7) j(2)])
  next
    case False
    then have "unat (token_offset (iter_token iter)) = chain_length es" using j by simp
    then show ?thesis by (rule scan_step_end [OF assms(2,3,5,6,7)])
  qed
qed

section \<open>Properties\<close>

text \<open>C23: where the search of a block stops, for every buffer. The entries it passes over are good and must
  be kept: their file has the same or a higher priority, or they are too small. When it reports a
  place, that is the first offset whose entry is damaged or unused, or good and of a file of lower
  priority with enough bytes available; when it reports none, the block ends before the request fits.\<close>

theorem search_finds_first_place:
  assumes "fkfs_block_available_offset fs priority required buffer offset = Some (found, search)"
  shows "kept_chain fs priority required buffer offset (search_offset search)
    \<and> (if found then
         (search_status search = FKFS_OFFSET_SEARCH_STATUS_SIZE \<or> search_status search = FKFS_OFFSET_SEARCH_STATUS_CRC)
           \<and> fkfs_block_check fs (at_offset buffer (search_offset search)) = Some (search_status search)
         \<or> search_status search = FKFS_OFFSET_SEARCH_STATUS_PRIORITY
           \<and> fkfs_block_check fs (at_offset buffer (search_offset search)) = Some FKFS_OFFSET_SEARCH_STATUS_GOOD
           \<and> replaceable fs priority required (entry_at buffer (search_offset search))
       else search_status search = FKFS_OFFSET_SEARCH_STATUS_EOB
         \<and> SD_RAW_BLOCK_SIZE \<le> unat (search_offset search) + unat required)"
  using assms by (rule search_first_place)

text \<open>C24: taking the place of an entry of lower priority cuts the chain of the block. When the header stands
  at a good entry of a file of lower priority that is large enough, the append (to a file that is not
  synchronised) writes the new entry over the old one and says that its own size is available, so the
  buffer holds the new entry, then the rest of the old data, then the entries that were behind the old one,
  unchanged. When the first seven bytes of that rest are erased, every step of a scan that stands in this
  block on the entries before, on the new one or at the end of that shorter chain stays on it or leaves the
  block, and none of the entries behind starts at an offset of it: in the cached block they are still there
  and no scan from its start reaches them.\<close>

theorem reuse_cuts_chain:
  assumes "wf_header (fs_header fs)" "fs_cachedBlockNumber fs = header_block (fs_header fs)"
    and "block_holds (versions fs) (es1 @ e # es2) (fs_buffer fs)"
      "unat (header_offset (fs_header fs)) = chain_length es1" "snd (fst e) = 0"
    and "valid_record r" "7 + length (snd r) \<le> length (snd e)"
      "settings_priority (fs_files fs ! unat (fst (fst e))) > settings_priority (fs_files fs ! unat (fst r))"
    and "settings_sync (fs_files fs ! unat (fst r)) = 0"
  shows "\<exists>fs'. fkfs_file_append P fs (fst r) (of_nat (length (snd r))) (snd r @ slack) = Some (True, fs')
    \<and> fs_cachedBlockNumber fs' = header_block (fs_header fs)
    \<and> fs_buffer fs' = chain_image (versions fs) (es1 @ [stored r]) @ drop (length (snd r)) (snd e)
        @ chain_image (versions fs) es2 @ drop (chain_length (es1 @ e # es2)) (fs_buffer fs)
    \<and> (\<forall>k. chain_length (es1 @ e # take k es2) \<notin> chain_offsets (es1 @ [stored r]))
    \<and> (\<forall>config started fs2 iter t n. erased (take 7 (drop (length (snd r)) (snd e)))
         \<and> same_block fs2 fs' \<and> token_block (iter_token iter) = header_block (fs_header fs)
         \<and> unat (token_offset (iter_token iter)) \<in> chain_offsets (es1 @ [stored r]) \<longrightarrow>
         (\<exists>res. scan_body P config started (fs2, iter, t, n) = Some res
            \<and> same_block (fst (scan_result res)) fs'
            \<and> at_chain (header_block (fs_header fs)) (es1 @ [stored r]) (snd (scan_result res))))"
proof -
  let ?es = "es1 @ [stored r]"
  define rest where "rest = drop (length (snd r)) (snd e) @ chain_image (versions fs) es2
    @ drop (chain_length (es1 @ e # es2)) (fs_buffer fs)"
  obtain fs' where a: "fkfs_file_append P fs (fst r) (of_nat (length (snd r))) (snd r @ slack) = Some (True, fs')"
    and h: "versions fs' = versions fs" "wf_header (fs_header fs')" "fs_cachedBlockNumber fs' = header_block (fs_header fs)"
    and b: "fs_buffer fs' = chain_image (versions fs) ?es @ rest"
    using append_replaces [OF assms] assms(2) unfolding rest_def by metis
  have v: "list_all valid_entry ?es"
    using assms(3,6) by (simp add: block_holds_def valid_entry_def stored_def)
  have len: "length (fs_buffer fs') = 512" "7 \<le> length rest" "take 7 rest = take 7 (drop (length (snd r)) (snd e))"
    using assms(3,7) by (simp_all add: b rest_def block_holds_def stored_def) arith
  have out: "chain_length (es1 @ e # take k es2) \<notin> chain_offsets ?es" for k
  proof
    assume "chain_length (es1 @ e # take k es2) \<in> chain_offsets ?es"
    then obtain j where "chain_length (es1 @ e # take k es2) = chain_length (take j ?es)"
      by (auto simp: chain_offsets_def)
    with chain_length_take_le [of j ?es] assms(7) show False by (simp add: stored_def)
  qed
  have scan: "\<exists>res. scan_body P config started (fs2, iter, t, n) = Some res
      \<and> same_block (fst (scan_result res)) fs' \<and> at_chain (header_block (fs_header fs)) ?es (snd (scan_result res))"
    if "erased (take 7 (drop (length (snd r)) (snd e)))" "same_block fs2 fs'"
      "token_block (iter_token iter) = header_block (fs_header fs)"
      "unat (token_offset (iter_token iter)) \<in> chain_offsets ?es" for config started fs2 iter t n
    using scan_stays_on_chain [of fs2 ?es rest iter P config started t n "header_block (fs_header fs)"] that b h len v
    by (auto simp: same_block_def versions_def)
  show ?thesis using a b h(3) out scan unfolding rest_def by blast
qed

end
