(* ===== verification/Truncate_Examples.thy ===== *)
theory Truncate_Examples
  imports Fkfs_Examples Single_Record Fkfs_Size Fkfs_Reuse
begin

text \<open>
  The properties of \<^verbatim>\<open>Fkfs_Truncate\<close>, \<^verbatim>\<open>Fkfs_Size\<close>, \<^verbatim>\<open>Fkfs_Reuse\<close> and \<^verbatim>\<open>Single_Record\<close> at concrete
  inputs, on the host platform with the blank image of \<^verbatim>\<open>Fkfs_Examples\<close>.
\<close>

theorem truncate_refines_log_witness:
  "\<exists>fs fs'. represents host_invar host_addressable host_readable host_contents 3 fs [[((0, 0), [1, 2, 3])]]
    \<and> fkfs_file_truncate fs 0 = Some (True, fs')
    \<and> represents host_invar host_addressable host_readable host_contents 3 fs' [[((0, 1), [1, 2, 3])]]"
proof -
  obtain fs where r: "represents host_invar host_addressable host_readable host_contents 3 fs
      [[((0, 0), [1, 2, 3])]]"
    using blank_with_record by blast
  have "younger (2 ^ 16 - 1) 0 [[((0, 0), [1, 2, 3])]]" by (simp add: younger_def)
  moreover have "truncate_log 0 [[((0, 0), [1, 2, 3])]] = [[((0, 1), [1, 2, 3])]]"
    by (simp add: truncate_log_def age_entry_def)
  ultimately show ?thesis using truncate_refines_log [OF r, of 0] r by auto
qed

definition demo_ops :: "log_op list" where
  "demo_ops = [Append (0, [1, 2, 3]), Append (1, [9]), Sync, Truncate 0, Append (0, [4, 5]), Flush, Truncate 1]"

lemma demo_ops_ok:
  "list_all valid_op demo_ops" "length (foldl op_log [[]] demo_ops) \<le> 3"
  "scannable (foldl op_log [[]] demo_ops)" "truncations demo_ops < 2 ^ 16 - 1" "2 * length demo_ops + 2 < 2 ^ 32"
proof -
  have bs: "foldl op_log [[]] demo_ops = [[((0, 1), [1, 2, 3]), ((1, 1), [9]), ((0, 0), [4, 5])]]"
    by (simp add: demo_ops_def place_def make_room_def fits_def extend_last_def stored_def truncate_log_def
        age_entry_def)
  show "list_all valid_op demo_ops" by (simp add: demo_ops_def valid_record_def)
  show "length (foldl op_log [[]] demo_ops) \<le> 3" using bs by simp
  show "scannable (foldl op_log [[]] demo_ops)" unfolding bs by (simp add: scannable_def)
  show "truncations demo_ops < 2 ^ 16 - 1" "2 * length demo_ops + 2 < 2 ^ 32"
    by (simp_all add: demo_ops_def truncations_def)
qed

theorem operations_survive_remount_witness:
  "\<exists>fs1 fs2 fs3 fs5 fs6. fkfs_initialize host_platform blank_fs True = Some (True, fs1)
    \<and> run_ops host_platform fs1 demo_ops = Some (True, fs2)
    \<and> fkfs_flush host_platform fs2 = Some (True, fs3)
    \<and> fkfs_initialize host_platform (blank_fs\<lparr>fs_sd := fs_sd fs3\<rparr>) False = Some (True, fs5)
    \<and> extract_file host_platform fs5 0 True = Some (True, [4, 5], fs6)"
proof -
  have f: "fresh_object (blank_fs\<lparr>fs_sd := d\<rparr>)" for d
    using blank_fresh by (simp add: fresh_object_def wf_fs_def)
  have out: "foldl (op_file 0) [] demo_ops = [[4, 5]]" by (simp add: demo_ops_def)
  from operations_survive_remount [OF host.reliable_device_axioms blank_device(1) blank_fresh
      demo_device(2) blank_device(2) blank_area host_capacity demo_ops_ok]
  obtain fs1 fs2 fs3 where steps: "fkfs_initialize host_platform blank_fs True = Some (True, fs1)"
    "run_ops host_platform fs1 demo_ops = Some (True, fs2)" "fkfs_flush host_platform fs2 = Some (True, fs3)"
    and inv: "host_invar (fs_sd fs3)"
    and rd: "\<And>fs4 f. host_invar (fs_sd fs4) \<and> host_contents (fs_sd fs4) = host_contents (fs_sd fs3)
      \<and> host_readable (fs_sd fs4) = host_readable (fs_sd fs3) \<and> fresh_object fs4 \<and> unat f < 4 \<Longrightarrow>
      \<exists>fs5 fs6. fkfs_initialize host_platform fs4 False = Some (True, fs5)
        \<and> extract_file host_platform fs5 f True = Some (True, concat (foldl (op_file f) [] demo_ops), fs6)"
    by blast
  have "\<exists>fs5 fs6. fkfs_initialize host_platform (blank_fs\<lparr>fs_sd := fs_sd fs3\<rparr>) False = Some (True, fs5)
      \<and> extract_file host_platform fs5 0 True = Some (True, [4, 5], fs6)"
    using rd [of "blank_fs\<lparr>fs_sd := fs_sd fs3\<rparr>" 0] f [of "fs_sd fs3"] inv out by simp
  then show ?thesis using steps by blast
qed

text \<open>The object of the first example, with the header on the card.\<close>

lemma blank_with_saved_record:
  "\<exists>fs. represents host_invar host_addressable host_readable host_contents 3 fs [[((0, 0), [1, 2, 3])]]
    \<and> \<not> fs_cachedBlockDirty fs \<and> sealed_at host_contents 4 fs \<and> saved host_contents fs"
proof -
  let ?rs = "[(0, [1, 2, 3])] :: log_record list"
  have bs: "foldl place [[]] ?rs = [[((0, 0), [1, 2, 3])]]"
    by (simp add: place_def make_room_def fits_def extend_last_def stored_def)
  have v: "list_all valid_record ?rs" "length (foldl place [[]] ?rs) \<le> 3" "1 + 2 * length ?rs < 2 ^ 32"
    by (simp_all add: valid_record_def place_def make_room_def)
  obtain fs where r: "represents host_invar host_addressable host_readable host_contents 3 fs [[]]"
    "sealed_at host_contents 1 fs" "saved host_contents fs"
    using reliable_device.wipe_represents [OF host.reliable_device_axioms blank_device(1) blank_fresh
      demo_device(2) blank_device(2) blank_area host_capacity, of True] by metis
  from reliable_device.represents_append_all [OF host.reliable_device_axioms r(1) v(1,2) r(2,3) v(3)]
  obtain fs1 where r1: "represents host_invar host_addressable host_readable host_contents 3 fs1 [[((0, 0), [1, 2, 3])]]"
    "sealed_at host_contents 3 fs1" "saved host_contents fs1"
    unfolding bs by (auto simp: numeral_3_eq_3)
  have g: "Suc 3 < (2 :: nat) ^ 32" by simp
  obtain fs2 where "represents host_invar host_addressable host_readable host_contents 3 fs2 [[((0, 0), [1, 2, 3])]]"
    "\<not> fs_cachedBlockDirty fs2" "saved host_contents fs2" "sealed_at host_contents (Suc 3) fs2"
    using reliable_device.represents_fsync [OF host.reliable_device_axioms r1(1)] r1(2,3) g by metis
  then show ?thesis by auto
qed

theorem synced_truncate_is_lost_witness:
  "\<exists>fs fs1 fs3 fs4. represents host_invar host_addressable host_readable host_contents 3 fs [[((0, 0), [1, 2, 3])]]
    \<and> fkfs_file_truncate fs 0 = Some (True, fs1) \<and> fkfs_fsync host_platform fs1 = Some (True, fs1)
    \<and> fkfs_initialize host_platform (blank_fs\<lparr>fs_sd := fs_sd fs1\<rparr>) False = Some (True, fs3)
    \<and> extract_file host_platform fs3 0 True = Some (True, [1, 2, 3], fs4)"
proof -
  let ?bs = "[[((0, 0), [1, 2, 3])]] :: log_entry list list"
  obtain fs where r: "represents host_invar host_addressable host_readable host_contents 3 fs ?bs"
    "\<not> fs_cachedBlockDirty fs" "sealed_at host_contents 4 fs" "saved host_contents fs"
    using blank_with_saved_record by blast
  have f: "fresh_object (blank_fs\<lparr>fs_sd := d\<rparr>)" for d
    using blank_fresh by (simp add: fresh_object_def wf_fs_def)
  have sc: "scannable ?bs" by (simp add: scannable_def)
  have z: "unat (0 :: u8) < 4" by simp
  have out: "file_records 0 ?bs = [[1, 2, 3]]" by (simp add: file_records_def)
  from synced_truncate_is_lost [OF host.reliable_device_axioms r host_capacity sc z]
  obtain fs1 where t: "fkfs_file_truncate fs 0 = Some (True, fs1)" "fkfs_fsync host_platform fs1 = Some (True, fs1)"
    and m: "\<And>fs2. host_invar (fs_sd fs2) \<and> host_contents (fs_sd fs2) = host_contents (fs_sd fs1)
         \<and> host_readable (fs_sd fs2) = host_readable (fs_sd fs1) \<and> fresh_object fs2 \<Longrightarrow>
         \<exists>fs3 fs4. fkfs_initialize host_platform fs2 False = Some (True, fs3)
            \<and> extract_file host_platform fs3 0 True = Some (True, concat (file_records 0 ?bs), fs4)"
    by blast
  have "fs_sd fs1 = fs_sd fs" using t(1) truncate_eq [OF z, of fs] by auto
  then have "host_invar (fs_sd (blank_fs\<lparr>fs_sd := fs_sd fs1\<rparr>))" using represents_parts(1) [OF r(1)] by simp
  then show ?thesis
    using r(1) t m [of "blank_fs\<lparr>fs_sd := fs_sd fs1\<rparr>"] f [of "fs_sd fs1"] out by fastforce
qed

text \<open>The same image, with file 0 written through.\<close>

definition sync_fs :: "host fkfs_t" where
  "sync_fs = blank_fs\<lparr>fs_files := \<lparr> settings_sync = 1, settings_priority = 0 \<rparr> # replicate 3 settings_zero\<rparr>"

theorem single_record_reads_last_write_witness:
  "\<exists>fs fs1 fs2. fkfs_initialize host_platform sync_fs True = Some (True, fs)
    \<and> write_records host_platform \<lparr> sr_file = 0 \<rparr> fs [[1, 2, 3], [7, 8]] = Some (True, fs1)
    \<and> fkfs_single_record_read host_platform \<lparr> sr_file = 0 \<rparr> fs1 [0, 0, 0, 0] 2 = Some (True, [7, 8, 0, 0], fs2)"
proof -
  have f: "fresh_object sync_fs" "fs_sd sync_fs = fs_sd blank_fs"
    using blank_fresh by (simp_all add: sync_fs_def fresh_object_def wf_fs_def)
  obtain fs where i: "fkfs_initialize host_platform sync_fs True = Some (True, fs)"
    and r: "represents host_invar host_addressable host_readable host_contents 3 fs [[]]"
      "fs_files fs = fs_files sync_fs"
    using reliable_device.wipe_represents [OF host.reliable_device_axioms _ f(1) demo_device(2), of 3 True]
      blank_device blank_area host_capacity f(2) by metis
  have bs: "rewrite_all 0 [[]] ([[1, 2, 3]] @ [[7, 8]]) = [[((0, 1), [1, 2, 3]), ((0, 0), [7, 8])]]"
    by (simp add: rewrite_def place_def make_room_def fits_def extend_last_def stored_def truncate_log_def
        age_entry_def)
  have pre: "sr_file \<lparr> sr_file = 0 \<rparr> = 0" "settings_sync (fs_files fs ! 0) \<noteq> 0"
    "list_all (\<lambda>d. valid_record (0, d)) ([[1, 2, 3]] @ [[7, 8]])"
    "length (rewrite_all 0 [[]] ([[1, 2, 3]] @ [[7, 8]])) \<le> 3"
    "scannable (rewrite_all 0 [[]] ([[1, 2, 3]] @ [[7, 8]]))" "younger (Suc 0) 0 [[]]"
    "0 + length [[1 :: u8, 2, 3]] < 2 ^ 16 - 1" "length [7 :: u8, 8] \<le> length [0 :: u8, 0, 0, 0]"
    unfolding bs using r(2) by (simp_all add: sync_fs_def valid_record_def scannable_def younger_def)
  from single_record_reads_last_write [OF host.reliable_device_axioms r(1) pre] i show ?thesis by force
qed

theorem calculate_file_size_agrees_witness:
  "\<exists>fs fs'. represents host_invar host_addressable host_readable host_contents 3 fs [[((0, 0), [1, 2, 3])]]
    \<and> calculate_file_size host_platform fs 0 iter_zero = Some (True, fs')
    \<and> file_size (header_files (fs_header fs') ! 0) = 3"
proof -
  let ?bs = "[[((0, 0), [1, 2, 3])]] :: log_entry list list"
  obtain fs where r: "represents host_invar host_addressable host_readable host_contents 3 fs ?bs"
    "\<not> fs_cachedBlockDirty fs"
    using blank_with_record by blast
  have "scannable ?bs" "unat (0 :: u8) < 4" "length ?bs < 10" by (simp_all add: scannable_def)
  from calculate_file_size_agrees [OF host.reliable_device_axioms r this, of iter_zero] r(1)
  show ?thesis by (auto simp: file_records_def)
qed

text \<open>A cached block in which an entry of the less important file 1 comes before one of file 0.\<close>

definition reuse_fs :: "host fkfs_t" where
  "reuse_fs = blank_fs\<lparr> fs_cachedBlockNumber := 0,
     fs_files := \<lparr> settings_sync = 0, settings_priority = 0 \<rparr> # replicate 3 \<lparr> settings_sync = 0, settings_priority = 1 \<rparr>,
     fs_buffer := chain_image [0, 0, 0, 0] [((1, 0), memzero 20), ((0, 0), [7])] @ memzero 477 \<rparr>"

lemma reuse_fs_block:
  "wf_header (fs_header reuse_fs)" "versions reuse_fs = [0, 0, 0, 0]"
  "block_holds (versions reuse_fs) ([] @ ((1, 0), memzero 20) # [((0, 0), [7])]) (fs_buffer reuse_fs)"
proof -
  show "wf_header (fs_header reuse_fs)" using blank_fresh by (simp add: reuse_fs_def fresh_object_def wf_fs_def)
  have "header_files (fs_header reuse_fs) = replicate 4 file_zero"
    by (simp add: reuse_fs_def blank_fs_def header_zero_def)
  then show v: "versions reuse_fs = [0, 0, 0, 0]"
    by (simp add: versions_def file_zero_def) (simp add: numeral_eq_Suc)
  have "erased (memzero 477)" by (simp add: erased_def memzero_def list_all_iff)
  then show "block_holds (versions reuse_fs) ([] @ ((1, 0), memzero 20) # [((0, 0), [7])]) (fs_buffer reuse_fs)"
    unfolding v by (simp add: reuse_fs_def block_holds_def valid_entry_def valid_record_def memzero_def)
qed

theorem search_finds_first_place_witness:
  "fkfs_block_available_offset reuse_fs 0 8 (fs_buffer reuse_fs) 0 =
     Some (True, \<lparr> search_offset = 0, search_status = FKFS_OFFSET_SEARCH_STATUS_PRIORITY \<rparr>)
   \<and> replaceable reuse_fs 0 8 (entry_at (fs_buffer reuse_fs) 0)"
proof -
  have s: "fkfs_block_available_offset reuse_fs 0 8 (fs_buffer reuse_fs) 0 =
      Some (True, \<lparr> search_offset = 0, search_status = FKFS_OFFSET_SEARCH_STATUS_PRIORITY \<rparr>)"
    by (rule search_replaces [OF reuse_fs_block(1,3)]) (simp_all add: reuse_fs_def memzero_def)
  from search_finds_first_place [OF s] s show ?thesis by simp
qed

text \<open>An iterator of file 0 that stands in this block.\<close>

definition reuse_iter :: "u16 \<Rightarrow> fkfs_file_iter_t" where
  "reuse_iter offset = \<lparr> iter_token = \<lparr> token_file = 0, token_block = 0, token_offset = offset,
     token_lastBlock = 1, token_lastOffset = 0, token_size = 1 \<rparr>, iter_data = None, iter_size = 0, iter_iterated = 0 \<rparr>"

theorem reuse_cuts_chain_witness:
  "\<exists>fs' res. fkfs_file_append host_platform reuse_fs 0 1 [5] = Some (True, fs')
    \<and> chain_length [((1, 0), memzero 20) :: log_entry] \<notin> chain_offsets [stored (0, [5])]
    \<and> scan_body host_platform \<lparr> config_maxBlocks = 0, config_maxTime = 0, config_manualNext = False \<rparr> 0
        (fs', reuse_iter 8, 0, 0) = Some res
    \<and> at_chain (fs_cachedBlockNumber fs') [stored (0, [5])] (snd (scan_result res))"
proof -
  let ?r = "(0, [5]) :: log_record" and ?e = "((1, 0), memzero 20) :: log_entry"
  have pre: "fs_cachedBlockNumber reuse_fs = header_block (fs_header reuse_fs)"
    "unat (header_offset (fs_header reuse_fs)) = chain_length ([] :: log_entry list)" "snd (fst ?e) = 0"
    "valid_record ?r" "7 + length (snd ?r) \<le> length (snd ?e)"
    "settings_priority (fs_files reuse_fs ! unat (fst (fst ?e))) > settings_priority (fs_files reuse_fs ! unat (fst ?r))"
    "settings_sync (fs_files reuse_fs ! unat (fst ?r)) = 0"
    by (simp_all add: reuse_fs_def blank_fs_def header_zero_def valid_record_def memzero_def)
  have er: "erased (take 7 (drop (length (snd ?r)) (snd ?e)))" by (simp add: erased_def memzero_def list_all_iff)
  have it: "token_block (iter_token (reuse_iter 8)) = header_block (fs_header reuse_fs)"
    "unat (token_offset (iter_token (reuse_iter 8))) \<in> chain_offsets ([] @ [stored ?r])"
    by (simp_all add: reuse_iter_def reuse_fs_def blank_fs_def header_zero_def chain_offsets_def stored_def atMost_Suc)
  from reuse_cuts_chain [OF reuse_fs_block(1) pre(1) reuse_fs_block(3) pre(2-7), of host_platform "[]"]
  obtain fs' where f: "fkfs_file_append host_platform reuse_fs 0 1 [5] = Some (True, fs')"
    "fs_cachedBlockNumber fs' = header_block (fs_header reuse_fs)"
    "\<And>k. chain_length ([] @ ?e # take k [((0, 0), [7])]) \<notin> chain_offsets ([] @ [stored ?r])"
    and sc: "\<And>config started fs2 iter t n. same_block fs2 fs' \<Longrightarrow> token_block (iter_token iter) = header_block (fs_header reuse_fs)
       \<Longrightarrow> unat (token_offset (iter_token iter)) \<in> chain_offsets ([] @ [stored ?r]) \<Longrightarrow>
         \<exists>res. scan_body host_platform config started (fs2, iter, t, n) = Some res
            \<and> same_block (fst (scan_result res)) fs'
            \<and> at_chain (header_block (fs_header reuse_fs)) ([] @ [stored ?r]) (snd (scan_result res))"
    using er by auto
  have "same_block fs' fs'" by (simp add: same_block_def)
  from sc [OF this it] obtain res where
    "scan_body host_platform \<lparr> config_maxBlocks = 0, config_maxTime = 0, config_manualNext = False \<rparr> 0
        (fs', reuse_iter 8, 0, 0) = Some res"
    "at_chain (header_block (fs_header reuse_fs)) ([] @ [stored ?r]) (snd (scan_result res))" by blast
  then show ?thesis using f(1,2) f(3) [of 0] by auto
qed

end
