(* ===== verification/Host_Tools.thy ===== *)
theory Host_Tools
  imports Fkfs_Roundtrip Host_Hal
begin

text \<open>
  The two programs of \<^verbatim>\<open>testing/\<close>: \<^verbatim>\<open>test.cpp\<close>, which appends a line to the log of an image, and
  \<^verbatim>\<open>read.cpp\<close>, which extracts the two files of an image. Both are sequences of calls with early
  returns on the host platform; what they print is left out. The uninitialised \<^verbatim>\<open>fkfs_t\<close> on the
  stack is an argument, and its \<open>fs_sd\<close> carries the world the process starts in.
\<close>

section \<open>The programs\<close>

abbreviation (input) FKFS_FILE_LOG :: u8 where "FKFS_FILE_LOG \<equiv> 0"
abbreviation (input) FKFS_FILE_DATA :: u8 where "FKFS_FILE_DATA \<equiv> 1"
abbreviation (input) FKFS_FILE_PRIORITY_LOWEST :: u8 where "FKFS_FILE_PRIORITY_LOWEST \<equiv> 255"
abbreviation (input) FKFS_FILE_PRIORITY_HIGHEST :: u8 where "FKFS_FILE_PRIORITY_HIGHEST \<equiv> 0"

text \<open>The bytes of a string literal, without its terminator.\<close>

definition str :: "string \<Rightarrow> bytes" where
  "str s = map of_char s"

text \<open>The calls both programs start with: create the object, open the image, configure the two
  files, mount.\<close>

definition tool_start :: "string \<Rightarrow> host fkfs_t \<Rightarrow> (bool \<times> host fkfs_t) option" where
  "tool_start path fs =
     (let (ok, fs) = fkfs_create host_platform fs
      in if \<not> ok then Some (False, fs)
         else let (ok, sd) = sd_raw_file_initialize (fs_sd fs) path; fs = fs\<lparr>fs_sd := sd\<rparr>
         in if \<not> ok then Some (False, fs)
         else do {
           (ok, fs) \<leftarrow> fkfs_initialize_file host_platform fs FKFS_FILE_LOG FKFS_FILE_PRIORITY_LOWEST 1
                         (str ''FK.LOG'' @ [0]);
           if \<not> ok then Some (False, fs)
           else do {
             (ok, fs) \<leftarrow> fkfs_initialize_file host_platform fs FKFS_FILE_DATA FKFS_FILE_PRIORITY_HIGHEST 1
                           (str ''DATA.BIN'' @ [0]);
             if \<not> ok then Some (False, fs)
             else fkfs_initialize host_platform fs False
           }
         })"

text \<open>The result is the exit code and the object, with the world in it.\<close>

definition test_main :: "string list \<Rightarrow> host fkfs_t \<Rightarrow> (int \<times> host fkfs_t) option" where
  "test_main argv fs =
     (if length argv \<noteq> 2 then Some (2, fs)
      else do {
        (ok, fs) \<leftarrow> tool_start (argv ! 1) fs;
        if \<not> ok then Some (2, fs)
        else do {
          let buffer = str ''Hello, world!'';
          (ok, fs) \<leftarrow> fkfs_file_append host_platform fs FKFS_FILE_LOG (of_nat (length buffer)) (buffer @ [0]);
          if \<not> ok then Some (0, fs)
          else do {
            (_, fs) \<leftarrow> fkfs_flush host_platform fs;
            (_, sd) \<leftarrow> sd_raw_file_close (fs_sd fs);
            Some (0, fs\<lparr>fs_sd := sd\<rparr>)
          }
        }
      })"

text \<open>\<open>opened\<close> says which output files \<^verbatim>\<open>fopen\<close> can open; the files written are part of the
  result, in the order in which they were written.\<close>

definition read_main ::
  "string list \<Rightarrow> (string \<Rightarrow> bool) \<Rightarrow> host fkfs_t \<Rightarrow> (int \<times> (string \<times> bytes) list \<times> host fkfs_t) option" where
  "read_main argv opened fs =
     (if length argv \<noteq> 3 then Some (2, [], fs)
      else do {
        (ok, fs) \<leftarrow> tool_start (argv ! 1) fs;
        if \<not> ok then Some (2, [], fs)
        else do {
          let log = argv ! 2 @ ''/'' @ ''FK.LOG'';
          let dat = argv ! 2 @ ''/'' @ ''DATA.BIN'';
          (ok, out1, fs) \<leftarrow> extract_file host_platform fs FKFS_FILE_LOG (opened log);
          if \<not> ok then Some (2, [], fs)
          else do {
            (ok, out2, fs) \<leftarrow> extract_file host_platform fs FKFS_FILE_DATA (opened dat);
            if \<not> ok then Some (2, [(log, out1)], fs)
            else do {
              (_, sd) \<leftarrow> sd_raw_file_close (fs_sd fs);
              Some (0, [(log, out1), (dat, out2)], fs\<lparr>fs_sd := sd\<rparr>)
            }
          }
        }
      })"

section \<open>One image\<close>

text \<open>The platform works on the image at \<open>path\<close>, and keeps doing so: with that as the invariant, it
  meets the device contract too.\<close>

definition host_open :: "string \<Rightarrow> host \<Rightarrow> bool" where
  "host_open path h \<longleftrightarrow> (\<exists>pos. host_fp h = Some (path, pos)) \<and> host_disk h path \<noteq> None"

lemma host_open_invar: "host_open path h \<Longrightarrow> host_invar h"
  by (auto simp: host_open_def host_invar_def host_image_def)

lemma host_open_image: "host_open path h \<Longrightarrow> host_image h = host_disk h path"
  by (auto simp: host_open_def host_image_def)

lemma hal_read_keeps_open:
  assumes "host_open path h" "hal_read_block h b buf = Some (r, buf', h')"
  shows "host_open path h'"
  using assms
  by (auto simp: host_open_def hal_read_block_def host_fseek_end_def host_ftell_def host_fseek_set_def
      host_fread_def Let_def bind_eq_Some_conv split: if_splits dest: arg_cong [of _ _ host_fp])

lemma hal_write_keeps_open:
  assumes "host_open path h" "hal_write_block h b src = Some (r, h')"
  shows "host_open path h'"
  using assms
  by (auto simp: host_open_def hal_write_block_def host_fseek_end_def host_ftell_def host_fseek_set_def
      host_fwrite_def Let_def bind_eq_Some_conv split: if_splits)

lemma host_open_device:
  "reliable_device host_platform (host_open path) host_addressable host_readable host_contents"
proof (unfold_locales, goal_cases)
  case (1 d b)
  then show ?case by (blast intro: host.contents_length host_open_invar)
next
  case (2 d buf b buf' d')
  then show ?case by (blast intro: host.read_sound host_open_invar)
next
  case (3 d buf b r buf' d')
  then show ?case
    using host.read_frame [OF host_open_invar [OF 3(1)] 3(2,3)] hal_read_keeps_open [OF 3(1)]
    by (simp add: host_platform_def)
next
  case (4 d src b d')
  show ?case using host.write_sound [OF host_open_invar [OF 4(1)] 4(2-4)] .
next
  case (5 d src b c r d')
  show ?case using host.write_frame [OF host_open_invar [OF 5(1)] 5(2-6)] .
next
  case (6 d src b r d')
  then show ?case using hal_write_keeps_open [OF 6(1)] by (simp add: host_platform_def)
next
  case (7 d n d')
  then show ?case by (simp add: host_platform_def hal_card_size_def)
next
  case (8 d)
  then show ?case
    using host.millis_frame [OF host_open_invar [OF 8]]
    by (simp add: host_platform_def hal_millis_def host_open_def)
next
  case (9 d m)
  then show ?case
    using host.random_frame [OF host_open_invar [OF 9], of m]
    by (simp add: host_platform_def hal_random_def host_open_def)
next
  case (10 d buf b)
  then show ?case by (blast intro: host.read_total host_open_invar)
next
  case (11 d src b)
  then show ?case by (blast intro: host.write_total host_open_invar)
next
  case (12 d)
  then show ?case by (simp add: host_platform_def hal_card_size_def)
qed

text \<open>What a file on the host means as an image: the log \<open>blocks\<close>, completely written, in a header
  of generation at most \<open>g\<close>.\<close>

definition image_log :: "string \<Rightarrow> nat \<Rightarrow> nat \<Rightarrow> log_entry list list \<Rightarrow> (string \<rightharpoonup> bytes) \<Rightarrow> bool" where
  "image_log path limit g blocks disk \<longleftrightarrow>
     (\<exists>fs. represents (host_open path) host_addressable host_readable host_contents limit fs blocks
        \<and> \<not> fs_cachedBlockDirty fs \<and> sealed_at host_contents g fs \<and> saved host_contents fs
        \<and> host_disk (fs_sd fs) path = disk path)"

text \<open>An image nothing was written to: no valid header and an erased log area.\<close>

definition image_blank :: "string \<Rightarrow> nat \<Rightarrow> (string \<rightharpoonup> bytes) \<Rightarrow> bool" where
  "image_blank path limit disk \<longleftrightarrow> (\<exists>img. disk path = Some img
     \<and> 0 < limit \<and> 8000 + limit < 2 ^ 23 - 1 \<and> 512 * (8000 + limit) \<le> length img
     \<and> \<not> fkfs_header_crc_valid (header_at (take 512 img) 0)
     \<and> \<not> fkfs_header_crc_valid (header_at (take 512 img) 1)
     \<and> (\<forall>i<limit. erased (take 512 (drop (512 * (8000 + i)) img))))"

section \<open>Starting up\<close>

text \<open>The state in which both programs mount.\<close>

lemma tool_start_mounts:
  assumes "host_disk (fs_sd fs) path = Some img"
  obtains fs0 where "tool_start path fs = fkfs_initialize host_platform fs0 False"
    "fresh_object fs0" "host_open path (fs_sd fs0)" "host_disk (fs_sd fs0) path = Some img"
    "settings_sync (fs_files fs0 ! 0) = 1"
proof -
  have z: "wf_header header_zero" by (rule header_of_zeros(1))
  let ?fs = "snd (the (fkfs_initialize_file host_platform (snd (the (fkfs_initialize_file host_platform
     ((snd (fkfs_create host_platform fs))\<lparr>fs_sd := snd (sd_raw_file_initialize
       (fs_sd (snd (fkfs_create host_platform fs))) path)\<rparr>) 0 255 1 (str ''FK.LOG'' @ [0])))) 1 0 1
       (str ''DATA.BIN'' @ [0])))"
  show thesis
  proof (rule that [of ?fs])
    show "tool_start path fs = fkfs_initialize host_platform ?fs False"
      using assms
      by (simp add: tool_start_def fkfs_create_def sd_raw_file_initialize_def fkfs_initialize_file_def
          host_platform_def hal_random_def Let_def)
  qed (use assms z in \<open>simp_all add: fresh_object_def wf_fs_def fkfs_create_def sd_raw_file_initialize_def
      fkfs_initialize_file_def host_platform_def hal_random_def fs_file_update_def Let_def host_open_def
      wf_header_def header_zero_def wf_file_def numeral_eq_Suc\<close>)
qed


section \<open>The programs on an image\<close>

abbreviation hello :: log_record where "hello \<equiv> (FKFS_FILE_LOG, str ''Hello, world!'')"

lemma hello_valid: "valid_record hello" "length (snd hello) = 13"
  by (simp_all add: valid_record_def str_def)

lemma host_capacity_any: "8000 + limit < 2 ^ 23 \<Longrightarrow> capacity invar host_platform limit"
  by (simp add: capacity_def host_platform_def hal_card_size_def)

lemma represents_limit:
  "represents (host_open path) host_addressable host_readable host_contents limit fs blocks \<Longrightarrow>
   8000 + limit \<le> 2 ^ 23"
proof (cases limit)
  case (Suc n)
  assume r: "represents (host_open path) host_addressable host_readable host_contents limit fs blocks"
  have n: "8000 + n < 2 ^ 32" "host_addressable (log_block n)"
    using represents_parts(5) [OF r] Suc by (simp_all add: log_area_def)
  then show ?thesis using Suc unat_log_block [OF n(1)] by (simp add: host_addressable_def)
qed simp

text \<open>Mounting an image that holds a log.\<close>

lemma host_same_image:
  assumes "host_image h' = host_image h"
  shows "host_contents h' = host_contents h" "host_readable h' = host_readable h"
  using assms by (simp_all add: host_contents_def host_readable_def fun_eq_iff)

lemma tool_start_log:
  assumes "image_log path limit g blocks (host_disk (fs_sd fs))" "8000 + limit < 2 ^ 23"
  obtains fs1 where "tool_start path fs = Some (True, fs1)"
    "represents (host_open path) host_addressable host_readable host_contents limit fs1 blocks"
    "\<not> fs_cachedBlockDirty fs1" "settings_sync (fs_files fs1 ! 0) = 1" "sealed_at host_contents g fs1"
proof -
  obtain fsi where r: "represents (host_open path) host_addressable host_readable host_contents limit fsi blocks"
    and c: "\<not> fs_cachedBlockDirty fsi" and s: "sealed_at host_contents g fsi" "saved host_contents fsi"
    and d: "host_disk (fs_sd fsi) path = host_disk (fs_sd fs) path"
    using assms(1) unfolding image_log_def by blast
  note op = represents_parts(1) [OF r]
  then obtain img where img: "host_disk (fs_sd fs) path = Some img" using d by (auto simp: host_open_def)
  obtain fs0 where t: "tool_start path fs = fkfs_initialize host_platform fs0 False"
    and f0: "fresh_object fs0" "host_open path (fs_sd fs0)" "host_disk (fs_sd fs0) path = Some img"
      "settings_sync (fs_files fs0 ! 0) = 1"
    using tool_start_mounts [OF img] by metis
  have "host_image (fs_sd fs0) = host_image (fs_sd fsi)"
    using op f0(2,3) d img by (simp add: host_open_image)
  note same = host_same_image [OF this]
  let ?fs = "fsi\<lparr>fs_sd := fs_sd fs0, fs_statistics := fs_statistics fsi\<rparr>"
  have r': "represents (host_open path) host_addressable host_readable host_contents limit ?fs blocks"
    using represents_device [OF r f0(2) same] .
  have s': "\<not> fs_cachedBlockDirty ?fs" "sealed_at host_contents g ?fs" "saved host_contents ?fs"
    using c s same(1) by (simp_all add: sealed_at_def mounted_def saved_def)
  have sd: "fs_sd fs0 = fs_sd ?fs" by simp
  from reliable_device.remount_represents [OF host_open_device r' s' host_capacity_any [OF assms(2)] sd f0(1)]
  show thesis using t f0(4) by (metis that)
qed

lemma tool_start_blank:
  assumes "image_blank path limit (host_disk (fs_sd fs))"
  obtains fs1 where "tool_start path fs = Some (True, fs1)"
    "represents (host_open path) host_addressable host_readable host_contents limit fs1 [[]]"
    "settings_sync (fs_files fs1 ! 0) = 1" "sealed_at host_contents 1 fs1"
proof -
  obtain img where img: "host_disk (fs_sd fs) path = Some img" "0 < limit" "8000 + limit < 2 ^ 23 - 1"
    "512 * (8000 + limit) \<le> length img"
    and bad: "\<not> fkfs_header_crc_valid (header_at (take 512 img) 0)"
      "\<not> fkfs_header_crc_valid (header_at (take 512 img) 1)"
    and er: "\<And>i. i < limit \<Longrightarrow> erased (take 512 (drop (512 * (8000 + i)) img))"
    using assms unfolding image_blank_def by blast
  obtain fs0 where t: "tool_start path fs = fkfs_initialize host_platform fs0 False"
    and f0: "fresh_object fs0" "host_open path (fs_sd fs0)" "host_disk (fs_sd fs0) path = Some img"
      "settings_sync (fs_files fs0 ! 0) = 1"
    using tool_start_mounts [OF img(1)] by metis
  have i: "host_image (fs_sd fs0) = Some img" using f0(2,3) by (simp add: host_open_image)
  have blk: "unat (log_block k) = 8000 + k" if "k < limit" for k
    using that img(3) by (intro unat_log_block) simp
  have area: "erased_area host_addressable host_readable host_contents limit (fs_sd fs0)"
    using img er i blk
    by (simp add: erased_area_def host_addressable_def host_readable_def host_contents_def)
  have zero: "host_addressable 0" "host_readable (fs_sd fs0) 0" "host_contents (fs_sd fs0) 0 = take 512 img"
    using i img by (simp_all add: host_addressable_def host_readable_def host_contents_def)
  have "8000 + limit < 2 ^ 23" using img(3) by simp
  from reliable_device.wipe_represents [OF host_open_device f0(2,1) zero(1,2) area host_capacity_any [OF this], of False]
  show thesis using t f0(4) bad zero(3) by (metis that)
qed

text \<open>What the test program does after it has started.\<close>

lemma test_main_appends:
  assumes "tool_start path fs = Some (True, fs1)"
    and "represents (host_open path) host_addressable host_readable host_contents limit fs1 blocks"
    and "settings_sync (fs_files fs1 ! 0) = 1" "sealed_at host_contents g fs1"
    and "length (place blocks hello) \<le> limit" "g + 3 < 2 ^ 32"
  shows "\<exists>fs'. test_main [prog, path] fs = Some (0, fs')
    \<and> image_log path limit (g + 3) (place blocks hello) (host_disk (fs_sd fs'))"
proof -
  obtain fs2 where a: "fkfs_file_append host_platform fs1 0 13 (str ''Hello, world!'' @ [0]) = Some (True, fs2)"
    and r2: "represents (host_open path) host_addressable host_readable host_contents limit fs2 (place blocks hello)"
    and s2: "\<And>g. sealed_at host_contents g fs1 \<Longrightarrow> g + 2 < 2 ^ 32 \<Longrightarrow> sealed_at host_contents (g + 2) fs2"
    using reliable_device.represents_append [OF host_open_device assms(2) hello_valid(1) assms(5), of "[0]"]
      hello_valid(2) by (metis fst_conv of_nat_numeral snd_conv)
  obtain fs3 where f: "fkfs_flush host_platform fs2 = Some (True, fs3)"
    and r3: "represents (host_open path) host_addressable host_readable host_contents limit fs3 (place blocks hello)"
      "\<not> fs_cachedBlockDirty fs3" "saved host_contents fs3"
    and s3: "\<And>g. sealed_at host_contents g fs2 \<Longrightarrow> Suc g < 2 ^ 32 \<Longrightarrow> sealed_at host_contents (Suc g) fs3"
    using reliable_device.represents_flush [OF host_open_device r2] by metis
  have "sealed_at host_contents (Suc (g + 2)) fs3" using assms(4,6) by (intro s3 s2) simp_all
  then have s: "sealed_at host_contents (g + 3) fs3" by (simp add: numeral_3_eq_3)
  obtain pos where fp: "host_fp (fs_sd fs3) = Some (path, pos)"
    using represents_parts(1) [OF r3(1)] by (auto simp: host_open_def)
  have "test_main [prog, path] fs = Some (0, fs3\<lparr>fs_sd := (fs_sd fs3)\<lparr>host_fp := None\<rparr>\<rparr>)"
    using assms(1) a f fp hello_valid(2) by (simp add: test_main_def sd_raw_file_close_def)
  moreover have "image_log path limit (g + 3) (place blocks hello) (host_disk (fs_sd fs3))"
    unfolding image_log_def using r3 s by blast
  ultimately show ?thesis by simp
qed

text \<open>What the extraction tool writes.\<close>

lemma read_main_extracts:
  assumes "image_log path limit g blocks (host_disk (fs_sd fs))" "8000 + limit < 2 ^ 23" "scannable blocks"
    and "opened (dir @ ''/FK.LOG'')" "opened (dir @ ''/DATA.BIN'')"
  shows "\<exists>fs'. read_main [prog, path, dir] opened fs =
    Some (0, [(dir @ ''/FK.LOG'', concat (file_records 0 blocks)),
              (dir @ ''/DATA.BIN'', concat (file_records 1 blocks))], fs')"
proof -
  obtain fs1 where t: "tool_start path fs = Some (True, fs1)"
    and r1: "represents (host_open path) host_addressable host_readable host_contents limit fs1 blocks"
      "\<not> fs_cachedBlockDirty fs1"
    using tool_start_log [OF assms(1,2)] by metis
  obtain fs2 where e1: "extract_file host_platform fs1 0 True = Some (True, concat (file_records 0 blocks), fs2)"
    and r2: "represents (host_open path) host_addressable host_readable host_contents limit fs2 blocks"
      "same_meta fs1 fs2"
    using reliable_device.extract_reads [OF host_open_device r1 assms(3), of 0] by auto
  have "\<not> fs_cachedBlockDirty fs2" using r2(2) r1(2) by (simp add: same_meta_def)
  then obtain fs3 where e2: "extract_file host_platform fs2 1 True = Some (True, concat (file_records 1 blocks), fs3)"
    and r3: "represents (host_open path) host_addressable host_readable host_contents limit fs3 blocks"
    using reliable_device.extract_reads [OF host_open_device r2(1) _ assms(3), of 1] by auto
  obtain pos where "host_fp (fs_sd fs3) = Some (path, pos)"
    using represents_parts(1) [OF r3] by (auto simp: host_open_def)
  then show ?thesis using t e1 e2 assms(4,5) by (simp add: read_main_def sd_raw_file_close_def)
qed

text \<open>Running the test program again and again, each time in a new process: only the disk carries
  over.\<close>

fun test_runs :: "string \<Rightarrow> host fkfs_t list \<Rightarrow> (string \<rightharpoonup> bytes) \<Rightarrow> (int list \<times> (string \<rightharpoonup> bytes)) option" where
  "test_runs path [] disk = Some ([], disk)"
| "test_runs path (fs # fss) disk = do {
     (code, fs') \<leftarrow> test_main [''test'', path] (fs\<lparr>fs_sd := (fs_sd fs)\<lparr>host_disk := disk\<rparr>\<rparr>);
     (codes, disk) \<leftarrow> test_runs path fss (host_disk (fs_sd fs'));
     Some (code # codes, disk)
   }"

lemma test_runs_append:
  assumes "image_log path limit g blocks disk" "8000 + limit < 2 ^ 23"
    and "length (foldl place blocks (replicate (length fss) hello)) \<le> limit" "g + 3 * length fss < 2 ^ 32"
  shows "\<exists>disk'. test_runs path fss disk = Some (replicate (length fss) 0, disk')
    \<and> image_log path limit (g + 3 * length fss) (foldl place blocks (replicate (length fss) hello)) disk'"
  using assms
proof (induction fss arbitrary: g blocks disk)
  case (Cons fs fss)
  let ?fs = "fs\<lparr>fs_sd := (fs_sd fs)\<lparr>host_disk := disk\<rparr>\<rparr>"
  have i: "image_log path limit g blocks (host_disk (fs_sd ?fs))" using Cons.prems(1) by simp
  have len: "length (place blocks hello) \<le> limit"
    using length_foldl_place [of "place blocks hello" "replicate (length fss) hello"] Cons.prems(3) by simp
  have g: "g + 3 < 2 ^ 32" using Cons.prems(4) by simp
  obtain fs' where m: "test_main [''test'', path] ?fs = Some (0, fs')"
    and l: "image_log path limit (g + 3) (place blocks hello) (host_disk (fs_sd fs'))"
    using tool_start_log [OF i Cons.prems(2)] test_main_appends [OF _ _ _ _ len g, of path ?fs _ "''test''"]
    by metis
  have "length (foldl place (place blocks hello) (replicate (length fss) hello)) \<le> limit"
    "g + 3 + 3 * length fss < 2 ^ 32"
    using Cons.prems(3,4) by simp_all
  from Cons.IH [OF l Cons.prems(2) this] m show ?case by (auto simp: add.assoc)
qed simp

lemma hellos_fit:
  "20 * n \<le> 512 \<Longrightarrow> foldl place [[]] (replicate n hello) = [replicate n (stored hello)]"
proof (induction n)
  case (Suc n)
  have c: "chain_length (replicate n (stored hello)) = 20 * n"
    using hello_valid(2) by (simp add: chain_length_def sum_list_replicate)
  have "foldl place [[]] (replicate (Suc n) hello) = place (foldl place [[]] (replicate n hello)) hello"
  proof -
    have "replicate (Suc n) hello = replicate n hello @ [hello]" by (simp add: replicate_append_same)
    then show ?thesis by (simp only: foldl_append foldl.simps)
  qed
  also have "\<dots> = place [replicate n (stored hello)] hello" using Suc by simp
  also have "\<dots> = [replicate (Suc n) (stored hello)]"
    using Suc.prems c hello_valid(2)
    by (simp add: place_def make_room_def fits_def extend_last_def replicate_append_same)
  finally show ?case .
qed simp

end
