(* ===== verification/Sd_Raw.thy ===== *)
theory Sd_Raw
  imports Block_Device
begin

text \<open>
  \<^verbatim>\<open>sd_raw.cpp\<close> and \<^verbatim>\<open>sd_raw_internal.h\<close>: the driver that talks to an SD card over SPI. The card,
  the pins and the clock are outside the sources; they are a state of type \<open>'e\<close> and a record of
  the Arduino calls the driver makes (\<^verbatim>\<open>SPI.transfer\<close>, \<^verbatim>\<open>digitalWrite\<close>, \<^verbatim>\<open>millis\<close> and the set-up
  calls). A loop that waits for the card under a time limit is a partial function: whether it ends
  depends on the clock.
\<close>

section \<open>The outside world\<close>

record 'e spi =
  spi_transfer :: "'e \<Rightarrow> u8 \<Rightarrow> u8 \<times> 'e"
  spi_digitalWrite :: "'e \<Rightarrow> u8 \<Rightarrow> bool \<Rightarrow> 'e"
  spi_pinModeOutput :: "'e \<Rightarrow> u8 \<Rightarrow> 'e"
  spi_begin :: "'e \<Rightarrow> 'e"
  spi_setClockDivider :: "'e \<Rightarrow> u8 \<Rightarrow> 'e"
  spi_millis :: "'e \<Rightarrow> u32 \<times> 'e"
  spi_random :: "'e \<Rightarrow> u32 \<Rightarrow> u32 \<times> 'e"

section \<open>Constants\<close>

abbreviation (input) CMD0 :: u8 where "CMD0 \<equiv> 0x00"
abbreviation (input) CMD8 :: u8 where "CMD8 \<equiv> 0x08"
abbreviation (input) CMD9 :: u8 where "CMD9 \<equiv> 0x09"
abbreviation (input) CMD13 :: u8 where "CMD13 \<equiv> 0x0D"
abbreviation (input) CMD17 :: u8 where "CMD17 \<equiv> 0x11"
abbreviation (input) CMD24 :: u8 where "CMD24 \<equiv> 0x18"
abbreviation (input) CMD32 :: u8 where "CMD32 \<equiv> 0x20"
abbreviation (input) CMD33 :: u8 where "CMD33 \<equiv> 0x21"
abbreviation (input) CMD38 :: u8 where "CMD38 \<equiv> 0x26"
abbreviation (input) CMD55 :: u8 where "CMD55 \<equiv> 0x37"
abbreviation (input) CMD58 :: u8 where "CMD58 \<equiv> 0x3A"
abbreviation (input) ACMD41 :: u8 where "ACMD41 \<equiv> 0x29"
abbreviation (input) R1_READY_STATE :: u8 where "R1_READY_STATE \<equiv> 0x00"
abbreviation (input) R1_IDLE_STATE :: u8 where "R1_IDLE_STATE \<equiv> 0x01"
abbreviation (input) R1_ILLEGAL_COMMAND :: u8 where "R1_ILLEGAL_COMMAND \<equiv> 0x04"
abbreviation (input) DATA_START_BLOCK :: u8 where "DATA_START_BLOCK \<equiv> 0xFE"
abbreviation (input) DATA_RES_MASK :: u8 where "DATA_RES_MASK \<equiv> 0x1F"
abbreviation (input) DATA_RES_ACCEPTED :: u8 where "DATA_RES_ACCEPTED \<equiv> 0x05"

abbreviation (input) SD_RAW_INIT_TIMEOUT :: u32 where "SD_RAW_INIT_TIMEOUT \<equiv> 2000"
abbreviation (input) SD_RAW_READ_TIMEOUT :: u32 where "SD_RAW_READ_TIMEOUT \<equiv> 300"
abbreviation (input) SD_RAW_WRITE_TIMEOUT :: u16 where "SD_RAW_WRITE_TIMEOUT \<equiv> 600"
abbreviation (input) SD_RAW_ERASE_TIMEOUT :: u16 where "SD_RAW_ERASE_TIMEOUT \<equiv> 10000"

abbreviation (input) SD_CARD_ERROR_CMD0 :: u32 where "SD_CARD_ERROR_CMD0 \<equiv> 0x01"
abbreviation (input) SD_CARD_ERROR_CMD8 :: u32 where "SD_CARD_ERROR_CMD8 \<equiv> 0x02"
abbreviation (input) SD_CARD_ERROR_CMD17 :: u32 where "SD_CARD_ERROR_CMD17 \<equiv> 0x03"
abbreviation (input) SD_CARD_ERROR_CMD24 :: u32 where "SD_CARD_ERROR_CMD24 \<equiv> 0x04"
abbreviation (input) SD_CARD_ERROR_CMD58 :: u32 where "SD_CARD_ERROR_CMD58 \<equiv> 0x06"
abbreviation (input) SD_CARD_ERROR_ACMD41 :: u32 where "SD_CARD_ERROR_ACMD41 \<equiv> 0x08"
abbreviation (input) SD_CARD_ERROR_BAD_CSD :: u32 where "SD_CARD_ERROR_BAD_CSD \<equiv> 0x09"
abbreviation (input) SD_CARD_ERROR_ERASE :: u32 where "SD_CARD_ERROR_ERASE \<equiv> 0x0A"
abbreviation (input) SD_CARD_ERROR_ERASE_SINGLE_BLOCK :: u32 where
  "SD_CARD_ERROR_ERASE_SINGLE_BLOCK \<equiv> 0x0B"
abbreviation (input) SD_CARD_ERROR_ERASE_TIMEOUT :: u32 where "SD_CARD_ERROR_ERASE_TIMEOUT \<equiv> 0x0C"
abbreviation (input) SD_CARD_ERROR_READ :: u32 where "SD_CARD_ERROR_READ \<equiv> 0x0D"
abbreviation (input) SD_CARD_ERROR_READ_REG :: u32 where "SD_CARD_ERROR_READ_REG \<equiv> 0x0E"
abbreviation (input) SD_CARD_ERROR_READ_TIMEOUT :: u32 where "SD_CARD_ERROR_READ_TIMEOUT \<equiv> 0x0F"
abbreviation (input) SD_CARD_ERROR_WRITE :: u32 where "SD_CARD_ERROR_WRITE \<equiv> 0x11"
abbreviation (input) SD_CARD_ERROR_WRITE_PROGRAMMING :: u32 where
  "SD_CARD_ERROR_WRITE_PROGRAMMING \<equiv> 0x14"
abbreviation (input) SD_CARD_ERROR_WRITE_TIMEOUT :: u32 where "SD_CARD_ERROR_WRITE_TIMEOUT \<equiv> 0x15"
abbreviation (input) SD_CARD_ERROR_GENERAL :: u32 where "SD_CARD_ERROR_GENERAL \<equiv> 0x17"

abbreviation (input) SD_CARD_TYPE_SD1 :: u8 where "SD_CARD_TYPE_SD1 \<equiv> 1"
abbreviation (input) SD_CARD_TYPE_SD2 :: u8 where "SD_CARD_TYPE_SD2 \<equiv> 2"
abbreviation (input) SD_CARD_TYPE_SDHC :: u8 where "SD_CARD_TYPE_SDHC \<equiv> 3"
abbreviation (input) SPI_FULL_SPEED :: u8 where "SPI_FULL_SPEED \<equiv> 0"

section \<open>The driver's state\<close>

record sd_raw_t =
  sd_cs :: u8
  sd_status :: u8
  sd_type :: u8
  sd_offset :: u16
  sd_inBlock :: bool
  sd_block :: u32

type_synonym 'e sd = "sd_raw_t \<times> 'e"

section \<open>Bytes and pins\<close>

definition sd_raw_cs_high :: "'e spi \<Rightarrow> 'e sd \<Rightarrow> 'e sd" where
  "sd_raw_cs_high H = (\<lambda>(sd, e). (sd, spi_digitalWrite H e (sd_cs sd) True))"

definition sd_raw_cs_low :: "'e spi \<Rightarrow> 'e sd \<Rightarrow> 'e sd" where
  "sd_raw_cs_low H = (\<lambda>(sd, e). (sd, spi_digitalWrite H e (sd_cs sd) False))"

definition sd_raw_spi_read :: "'e spi \<Rightarrow> 'e \<Rightarrow> u8 \<times> 'e" where
  "sd_raw_spi_read H e = spi_transfer H e 0xFF"

definition sd_raw_spi_write :: "'e spi \<Rightarrow> u8 \<Rightarrow> 'e \<Rightarrow> 'e" where
  "sd_raw_spi_write H value e = snd (spi_transfer H e value)"

text \<open>The loops that read or write a given number of bytes.\<close>

fun spi_reads :: "'e spi \<Rightarrow> nat \<Rightarrow> 'e \<Rightarrow> bytes \<times> 'e" where
  "spi_reads H 0 e = ([], e)"
| "spi_reads H (Suc n) e =
     (let (b, e) = sd_raw_spi_read H e; (bs, e) = spi_reads H n e in (b # bs, e))"

definition spi_writes :: "'e spi \<Rightarrow> bytes \<Rightarrow> 'e \<Rightarrow> 'e" where
  "spi_writes H bs e = fold (sd_raw_spi_write H) bs e"

section \<open>Waiting\<close>

partial_function (option) flush_loop ::
  "'e spi \<Rightarrow> u16 \<Rightarrow> u32 \<Rightarrow> 'e \<Rightarrow> (bool \<times> 'e) option" where
  "flush_loop H timeoutMs t0 e =
     (let (b, e) = sd_raw_spi_read H e
      in if b = 0xFF then Some (True, e)
         else let (now, e) = spi_millis H e
              in if now - t0 < ucast timeoutMs then flush_loop H timeoutMs t0 e else Some (False, e))"

definition sd_raw_flush :: "'e spi \<Rightarrow> u16 \<Rightarrow> 'e \<Rightarrow> (bool \<times> 'e) option" where
  "sd_raw_flush H timeoutMs e = (let (t0, e) = spi_millis H e in flush_loop H timeoutMs t0 e)"

text \<open>\<^verbatim>\<open>while (sd->offset++ < SD_RAW_BLOCK_SIZE + 2)\<close>\<close>

function read_end_loop :: "'e spi \<Rightarrow> u16 \<Rightarrow> 'e \<Rightarrow> u16 \<times> 'e" where
  "read_end_loop H offset e =
     (if unat offset < SD_RAW_BLOCK_SIZE + 2
      then read_end_loop H (offset + 1) (snd (sd_raw_spi_read H e))
      else (offset + 1, e))"
  by pat_completeness auto

termination read_end_loop
  by (relation "measure (\<lambda>(H, offset, e). 514 - unat offset)") (auto simp: unat_word_ariths)

declare read_end_loop.simps [simp del]

definition sd_raw_read_end :: "'e spi \<Rightarrow> 'e sd \<Rightarrow> 'e sd" where
  "sd_raw_read_end H = (\<lambda>(sd, e).
     if sd_inBlock sd then
       let (offset, e) = read_end_loop H (sd_offset sd) e;
           (sd, e) = sd_raw_cs_high H (sd\<lparr>sd_offset := offset\<rparr>, e)
       in (sd\<lparr>sd_inBlock := False\<rparr>, e)
     else (sd, e))"

section \<open>Commands\<close>

text \<open>The bytes of a command on the wire.\<close>

definition command_frame :: "u8 \<Rightarrow> u32 \<Rightarrow> bytes" where
  "command_frame command arg =
     [command OR 0x40] @ map (\<lambda>s. ucast (drop_bit s arg)) [24, 16, 8, 0]
     @ [if command = CMD8 then 0x87 else if command = CMD0 then 0x95 else 0xFF]"

text \<open>Polling for a response, at most 256 times.\<close>

function response_loop :: "'e spi \<Rightarrow> u8 \<Rightarrow> 'e \<Rightarrow> u8 \<times> 'e" where
  "response_loop H i e =
     (let (status, e) = sd_raw_spi_read H e
      in if status AND 0x80 \<noteq> 0 \<and> i \<noteq> 0xFF then response_loop H (i + 1) e else (status, e))"
  by pat_completeness auto

lemma u8_advance:
  assumes "(i :: u8) \<noteq> 0xFF"
  shows "unat (i + 1) = unat i + 1" "unat i < 255"
proof -
  have "unat i < 256" using unsigned_less [of i, where ?'a = nat] by simp
  moreover have "unat i \<noteq> 255" using assms by (auto simp: word_unat_eq_iff)
  ultimately show "unat (i + 1) = unat i + 1" "unat i < 255" by (simp_all add: unat_word_ariths)
qed

termination response_loop
  by (relation "measure (\<lambda>(H, i, e). 255 - unat i)") (auto simp: u8_advance dest: u8_advance(2))

declare response_loop.simps [simp del]

definition sd_raw_command :: "'e spi \<Rightarrow> u8 \<Rightarrow> u32 \<Rightarrow> 'e sd \<Rightarrow> (u8 \<times> 'e sd) option" where
  "sd_raw_command H command arg s = do {
     let (sd, e) = sd_raw_cs_low H (sd_raw_read_end H s);
     (_, e) \<leftarrow> sd_raw_flush H 300 e;
     let e = spi_writes H (command_frame command arg) e;
     let (status, e) = response_loop H 0 e;
     Some (status, sd\<lparr>sd_status := status\<rparr>, e)
   }"

definition sd_raw_acommand :: "'e spi \<Rightarrow> u8 \<Rightarrow> u32 \<Rightarrow> 'e sd \<Rightarrow> (u8 \<times> 'e sd) option" where
  "sd_raw_acommand H command arg s = do {
     (_, s) \<leftarrow> sd_raw_command H CMD55 0 s;
     sd_raw_command H command arg s
   }"

definition sd_raw_error :: "'e spi \<Rightarrow> u32 \<Rightarrow> 'e sd \<Rightarrow> bool \<times> 'e sd" where
  "sd_raw_error H error s =
     (let (sd, e) = sd_raw_cs_high H s in (False, sd\<lparr>sd_status := ucast error\<rparr>, e))"

section \<open>Initialisation\<close>

definition sd_raw_spi_configure :: "'e spi \<Rightarrow> 'e \<Rightarrow> 'e" where
  "sd_raw_spi_configure H e =
     (let e = spi_setClockDivider H (spi_begin H e) 255;
          e = spi_writes H (replicate 10 0xFF) e
      in spi_setClockDivider H e SPI_FULL_SPEED)"

text \<open>Repeating a command until it is answered with \<open>wanted\<close> or the time since \<open>t0\<close> is over
  \<^verbatim>\<open>SD_RAW_INIT_TIMEOUT\<close>: the two \<^verbatim>\<open>while\<close> loops of \<^verbatim>\<open>sd_raw_initialize\<close>.\<close>

partial_function (option) command_loop ::
  "'e spi \<Rightarrow> ('e sd \<Rightarrow> (u8 \<times> 'e sd) option) \<Rightarrow> u8 \<Rightarrow> u32 \<Rightarrow> 'e sd \<Rightarrow> (bool \<times> 'e sd) option" where
  "command_loop H command wanted t0 s = do {
     (status, sd, e) \<leftarrow> command s;
     let sd = sd\<lparr>sd_status := status\<rparr>;
     if status = wanted then Some (True, sd, e)
     else let (now, e) = spi_millis H e
          in if now - t0 > SD_RAW_INIT_TIMEOUT then Some (False, sd, e)
             else command_loop H command wanted t0 (sd, e)
   }"

text \<open>The version check: the type of the card, or the error.\<close>

definition initialize_version :: "'e spi \<Rightarrow> 'e sd \<Rightarrow> (bool \<times> 'e sd) option" where
  "initialize_version H s = do {
     (status, sd, e) \<leftarrow> sd_raw_command H CMD8 0x1AA s;
     if status AND R1_ILLEGAL_COMMAND \<noteq> 0 then Some (True, sd\<lparr>sd_type := SD_CARD_TYPE_SD1\<rparr>, e)
     else do {
       let (bs, e) = spi_reads H 4 e;
       let sd = sd\<lparr>sd_status := bs ! 3\<rparr>;
       if sd_status sd \<noteq> 0xAA then Some (sd_raw_error H SD_CARD_ERROR_CMD8 (sd, e))
       else Some (True, sd\<lparr>sd_type := SD_CARD_TYPE_SD2\<rparr>, e)
     }
   }"

text \<open>Reading the OCR register tells SDHC from SD2.\<close>

definition initialize_ocr :: "'e spi \<Rightarrow> 'e sd \<Rightarrow> (bool \<times> 'e sd) option" where
  "initialize_ocr H s =
     (if sd_type (fst s) = SD_CARD_TYPE_SD2 then do {
        (status, sd, e) \<leftarrow> sd_raw_command H CMD58 0 s;
        if status \<noteq> 0 then Some (sd_raw_error H SD_CARD_ERROR_CMD58 (sd, e))
        else do {
          let (b, e) = sd_raw_spi_read H e;
          let sd = (if b AND 0xC0 = 0xC0 then sd\<lparr>sd_type := SD_CARD_TYPE_SDHC\<rparr> else sd);
          let (_, e) = spi_reads H 3 e;
          Some (True, sd, e)
        }
      }
      else Some (True, s))"

definition sd_raw_initialize :: "'e spi \<Rightarrow> u8 \<Rightarrow> 'e sd \<Rightarrow> (bool \<times> 'e sd) option" where
  "sd_raw_initialize H pinCs = (\<lambda>(sd, e). do {
     let sd = sd\<lparr>sd_cs := pinCs\<rparr>;
     let (sd, e) = sd_raw_cs_high H (sd, spi_pinModeOutput H e (sd_cs sd));
     let (sd, e) = sd_raw_cs_low H (sd, sd_raw_spi_configure H e);
     let (t0, e) = spi_millis H e;
     (ok, s) \<leftarrow> command_loop H (sd_raw_command H CMD0 0) R1_IDLE_STATE t0 (sd, e);
     if \<not> ok then Some (sd_raw_error H SD_CARD_ERROR_CMD0 s)
     else do {
       (ok, s) \<leftarrow> initialize_version H s;
       if \<not> ok then Some (False, s)
       else do {
         let arg = (if sd_type (fst s) = SD_CARD_TYPE_SD2 then 0x40000000 else 0);
         (ok, s) \<leftarrow> command_loop H (sd_raw_acommand H ACMD41 arg) R1_READY_STATE t0 s;
         if \<not> ok then Some (sd_raw_error H SD_CARD_ERROR_ACMD41 s)
         else do {
           (ok, s) \<leftarrow> initialize_ocr H s;
           if \<not> ok then Some (False, s) else Some (True, sd_raw_cs_high H s)
         }
       }
     }
   })"

section \<open>Reading\<close>

partial_function (option) start_block_loop :: "'e spi \<Rightarrow> u32 \<Rightarrow> 'e sd \<Rightarrow> (bool \<times> 'e sd) option" where
  "start_block_loop H t0 s =
     (let (b, e) = sd_raw_spi_read H (snd s); sd = (fst s)\<lparr>sd_status := b\<rparr>
      in if b = 0xFF
         then let (now, e) = spi_millis H e
              in if now - t0 > SD_RAW_READ_TIMEOUT
                 then Some (sd_raw_error H SD_CARD_ERROR_READ_TIMEOUT (sd, e))
                 else start_block_loop H t0 (sd, e)
         else if b \<noteq> DATA_START_BLOCK then Some (sd_raw_error H SD_CARD_ERROR_READ (sd, e))
         else Some (True, sd, e))"

definition sd_wait_start_block :: "'e spi \<Rightarrow> 'e sd \<Rightarrow> (bool \<times> 'e sd) option" where
  "sd_wait_start_block H = (\<lambda>(sd, e). let (t0, e) = spi_millis H e in start_block_loop H t0 (sd, e))"

definition sd_raw_read_register :: "'e spi \<Rightarrow> u8 \<Rightarrow> bytes \<Rightarrow> 'e sd \<Rightarrow> (bool \<times> bytes \<times> 'e sd) option" where
  "sd_raw_read_register H command destiny s = do {
     (status, s) \<leftarrow> sd_raw_command H command 0 s;
     if status \<noteq> 0 then let (ok, s) = sd_raw_error H SD_CARD_ERROR_READ_REG s in Some (ok, destiny, s)
     else do {
       (ok, s) \<leftarrow> sd_wait_start_block H s;
       if \<not> ok then let (ok, s) = sd_raw_error H SD_CARD_ERROR_GENERAL s in Some (ok, destiny, s)
       else do {
         let (bs, e) = spi_reads H 16 (snd s);
         destiny \<leftarrow> mem_write destiny 0 bs;
         let (_, e) = spi_reads H 2 e;
         Some (True, destiny, sd_raw_cs_high H (fst s, e))
       }
     }
   }"

definition sd_raw_read_csd :: "'e spi \<Rightarrow> bytes \<Rightarrow> 'e sd \<Rightarrow> (bool \<times> bytes \<times> 'e sd) option" where
  "sd_raw_read_csd H csd s = sd_raw_read_register H CMD9 csd s"

text \<open>The address a command takes: cards that are not SDHC count bytes.\<close>

definition sd_address :: "sd_raw_t \<Rightarrow> u32 \<Rightarrow> u32" where
  "sd_address sd block = (if sd_type sd \<noteq> SD_CARD_TYPE_SDHC then push_bit 9 block else block)"

text \<open>Opening a block for reading, unless the card is in the middle of it already.\<close>

definition read_data_open :: "'e spi \<Rightarrow> u32 \<Rightarrow> u16 \<Rightarrow> 'e sd \<Rightarrow> (bool \<times> 'e sd) option" where
  "read_data_open H block offset = (\<lambda>(sd, e).
     if \<not> sd_inBlock sd \<or> block \<noteq> sd_block sd \<or> offset < sd_offset sd then do {
       let sd = sd\<lparr>sd_block := block\<rparr>;
       (status, s) \<leftarrow> sd_raw_command H CMD17 (sd_address sd block) (sd, e);
       if status \<noteq> 0 then Some (sd_raw_error H SD_CARD_ERROR_CMD17 s)
       else do {
         (ok, s) \<leftarrow> sd_wait_start_block H s;
         if \<not> ok then Some (sd_raw_error H SD_CARD_ERROR_GENERAL s)
         else Some (True, (fst s)\<lparr>sd_offset := 0, sd_inBlock := True\<rparr>, snd s)
       }
     }
     else Some (True, sd, e))"

definition sd_raw_read_data ::
  "'e spi \<Rightarrow> u32 \<Rightarrow> u16 \<Rightarrow> u16 \<Rightarrow> bytes \<Rightarrow> 'e sd \<Rightarrow> (bool \<times> bytes \<times> 'e sd) option" where
  "sd_raw_read_data H block offset sz destiny s =
     (if sz = 0 then Some (True, destiny, s)
      else if unat sz + unat offset > SD_RAW_BLOCK_SIZE
      then let (ok, s) = sd_raw_error H SD_CARD_ERROR_GENERAL s in Some (ok, destiny, s)
      else do {
        (ok, sd, e) \<leftarrow> read_data_open H block offset s;
        if \<not> ok then Some (False, destiny, sd, e)
        else do {
          let (_, e) = spi_reads H (unat offset - unat (sd_offset sd)) e;
          let (bs, e) = spi_reads H (unat sz) e;
          destiny \<leftarrow> mem_write destiny 0 bs;
          let sd = sd\<lparr>sd_offset := max (sd_offset sd) offset + sz\<rparr>;
          Some (True, destiny, sd_raw_read_end H (sd, e))
        }
      })"

definition sd_raw_read_block :: "'e spi \<Rightarrow> u32 \<Rightarrow> bytes \<Rightarrow> 'e sd \<Rightarrow> (bool \<times> bytes \<times> 'e sd) option" where
  "sd_raw_read_block H block destiny s = sd_raw_read_data H block 0 512 destiny s"

section \<open>Writing\<close>

text \<open>The token, the data and the dummy checksum \<^verbatim>\<open>0xffff\<close>; checksum support is not compiled in.\<close>

definition sd_raw_write_data :: "'e spi \<Rightarrow> u8 \<Rightarrow> bytes \<Rightarrow> 'e sd \<Rightarrow> (bool \<times> 'e sd) option" where
  "sd_raw_write_data H token source = (\<lambda>(sd, e). do {
     bs \<leftarrow> mem_read source 0 SD_RAW_BLOCK_SIZE;
     let e = spi_writes H ([token] @ bs @ [0xFF, 0xFF]) e;
     let (status, e) = sd_raw_spi_read H e;
     let sd = sd\<lparr>sd_status := status\<rparr>;
     if status AND DATA_RES_MASK \<noteq> DATA_RES_ACCEPTED
     then Some (sd_raw_error H SD_CARD_ERROR_WRITE (sd, e))
     else Some (True, sd, e)
   })"

definition sd_raw_write_block :: "'e spi \<Rightarrow> u32 \<Rightarrow> bytes \<Rightarrow> 'e sd \<Rightarrow> (bool \<times> 'e sd) option" where
  "sd_raw_write_block H block source s = do {
     (status, s) \<leftarrow> sd_raw_command H CMD24 (sd_address (fst s) block) s;
     if status \<noteq> 0 then Some (sd_raw_error H SD_CARD_ERROR_CMD24 s)
     else do {
       (ok, s) \<leftarrow> sd_raw_write_data H DATA_START_BLOCK source s;
       if \<not> ok then Some (sd_raw_error H SD_CARD_ERROR_GENERAL s)
       else do {
         (ok, e) \<leftarrow> sd_raw_flush H SD_RAW_WRITE_TIMEOUT (snd s);
         if \<not> ok then Some (sd_raw_error H SD_CARD_ERROR_WRITE_TIMEOUT (fst s, e))
         else do {
           (status, sd, e) \<leftarrow> sd_raw_command H CMD13 0 (fst s, e);
           let (failed, e) = (if status \<noteq> 0 then (True, e)
                              else let (b, e) = sd_raw_spi_read H e in (b \<noteq> 0, e));
           if failed then Some (sd_raw_error H SD_CARD_ERROR_WRITE_PROGRAMMING (sd, e))
           else Some (True, sd_raw_cs_high H (sd, e))
         }
       }
     }
   }"

section \<open>The card-specific data register\<close>

text \<open>A bit field of \<open>n\<close> bits from bit \<open>lo\<close> of a byte; the compiler allocates bit fields from the
  low end.\<close>

definition bits :: "u8 \<Rightarrow> nat \<Rightarrow> nat \<Rightarrow> u8" where
  "bits b lo n = take_bit n (drop_bit lo b)"

text \<open>\<^verbatim>\<open>csd1_t\<close> and \<^verbatim>\<open>csd2_t\<close>, the two views of the union \<^verbatim>\<open>csd_t\<close>: both are read from the same
  sixteen bytes of the register.\<close>

record csd1_t =
  csd1_reserved1 :: u8
  csd1_csd_ver :: u8
  csd1_taac :: u8
  csd1_nsac :: u8
  csd1_tran_speed :: u8
  csd1_ccc_high :: u8
  csd1_read_bl_len :: u8
  csd1_ccc_low :: u8
  csd1_c_size_high :: u8
  csd1_reserved2 :: u8
  csd1_dsr_imp :: u8
  csd1_read_blk_misalign :: u8
  csd1_write_blk_misalign :: u8
  csd1_read_bl_partial :: u8
  csd1_c_size_mid :: u8
  csd1_vdd_r_curr_max :: u8
  csd1_vdd_r_curr_min :: u8
  csd1_c_size_low :: u8
  csd1_c_size_mult_high :: u8
  csd1_vdd_w_cur_max :: u8
  csd1_vdd_w_curr_min :: u8
  csd1_sector_size_high :: u8
  csd1_erase_blk_en :: u8
  csd1_c_size_mult_low :: u8
  csd1_wp_grp_size :: u8
  csd1_sector_size_low :: u8
  csd1_write_bl_len_high :: u8
  csd1_r2w_factor :: u8
  csd1_reserved3 :: u8
  csd1_wp_grp_enable :: u8
  csd1_reserved4 :: u8
  csd1_write_partial :: u8
  csd1_write_bl_len_low :: u8
  csd1_reserved5 :: u8
  csd1_file_format :: u8
  csd1_tmp_write_protect :: u8
  csd1_perm_write_protect :: u8
  csd1_copy :: u8
  csd1_file_format_grp :: u8
  csd1_always1 :: u8
  csd1_crc :: u8

record csd2_t =
  csd2_reserved1 :: u8
  csd2_csd_ver :: u8
  csd2_taac :: u8
  csd2_nsac :: u8
  csd2_tran_speed :: u8
  csd2_ccc_high :: u8
  csd2_read_bl_len :: u8
  csd2_ccc_low :: u8
  csd2_reserved2 :: u8
  csd2_dsr_imp :: u8
  csd2_read_blk_misalign :: u8
  csd2_write_blk_misalign :: u8
  csd2_read_bl_partial :: u8
  csd2_reserved3 :: u8
  csd2_c_size_high :: u8
  csd2_c_size_mid :: u8
  csd2_c_size_low :: u8
  csd2_sector_size_high :: u8
  csd2_erase_blk_en :: u8
  csd2_reserved4 :: u8
  csd2_wp_grp_size :: u8
  csd2_sector_size_low :: u8
  csd2_write_bl_len_high :: u8
  csd2_r2w_factor :: u8
  csd2_reserved5 :: u8
  csd2_wp_grp_enable :: u8
  csd2_reserved6 :: u8
  csd2_write_partial :: u8
  csd2_write_bl_len_low :: u8
  csd2_reserved7 :: u8
  csd2_file_format :: u8
  csd2_tmp_write_protect :: u8
  csd2_perm_write_protect :: u8
  csd2_copy :: u8
  csd2_file_format_grp :: u8
  csd2_always1 :: u8
  csd2_crc :: u8

definition csd_v1 :: "bytes \<Rightarrow> csd1_t" where
  "csd_v1 csd =
     \<lparr> csd1_reserved1 = bits (csd ! 0) 0 6, csd1_csd_ver = bits (csd ! 0) 6 2,
       csd1_taac = csd ! 1, csd1_nsac = csd ! 2, csd1_tran_speed = csd ! 3,
       csd1_ccc_high = csd ! 4, csd1_read_bl_len = bits (csd ! 5) 0 4,
       csd1_ccc_low = bits (csd ! 5) 4 4, csd1_c_size_high = bits (csd ! 6) 0 2,
       csd1_reserved2 = bits (csd ! 6) 2 2, csd1_dsr_imp = bits (csd ! 6) 4 1,
       csd1_read_blk_misalign = bits (csd ! 6) 5 1, csd1_write_blk_misalign = bits (csd ! 6) 6 1,
       csd1_read_bl_partial = bits (csd ! 6) 7 1, csd1_c_size_mid = csd ! 7,
       csd1_vdd_r_curr_max = bits (csd ! 8) 0 3, csd1_vdd_r_curr_min = bits (csd ! 8) 3 3,
       csd1_c_size_low = bits (csd ! 8) 6 2, csd1_c_size_mult_high = bits (csd ! 9) 0 2,
       csd1_vdd_w_cur_max = bits (csd ! 9) 2 3, csd1_vdd_w_curr_min = bits (csd ! 9) 5 3,
       csd1_sector_size_high = bits (csd ! 10) 0 6, csd1_erase_blk_en = bits (csd ! 10) 6 1,
       csd1_c_size_mult_low = bits (csd ! 10) 7 1, csd1_wp_grp_size = bits (csd ! 11) 0 7,
       csd1_sector_size_low = bits (csd ! 11) 7 1, csd1_write_bl_len_high = bits (csd ! 12) 0 2,
       csd1_r2w_factor = bits (csd ! 12) 2 3, csd1_reserved3 = bits (csd ! 12) 5 2,
       csd1_wp_grp_enable = bits (csd ! 12) 7 1, csd1_reserved4 = bits (csd ! 13) 0 5,
       csd1_write_partial = bits (csd ! 13) 5 1, csd1_write_bl_len_low = bits (csd ! 13) 6 2,
       csd1_reserved5 = bits (csd ! 14) 0 2, csd1_file_format = bits (csd ! 14) 2 2,
       csd1_tmp_write_protect = bits (csd ! 14) 4 1,
       csd1_perm_write_protect = bits (csd ! 14) 5 1, csd1_copy = bits (csd ! 14) 6 1,
       csd1_file_format_grp = bits (csd ! 14) 7 1, csd1_always1 = bits (csd ! 15) 0 1,
       csd1_crc = bits (csd ! 15) 1 7 \<rparr>"

definition csd_v2 :: "bytes \<Rightarrow> csd2_t" where
  "csd_v2 csd =
     \<lparr> csd2_reserved1 = bits (csd ! 0) 0 6, csd2_csd_ver = bits (csd ! 0) 6 2,
       csd2_taac = csd ! 1, csd2_nsac = csd ! 2, csd2_tran_speed = csd ! 3,
       csd2_ccc_high = csd ! 4, csd2_read_bl_len = bits (csd ! 5) 0 4,
       csd2_ccc_low = bits (csd ! 5) 4 4, csd2_reserved2 = bits (csd ! 6) 0 4,
       csd2_dsr_imp = bits (csd ! 6) 4 1, csd2_read_blk_misalign = bits (csd ! 6) 5 1,
       csd2_write_blk_misalign = bits (csd ! 6) 6 1, csd2_read_bl_partial = bits (csd ! 6) 7 1,
       csd2_reserved3 = bits (csd ! 7) 0 2, csd2_c_size_high = bits (csd ! 7) 2 6,
       csd2_c_size_mid = csd ! 8, csd2_c_size_low = csd ! 9,
       csd2_sector_size_high = bits (csd ! 10) 0 6, csd2_erase_blk_en = bits (csd ! 10) 6 1,
       csd2_reserved4 = bits (csd ! 10) 7 1, csd2_wp_grp_size = bits (csd ! 11) 0 7,
       csd2_sector_size_low = bits (csd ! 11) 7 1, csd2_write_bl_len_high = bits (csd ! 12) 0 2,
       csd2_r2w_factor = bits (csd ! 12) 2 3, csd2_reserved5 = bits (csd ! 12) 5 2,
       csd2_wp_grp_enable = bits (csd ! 12) 7 1, csd2_reserved6 = bits (csd ! 13) 0 5,
       csd2_write_partial = bits (csd ! 13) 5 1, csd2_write_bl_len_low = bits (csd ! 13) 6 2,
       csd2_reserved7 = bits (csd ! 14) 0 2, csd2_file_format = bits (csd ! 14) 2 2,
       csd2_tmp_write_protect = bits (csd ! 14) 4 1,
       csd2_perm_write_protect = bits (csd ! 14) 5 1, csd2_copy = bits (csd ! 14) 6 1,
       csd2_file_format_grp = bits (csd ! 14) 7 1, csd2_always1 = bits (csd ! 15) 0 1,
       csd2_crc = bits (csd ! 15) 1 7 \<rparr>"

text \<open>The size of a version 1 card. The shift count is an \<^verbatim>\<open>int\<close>; a negative one is undefined.\<close>

definition csd_v1_blocks :: "csd1_t \<Rightarrow> u32 option" where
  "csd_v1_blocks v1 =
     (let cSize = push_bit 10 (ucast (csd1_c_size_high v1)) OR push_bit 2 (ucast (csd1_c_size_mid v1))
            OR ucast (csd1_c_size_low v1) :: u16;
          cSizeMult = push_bit 1 (csd1_c_size_mult_high v1) OR csd1_c_size_mult_low v1;
          count = unat cSizeMult + unat (csd1_read_bl_len v1)
      in if count < 7 then None else Some (push_bit (count - 7) (of_nat (unat cSize + 1))))"

definition csd_v2_blocks :: "csd2_t \<Rightarrow> u32" where
  "csd_v2_blocks v2 =
     (let cSize = push_bit 16 (ucast (csd2_c_size_high v2)) OR push_bit 8 (ucast (csd2_c_size_mid v2))
            OR ucast (csd2_c_size_low v2) :: u32
      in (cSize + 1) * 1024)"

text \<open>\<open>stack\<close> is what the local variable \<^verbatim>\<open>csd\<close> holds before the register is read into it.\<close>

definition sd_raw_card_size :: "'e spi \<Rightarrow> bytes \<Rightarrow> 'e sd \<Rightarrow> (u32 \<times> 'e sd) option" where
  "sd_raw_card_size H stack s = do {
     (ok, csd, s) \<leftarrow> sd_raw_read_csd H stack s;
     if \<not> ok then Some (0, s)
     else if csd1_csd_ver (csd_v1 csd) = 0
     then map_option (\<lambda>n. (n, s)) (csd_v1_blocks (csd_v1 csd))
     else if csd2_csd_ver (csd_v2 csd) = 1 then Some (csd_v2_blocks (csd_v2 csd), s)
     else Some (0, snd (sd_raw_error H SD_CARD_ERROR_BAD_CSD s))
   }"

section \<open>Erasing\<close>

definition sd_raw_erase_single_block_enabled :: "'e spi \<Rightarrow> bytes \<Rightarrow> 'e sd \<Rightarrow> (u8 \<times> 'e sd) option" where
  "sd_raw_erase_single_block_enabled H stack s = do {
     (ok, csd, s) \<leftarrow> sd_raw_read_csd H stack s;
     Some (if ok then csd1_erase_blk_en (csd_v1 csd) else 0, s)
   }"

text \<open>\<^verbatim>\<open>a || b || c\<close> over commands: the first that answers non-zero stops the sequence.\<close>

fun command_sequence :: "'e spi \<Rightarrow> (u8 \<times> u32) list \<Rightarrow> 'e sd \<Rightarrow> (bool \<times> 'e sd) option" where
  "command_sequence H [] s = Some (False, s)"
| "command_sequence H ((command, arg) # rest) s = do {
     (status, s) \<leftarrow> sd_raw_command H command arg s;
     if status \<noteq> 0 then Some (True, s) else command_sequence H rest s
   }"

definition sd_raw_erase :: "'e spi \<Rightarrow> bytes \<Rightarrow> u32 \<Rightarrow> u32 \<Rightarrow> 'e sd \<Rightarrow> (bool \<times> 'e sd) option" where
  "sd_raw_erase H stack firstBlock lastBlock s = do {
     (enabled, s) \<leftarrow> sd_raw_erase_single_block_enabled H stack s;
     if enabled = 0 then Some (sd_raw_error H SD_CARD_ERROR_ERASE_SINGLE_BLOCK s)
     else do {
       (failed, s) \<leftarrow> command_sequence H [(CMD32, sd_address (fst s) firstBlock),
         (CMD33, sd_address (fst s) lastBlock), (CMD38, 0)] s;
       if failed then Some (sd_raw_error H SD_CARD_ERROR_ERASE s)
       else do {
         (ok, e) \<leftarrow> sd_raw_flush H SD_RAW_ERASE_TIMEOUT (snd s);
         if \<not> ok then Some (sd_raw_error H SD_CARD_ERROR_ERASE_TIMEOUT (fst s, e))
         else Some (True, sd_raw_cs_high H (fst s, e))
       }
     }
   }"

section \<open>The driver as the platform of the file system\<close>

definition sd_raw_zero :: sd_raw_t where
  "sd_raw_zero = \<lparr> sd_cs = 0, sd_status = 0, sd_type = 0, sd_offset = 0, sd_inBlock = False,
     sd_block = 0 \<rparr>"

definition sd_platform :: "'e spi \<Rightarrow> 'e sd platform" where
  "sd_platform H =
     \<lparr> plat_read_block = (\<lambda>s block destiny. sd_raw_read_block H block destiny s),
       plat_write_block = (\<lambda>s block source. sd_raw_write_block H block source s),
       plat_card_size = sd_raw_card_size H (memzero 16),
       plat_memzero = (\<lambda>(sd, e). (sd_raw_zero, e)),
       plat_millis = (\<lambda>(sd, e). let (t, e) = spi_millis H e in (t, sd, e)),
       plat_random = (\<lambda>(sd, e) m. let (r, e) = spi_random H e m in (r, sd, e)) \<rparr>"

end
