(* ===== verification/Dma.thy ===== *)
theory Dma
  imports Prelude
begin

text \<open>
  \<^verbatim>\<open>utility/dma.h\<close> and \<^verbatim>\<open>utility/dma.c\<close>: the driver of the direct memory access controller, built
  for a device without \<^verbatim>\<open>FEATURE_DMA_CHANNEL_STANDBY\<close>. The controller, the clock and interrupt
  services and the device header with its register masks are outside the sources; they are a state
  of type \<open>'w\<close> and a record of operations and constants.

  The structures the caller owns are reached through pointers, so they live in two heaps indexed by
  address, one for \<^verbatim>\<open>struct dma_resource\<close> and one for \<^verbatim>\<open>DmacDescriptor\<close>; address 0 is \<^verbatim>\<open>NULL\<close>. A
  failed \<^verbatim>\<open>Assert\<close>, a null pointer, an index outside a driver array or a shift beyond the width
  gives \<open>None\<close>.
\<close>

section \<open>The types of \<^verbatim>\<open>dma.h\<close>\<close>

abbreviation (input) CONF_MAX_USED_CHANNEL_NUM :: nat where "CONF_MAX_USED_CHANNEL_NUM \<equiv> 5"
abbreviation (input) DMA_INVALID_CHANNEL :: u8 where "DMA_INVALID_CHANNEL \<equiv> 0xff"
abbreviation (input) MAX_JOB_RESUME_COUNT :: nat where "MAX_JOB_RESUME_COUNT \<equiv> 10000"

type_synonym addr = u32

abbreviation (input) NULL :: addr where "NULL \<equiv> 0"

datatype dma_priority_level =
  DMA_PRIORITY_LEVEL_0 | DMA_PRIORITY_LEVEL_1 | DMA_PRIORITY_LEVEL_2 | DMA_PRIORITY_LEVEL_3

datatype dma_event_input_action =
  DMA_EVENT_INPUT_NOACT | DMA_EVENT_INPUT_TRIG | DMA_EVENT_INPUT_CTRIG | DMA_EVENT_INPUT_CBLOCK
| DMA_EVENT_INPUT_SUSPEND | DMA_EVENT_INPUT_RESUME | DMA_EVENT_INPUT_SSKIP

datatype dma_address_increment_stepsize =
  DMA_ADDRESS_INCREMENT_STEP_SIZE_1 | DMA_ADDRESS_INCREMENT_STEP_SIZE_2
| DMA_ADDRESS_INCREMENT_STEP_SIZE_4 | DMA_ADDRESS_INCREMENT_STEP_SIZE_8
| DMA_ADDRESS_INCREMENT_STEP_SIZE_16 | DMA_ADDRESS_INCREMENT_STEP_SIZE_32
| DMA_ADDRESS_INCREMENT_STEP_SIZE_64 | DMA_ADDRESS_INCREMENT_STEP_SIZE_128

datatype dma_step_selection = DMA_STEPSEL_DST | DMA_STEPSEL_SRC

datatype dma_beat_size = DMA_BEAT_SIZE_BYTE | DMA_BEAT_SIZE_HWORD | DMA_BEAT_SIZE_WORD

datatype dma_block_action =
  DMA_BLOCK_ACTION_NOACT | DMA_BLOCK_ACTION_INT | DMA_BLOCK_ACTION_SUSPEND | DMA_BLOCK_ACTION_BOTH

datatype dma_event_output_selection =
  DMA_EVENT_OUTPUT_DISABLE | DMA_EVENT_OUTPUT_BLOCK | DMA_EVENT_OUTPUT_RESERVED | DMA_EVENT_OUTPUT_BEAT

datatype dma_transfer_trigger_action =
  DMA_TRIGGER_ACTION_BLOCK | DMA_TRIGGER_ACTION_BEAT | DMA_TRIGGER_ACTION_TRANSACTION

text \<open>\<^verbatim>\<open>DMA_CALLBACK_N\<close>, the number of the callbacks, is the length of the array.\<close>

datatype dma_callback_type =
  DMA_CALLBACK_TRANSFER_ERROR | DMA_CALLBACK_TRANSFER_DONE | DMA_CALLBACK_CHANNEL_SUSPEND

primrec callback_index :: "dma_callback_type \<Rightarrow> nat" where
  "callback_index DMA_CALLBACK_TRANSFER_ERROR = 0"
| "callback_index DMA_CALLBACK_TRANSFER_DONE = 1"
| "callback_index DMA_CALLBACK_CHANNEL_SUSPEND = 2"

text \<open>The status codes the driver uses.\<close>

datatype status_code =
  STATUS_OK | STATUS_BUSY | STATUS_SUSPEND | STATUS_ABORTED | STATUS_ERR_IO | STATUS_ERR_TIMEOUT
| STATUS_ERR_NOT_FOUND | STATUS_ERR_NOT_INITIALIZED | STATUS_ERR_INVALID_ARG

record dma_descriptor_config =
  dc_descriptor_valid :: bool
  dc_event_output_selection :: dma_event_output_selection
  dc_block_action :: dma_block_action
  dc_beat_size :: dma_beat_size
  dc_src_increment_enable :: bool
  dc_dst_increment_enable :: bool
  dc_step_selection :: dma_step_selection
  dc_step_size :: dma_address_increment_stepsize
  dc_block_transfer_count :: u16
  dc_source_address :: u32
  dc_destination_address :: u32
  dc_next_descriptor_address :: u32

record dma_events_config =
  ec_input_action :: dma_event_input_action
  ec_event_output_enable :: bool

record dma_resource_config =
  rc_priority :: dma_priority_level
  rc_peripheral_trigger :: u8
  rc_trigger_action :: dma_transfer_trigger_action
  rc_event_config :: dma_events_config

text \<open>A callback is the address of a function.\<close>

record dma_resource =
  res_channel_id :: u8
  res_callback :: "addr list"
  res_callback_enable :: u8
  res_job_status :: status_code
  res_transfered_size :: u32
  res_descriptor :: addr

text \<open>The descriptor of the device header, as the driver uses it: the bit fields of the block
  transfer control, the beat count and the three addresses.\<close>

record DmacDescriptor =
  BTCTRL_VALID :: bool
  BTCTRL_EVOSEL :: dma_event_output_selection
  BTCTRL_BLOCKACT :: dma_block_action
  BTCTRL_BEATSIZE :: dma_beat_size
  BTCTRL_SRCINC :: bool
  BTCTRL_DSTINC :: bool
  BTCTRL_STEPSEL :: dma_step_selection
  BTCTRL_STEPSIZE :: dma_address_increment_stepsize
  BTCNT :: u16
  SRCADDR :: u32
  DSTADDR :: u32
  DESCADDR :: u32

section \<open>The outside world\<close>

datatype dmac_reg =
  CTRL | BASEADDR | WRBADDR | CHID | CHCTRLA | CHCTRLB | CHINTENCLR | CHINTENSET | CHINTFLAG
| SWTRIGCTRL | INTPEND | BUSYCH

text \<open>
  Register accesses, the block counts the controller writes back, the critical sections and the
  clock and interrupt services; then the masks of the device header and the addresses of the two
  sections. \<open>dmac_call\<close> runs a callback and \<open>dmac_irq\<close> says whether the interrupt of the
  controller is taken at a point where the program polls.
\<close>

record 'w dmac =
  dmac_read :: "dmac_reg \<Rightarrow> 'w \<Rightarrow> u32 \<times> 'w"
  dmac_write :: "dmac_reg \<Rightarrow> u32 \<Rightarrow> 'w \<Rightarrow> 'w"
  dmac_write_back_BTCNT :: "'w \<Rightarrow> nat \<Rightarrow> u16"
  system_interrupt_enter_critical_section :: "'w \<Rightarrow> 'w"
  system_interrupt_leave_critical_section :: "'w \<Rightarrow> 'w"
  system_clock_set_mask_DMAC :: "'w \<Rightarrow> 'w"
  system_interrupt_enable_DMA :: "'w \<Rightarrow> 'w"
  dmac_irq :: "'w \<Rightarrow> bool \<times> 'w"
  DMAC_CTRL_DMAENABLE :: u32
  DMAC_CTRL_SWRST :: u32
  DMAC_CTRL_LVLEN :: "u32 \<Rightarrow> u32"
  DMAC_CHID_ID :: "u8 \<Rightarrow> u32"
  DMAC_CHCTRLA_ENABLE :: u32
  DMAC_CHCTRLA_SWRST :: u32
  DMAC_CHCTRLB_LVL :: "dma_priority_level \<Rightarrow> u32"
  DMAC_CHCTRLB_TRIGSRC :: "u8 \<Rightarrow> u32"
  DMAC_CHCTRLB_TRIGACT :: "dma_transfer_trigger_action \<Rightarrow> u32"
  DMAC_CHCTRLB_EVIE :: u32
  DMAC_CHCTRLB_EVACT :: "dma_event_input_action \<Rightarrow> u32"
  DMAC_CHCTRLB_EVOE :: u32
  DMAC_CHCTRLB_CMD_SUSPEND :: u32
  DMAC_CHCTRLB_CMD_RESUME :: u32
  DMAC_INTPEND_ID_Msk :: u32
  DMAC_CHINTENCLR_TERR :: u8
  DMAC_CHINTENCLR_TCMPL :: u8
  DMAC_CHINTENCLR_SUSP :: u8
  DMAC_CHINTENSET_MASK :: u8
  descriptor_section_addr :: addr
  write_back_section_addr :: addr

section \<open>The driver's state\<close>

record 'w dma =
  dma_init :: bool
  allocated_channels :: u32
  free_channels :: u8
  descriptor_section :: "DmacDescriptor list"
  dma_active_resource :: "addr list"
  g_chan_interrupt_flag :: "u8 list"
  dma_resources :: "addr \<rightharpoonup> dma_resource"
  dma_descriptors :: "addr \<rightharpoonup> DmacDescriptor"
  dma_world :: 'w

type_synonym ('a, 'w) dma_result = "('a \<times> 'w dma) option"

text \<open>The static initialisers of \<^verbatim>\<open>_dma_inst\<close> and of the driver's arrays.\<close>

definition dma_descriptor_zero :: DmacDescriptor where
  "dma_descriptor_zero =
     \<lparr> BTCTRL_VALID = False, BTCTRL_EVOSEL = DMA_EVENT_OUTPUT_DISABLE,
       BTCTRL_BLOCKACT = DMA_BLOCK_ACTION_NOACT, BTCTRL_BEATSIZE = DMA_BEAT_SIZE_BYTE,
       BTCTRL_SRCINC = False, BTCTRL_DSTINC = False, BTCTRL_STEPSEL = DMA_STEPSEL_DST,
       BTCTRL_STEPSIZE = DMA_ADDRESS_INCREMENT_STEP_SIZE_1, BTCNT = 0, SRCADDR = 0, DSTADDR = 0,
       DESCADDR = 0 \<rparr>"

definition dma_boot ::
  "(addr \<rightharpoonup> dma_resource) \<Rightarrow> (addr \<rightharpoonup> DmacDescriptor) \<Rightarrow> 'w \<Rightarrow> 'w dma" where
  "dma_boot resources descriptors w =
     \<lparr> dma_init = False, allocated_channels = 0, free_channels = of_nat CONF_MAX_USED_CHANNEL_NUM,
       descriptor_section = replicate CONF_MAX_USED_CHANNEL_NUM dma_descriptor_zero,
       dma_active_resource = replicate CONF_MAX_USED_CHANNEL_NUM NULL,
       g_chan_interrupt_flag = replicate CONF_MAX_USED_CHANNEL_NUM 0,
       dma_resources = resources, dma_descriptors = descriptors, dma_world = w \<rparr>"

section \<open>Registers, pointers and arrays\<close>

definition world :: "('w \<Rightarrow> 'w) \<Rightarrow> 'w dma \<Rightarrow> 'w dma" where
  "world f d = d\<lparr>dma_world := f (dma_world d)\<rparr>"

definition enter_critical :: "'w dmac \<Rightarrow> 'w dma \<Rightarrow> 'w dma" where
  "enter_critical D = world (system_interrupt_enter_critical_section D)"

definition leave_critical :: "'w dmac \<Rightarrow> 'w dma \<Rightarrow> 'w dma" where
  "leave_critical D = world (system_interrupt_leave_critical_section D)"

definition reg_put :: "'w dmac \<Rightarrow> dmac_reg \<Rightarrow> u32 \<Rightarrow> 'w dma \<Rightarrow> 'w dma" where
  "reg_put D r v = world (dmac_write D r v)"

definition reg_get :: "'w dmac \<Rightarrow> dmac_reg \<Rightarrow> 'w dma \<Rightarrow> u32 \<times> 'w dma" where
  "reg_get D r d = (let (v, w) = dmac_read D r (dma_world d) in (v, d\<lparr>dma_world := w\<rparr>))"

text \<open>\<^verbatim>\<open>reg &= m\<close> and \<^verbatim>\<open>reg |= m\<close>.\<close>

definition reg_and :: "'w dmac \<Rightarrow> dmac_reg \<Rightarrow> u32 \<Rightarrow> 'w dma \<Rightarrow> 'w dma" where
  "reg_and D r m d = (let (v, d) = reg_get D r d in reg_put D r (v AND m) d)"

definition reg_or :: "'w dmac \<Rightarrow> dmac_reg \<Rightarrow> u32 \<Rightarrow> 'w dma \<Rightarrow> 'w dma" where
  "reg_or D r m d = (let (v, d) = reg_get D r d in reg_put D r (v OR m) d)"

definition deref :: "(addr \<rightharpoonup> 'a) \<Rightarrow> addr \<Rightarrow> 'a option" where
  "deref heap p = (if p = NULL then None else heap p)"

definition set_resource :: "addr \<Rightarrow> dma_resource \<Rightarrow> 'w dma \<Rightarrow> 'w dma" where
  "set_resource p res d = d\<lparr>dma_resources := (dma_resources d)(p \<mapsto> res)\<rparr>"

definition set_descriptor :: "addr \<Rightarrow> DmacDescriptor \<Rightarrow> 'w dma \<Rightarrow> 'w dma" where
  "set_descriptor p desc d = d\<lparr>dma_descriptors := (dma_descriptors d)(p \<mapsto> desc)\<rparr>"

definition at :: "'a list \<Rightarrow> u8 \<Rightarrow> 'a option" where
  "at xs i = (if unat i < length xs then Some (xs ! unat i) else None)"

text \<open>\<^verbatim>\<open>1 << channel_id\<close> in a 32 bit \<^verbatim>\<open>int\<close>.\<close>

definition channel_bit :: "u8 \<Rightarrow> u32 option" where
  "channel_bit c = (if unat c < 31 then Some (push_bit (unat c) 1) else None)"

definition Assert :: "bool \<Rightarrow> unit option" where
  "Assert b = (if b then Some () else None)"

section \<open>Inline operations of \<^verbatim>\<open>dma.h\<close>\<close>

definition dma_get_job_status :: "addr \<Rightarrow> 'w dma \<Rightarrow> status_code option" where
  "dma_get_job_status p d = map_option res_job_status (deref (dma_resources d) p)"

definition dma_is_busy :: "addr \<Rightarrow> 'w dma \<Rightarrow> bool option" where
  "dma_is_busy p d = map_option (\<lambda>res. res_job_status res = STATUS_BUSY) (deref (dma_resources d) p)"

definition dma_enable_callback :: "addr \<Rightarrow> dma_callback_type \<Rightarrow> 'w dma \<Rightarrow> 'w dma option" where
  "dma_enable_callback p type d = do {
     res \<leftarrow> deref (dma_resources d) p;
     let m = push_bit (callback_index type) 1;
     let d = set_resource p (res\<lparr>res_callback_enable := res_callback_enable res OR m\<rparr>) d;
     flag \<leftarrow> at (g_chan_interrupt_flag d) (res_channel_id res);
     Some (d\<lparr>g_chan_interrupt_flag := (g_chan_interrupt_flag d)[unat (res_channel_id res) := flag OR m]\<rparr>)
   }"

definition dma_disable_callback :: "'w dmac \<Rightarrow> addr \<Rightarrow> dma_callback_type \<Rightarrow> 'w dma \<Rightarrow> 'w dma option" where
  "dma_disable_callback D p type d = do {
     res \<leftarrow> deref (dma_resources d) p;
     let m = push_bit (callback_index type) 1;
     let d = set_resource p (res\<lparr>res_callback_enable := res_callback_enable res AND NOT m\<rparr>) d;
     flag \<leftarrow> at (g_chan_interrupt_flag d) (res_channel_id res);
     let d = d\<lparr>g_chan_interrupt_flag := (g_chan_interrupt_flag d)[unat (res_channel_id res) :=
       flag AND (NOT m AND DMAC_CHINTENSET_MASK D)]\<rparr>;
     Some (reg_put D CHINTENCLR (ucast m) d)
   }"

definition dma_register_callback :: "addr \<Rightarrow> addr \<Rightarrow> dma_callback_type \<Rightarrow> 'w dma \<Rightarrow> 'w dma option" where
  "dma_register_callback p callback type d = do {
     res \<leftarrow> deref (dma_resources d) p;
     Some (set_resource p (res\<lparr>res_callback := (res_callback res)[callback_index type := callback]\<rparr>) d)
   }"

definition dma_unregister_callback :: "addr \<Rightarrow> dma_callback_type \<Rightarrow> 'w dma \<Rightarrow> 'w dma option" where
  "dma_unregister_callback p type d = do {
     res \<leftarrow> deref (dma_resources d) p;
     Some (set_resource p (res\<lparr>res_callback := (res_callback res)[callback_index type := NULL]\<rparr>) d)
   }"

definition dma_trigger_transfer :: "'w dmac \<Rightarrow> addr \<Rightarrow> 'w dma \<Rightarrow> 'w dma option" where
  "dma_trigger_transfer D p d = do {
     res \<leftarrow> deref (dma_resources d) p;
     m \<leftarrow> channel_bit (res_channel_id res);
     Some (reg_or D SWTRIGCTRL m d)
   }"

definition dma_descriptor_get_config_defaults :: dma_descriptor_config where
  "dma_descriptor_get_config_defaults =
     \<lparr> dc_descriptor_valid = True, dc_event_output_selection = DMA_EVENT_OUTPUT_DISABLE,
       dc_block_action = DMA_BLOCK_ACTION_NOACT, dc_beat_size = DMA_BEAT_SIZE_BYTE,
       dc_src_increment_enable = True, dc_dst_increment_enable = True,
       dc_step_selection = DMA_STEPSEL_DST, dc_step_size = DMA_ADDRESS_INCREMENT_STEP_SIZE_1,
       dc_block_transfer_count = 0, dc_source_address = NULL, dc_destination_address = NULL,
       dc_next_descriptor_address = 0 \<rparr>"

definition dma_update_descriptor :: "addr \<Rightarrow> addr \<Rightarrow> 'w dma \<Rightarrow> 'w dma option" where
  "dma_update_descriptor p descriptor d = do {
     res \<leftarrow> deref (dma_resources d) p;
     Some (set_resource p (res\<lparr>res_descriptor := descriptor\<rparr>) d)
   }"

definition dma_reset_descriptor :: "addr \<Rightarrow> 'w dma \<Rightarrow> 'w dma option" where
  "dma_reset_descriptor p d = do {
     res \<leftarrow> deref (dma_resources d) p;
     Some (set_resource p (res\<lparr>res_descriptor := NULL\<rparr>) d)
   }"

section \<open>Channels\<close>

text \<open>The search: the passes left, the channel and the bitmap shifted to it.\<close>

fun find_free_loop :: "nat \<Rightarrow> u8 \<Rightarrow> u32 \<Rightarrow> u8 option" where
  "find_free_loop 0 count tmp = None"
| "find_free_loop (Suc n) count tmp =
     (if tmp AND 1 = 0 then Some count else find_free_loop n (count + 1) (drop_bit 1 tmp))"

definition dma_find_first_free_channel_and_allocate :: "'w dmac \<Rightarrow> 'w dma \<Rightarrow> u8 \<times> 'w dma" where
  "dma_find_first_free_channel_and_allocate D d =
     (let d = enter_critical D d in
      case find_free_loop CONF_MAX_USED_CHANNEL_NUM 0 (allocated_channels d) of
        None \<Rightarrow> (DMA_INVALID_CHANNEL, leave_critical D d)
      | Some count \<Rightarrow>
          (count, leave_critical D (d\<lparr>
             allocated_channels := allocated_channels d OR push_bit (unat count) 1,
             free_channels := free_channels d - 1\<rparr>)))"

definition dma_release_channel :: "u8 \<Rightarrow> 'w dma \<Rightarrow> 'w dma option" where
  "dma_release_channel channel d = do {
     m \<leftarrow> channel_bit channel;
     Some (d\<lparr>allocated_channels := allocated_channels d AND NOT m, free_channels := free_channels d + 1\<rparr>)
   }"

definition chctrlb_value :: "'w dmac \<Rightarrow> dma_resource_config \<Rightarrow> u32" where
  "chctrlb_value D config =
     (let v = DMAC_CHCTRLB_LVL D (rc_priority config)
            OR DMAC_CHCTRLB_TRIGSRC D (rc_peripheral_trigger config)
            OR DMAC_CHCTRLB_TRIGACT D (rc_trigger_action config);
          event = rc_event_config config;
          v = (if ec_input_action event \<noteq> DMA_EVENT_INPUT_NOACT
               then v OR (DMAC_CHCTRLB_EVIE D OR DMAC_CHCTRLB_EVACT D (ec_input_action event)) else v)
      in if ec_event_output_enable event then v OR DMAC_CHCTRLB_EVOE D else v)"

definition dma_set_config :: "'w dmac \<Rightarrow> addr \<Rightarrow> dma_resource_config \<Rightarrow> 'w dma \<Rightarrow> 'w dma option" where
  "dma_set_config D p config d = do {
     res \<leftarrow> deref (dma_resources d) p;
     m \<leftarrow> channel_bit (res_channel_id res);
     let d = reg_put D CHID (DMAC_CHID_ID D (res_channel_id res)) (enter_critical D d);
     let d = reg_and D SWTRIGCTRL (NOT m) d;
     let d = reg_put D CHCTRLB (chctrlb_value D config) d;
     Some (leave_critical D d)
   }"

definition dma_get_config_defaults :: dma_resource_config where
  "dma_get_config_defaults =
     \<lparr> rc_priority = DMA_PRIORITY_LEVEL_0, rc_peripheral_trigger = 0,
       rc_trigger_action = DMA_TRIGGER_ACTION_TRANSACTION,
       rc_event_config = \<lparr> ec_input_action = DMA_EVENT_INPUT_NOACT, ec_event_output_enable = False \<rparr> \<rparr>"

text \<open>The reset of the controller at the first allocation.\<close>

definition dma_controller_init :: "'w dmac \<Rightarrow> 'w dma \<Rightarrow> 'w dma" where
  "dma_controller_init D d =
     (if dma_init d then d
      else let d = world (system_clock_set_mask_DMAC D) d;
               d = reg_and D CTRL (NOT (DMAC_CTRL_DMAENABLE D)) d;
               d = reg_put D CTRL (DMAC_CTRL_SWRST D) d;
               d = reg_put D BASEADDR (descriptor_section_addr D) d;
               d = reg_put D WRBADDR (write_back_section_addr D) d;
               d = reg_put D CTRL (DMAC_CTRL_DMAENABLE D OR DMAC_CTRL_LVLEN D 0xf) d
           in d\<lparr>dma_init := True\<rparr>)"

definition dma_allocate ::
  "'w dmac \<Rightarrow> addr \<Rightarrow> dma_resource_config \<Rightarrow> 'w dma \<Rightarrow> (status_code, 'w) dma_result" where
  "dma_allocate D p config d = do {
     _ \<leftarrow> Assert (p \<noteq> NULL);
     let d = dma_controller_init D (enter_critical D d);
     let (new_channel, d) = dma_find_first_free_channel_and_allocate D d;
     if new_channel = DMA_INVALID_CHANNEL then Some (STATUS_ERR_NOT_FOUND, leave_critical D d)
     else do {
       res \<leftarrow> deref (dma_resources d) p;
       let d = set_resource p (res\<lparr>res_channel_id := new_channel\<rparr>) d;
       let d = reg_put D CHID (DMAC_CHID_ID D new_channel) d;
       let d = reg_and D CHCTRLA (NOT (DMAC_CHCTRLA_ENABLE D)) d;
       let d = reg_put D CHCTRLA (DMAC_CHCTRLA_SWRST D) d;
       d \<leftarrow> dma_set_config D p config d;
       res \<leftarrow> deref (dma_resources d) p;
       let d = set_resource p (res\<lparr>res_descriptor := NULL\<rparr>) d;
       _ \<leftarrow> at (dma_active_resource d) new_channel;
       let d = d\<lparr>dma_active_resource := (dma_active_resource d)[unat new_channel := p]\<rparr>;
       Some (STATUS_OK, leave_critical D d)
     }
   }"

definition dma_free :: "'w dmac \<Rightarrow> addr \<Rightarrow> 'w dma \<Rightarrow> (status_code, 'w) dma_result" where
  "dma_free D p d = do {
     res \<leftarrow> deref (dma_resources d) p;
     _ \<leftarrow> Assert (res_channel_id res \<noteq> DMA_INVALID_CHANNEL);
     let d = enter_critical D d;
     busy \<leftarrow> dma_is_busy p d;
     if busy then Some (STATUS_BUSY, leave_critical D d)
     else do {
       m \<leftarrow> channel_bit (res_channel_id res);
       if allocated_channels d AND m = 0 then Some (STATUS_ERR_NOT_INITIALIZED, leave_critical D d)
       else do {
         d \<leftarrow> dma_release_channel (res_channel_id res) d;
         _ \<leftarrow> at (dma_active_resource d) (res_channel_id res);
         let d = d\<lparr>dma_active_resource := (dma_active_resource d)[unat (res_channel_id res) := NULL]\<rparr>;
         Some (STATUS_OK, leave_critical D d)
       }
     }
   }"

section \<open>Jobs\<close>

definition dma_start_transfer_job :: "'w dmac \<Rightarrow> addr \<Rightarrow> 'w dma \<Rightarrow> (status_code, 'w) dma_result" where
  "dma_start_transfer_job D p d = do {
     res \<leftarrow> deref (dma_resources d) p;
     _ \<leftarrow> Assert (res_channel_id res \<noteq> DMA_INVALID_CHANNEL);
     let d = enter_critical D d;
     if res_job_status res = STATUS_BUSY then Some (STATUS_BUSY, leave_critical D d)
     else do {
       desc \<leftarrow> deref (dma_descriptors d) (res_descriptor res);
       if BTCNT desc = 0 then Some (STATUS_ERR_INVALID_ARG, leave_critical D d)
       else do {
         let d = world (system_interrupt_enable_DMA D) d;
         let d = reg_put D CHID (DMAC_CHID_ID D (res_channel_id res)) d;
         flag \<leftarrow> at (g_chan_interrupt_flag d) (res_channel_id res);
         let d = reg_put D CHINTENSET (ucast (DMAC_CHINTENSET_MASK D AND flag)) d;
         let d = set_resource p (res\<lparr>res_job_status := STATUS_BUSY\<rparr>) d;
         _ \<leftarrow> at (descriptor_section d) (res_channel_id res);
         let d = d\<lparr>descriptor_section := (descriptor_section d)[unat (res_channel_id res) := desc]\<rparr>;
         let d = reg_or D CHCTRLA (DMAC_CHCTRLA_ENABLE D) d;
         Some (STATUS_OK, leave_critical D d)
       }
     }
   }"

text \<open>\<^verbatim>\<open>total_size - write_size\<close>, from the descriptor in use and the one written back.\<close>

definition transfered :: "'w dmac \<Rightarrow> u8 \<Rightarrow> 'w dma \<Rightarrow> u32 option" where
  "transfered D channel d = do {
     desc \<leftarrow> at (descriptor_section d) channel;
     Some (ucast (BTCNT desc) - ucast (dmac_write_back_BTCNT D (dma_world d) (unat channel)))
   }"

definition dma_abort_job :: "'w dmac \<Rightarrow> addr \<Rightarrow> 'w dma \<Rightarrow> 'w dma option" where
  "dma_abort_job D p d = do {
     res \<leftarrow> deref (dma_resources d) p;
     _ \<leftarrow> Assert (res_channel_id res \<noteq> DMA_INVALID_CHANNEL);
     let d = reg_put D CHID (DMAC_CHID_ID D (res_channel_id res)) (enter_critical D d);
     let d = leave_critical D (reg_put D CHCTRLA 0 d);
     size \<leftarrow> transfered D (res_channel_id res) d;
     Some (set_resource p (res\<lparr>res_transfered_size := size, res_job_status := STATUS_ABORTED\<rparr>) d)
   }"

definition dma_suspend_job :: "'w dmac \<Rightarrow> addr \<Rightarrow> 'w dma \<Rightarrow> 'w dma option" where
  "dma_suspend_job D p d = do {
     res \<leftarrow> deref (dma_resources d) p;
     _ \<leftarrow> Assert (res_channel_id res \<noteq> DMA_INVALID_CHANNEL);
     let d = reg_put D CHID (DMAC_CHID_ID D (res_channel_id res)) (enter_critical D d);
     Some (leave_critical D (reg_or D CHCTRLB (DMAC_CHCTRLB_CMD_SUSPEND D) d))
   }"

text \<open>The request to resume.\<close>

definition resume_request :: "'w dmac \<Rightarrow> u8 \<Rightarrow> 'w dma \<Rightarrow> 'w dma" where
  "resume_request D channel d =
     (let d = reg_put D CHID (DMAC_CHID_ID D channel) (enter_critical D d)
      in leave_critical D (reg_or D CHCTRLB (DMAC_CHCTRLB_CMD_RESUME D) d))"

text \<open>Polling whether the channel is busy again: the result says whether it was seen before the
  count ran out.\<close>

fun resume_loop :: "'w dmac \<Rightarrow> u32 \<Rightarrow> nat \<Rightarrow> 'w dma \<Rightarrow> bool \<times> 'w dma" where
  "resume_loop D bitmap_channel 0 d = (False, d)"
| "resume_loop D bitmap_channel (Suc n) d =
     (let (v, d) = reg_get D BUSYCH d
      in if v AND bitmap_channel = bitmap_channel then (True, d) else resume_loop D bitmap_channel n d)"

definition dma_resume_job :: "'w dmac \<Rightarrow> addr \<Rightarrow> 'w dma \<Rightarrow> 'w dma option" where
  "dma_resume_job D p d = do {
     res \<leftarrow> deref (dma_resources d) p;
     _ \<leftarrow> Assert (res_channel_id res \<noteq> DMA_INVALID_CHANNEL);
     bitmap_channel \<leftarrow> channel_bit (res_channel_id res);
     if res_job_status res \<noteq> STATUS_SUSPEND then Some d
     else do {
       let (resumed, d) = resume_loop D bitmap_channel MAX_JOB_RESUME_COUNT
         (resume_request D (res_channel_id res) d);
       Some (set_resource p
         (res\<lparr>res_job_status := if resumed then STATUS_BUSY else STATUS_ERR_TIMEOUT\<rparr>) d)
     }
   }"

section \<open>Descriptors\<close>

text \<open>Every field of the descriptor is set.\<close>

definition descriptor_of_config :: "dma_descriptor_config \<Rightarrow> DmacDescriptor" where
  "descriptor_of_config config =
     \<lparr> BTCTRL_VALID = dc_descriptor_valid config, BTCTRL_EVOSEL = dc_event_output_selection config,
       BTCTRL_BLOCKACT = dc_block_action config, BTCTRL_BEATSIZE = dc_beat_size config,
       BTCTRL_SRCINC = dc_src_increment_enable config, BTCTRL_DSTINC = dc_dst_increment_enable config,
       BTCTRL_STEPSEL = dc_step_selection config, BTCTRL_STEPSIZE = dc_step_size config,
       BTCNT = dc_block_transfer_count config, SRCADDR = dc_source_address config,
       DSTADDR = dc_destination_address config, DESCADDR = dc_next_descriptor_address config \<rparr>"

definition dma_descriptor_create :: "addr \<Rightarrow> dma_descriptor_config \<Rightarrow> 'w dma \<Rightarrow> 'w dma option" where
  "dma_descriptor_create p config d = do {
     _ \<leftarrow> deref (dma_descriptors d) p;
     Some (set_descriptor p (descriptor_of_config config) d)
   }"

text \<open>\<^verbatim>\<open>while (desc->DESCADDR.reg != 0)\<close>: on a circular list it does not end.\<close>

partial_function (option) last_descriptor :: "(addr \<rightharpoonup> DmacDescriptor) \<Rightarrow> addr \<Rightarrow> addr option" where
  "last_descriptor heap desc = do {
     node \<leftarrow> deref heap desc;
     if DESCADDR node \<noteq> 0 then last_descriptor heap (DESCADDR node) else Some desc
   }"

definition dma_add_descriptor :: "addr \<Rightarrow> addr \<Rightarrow> 'w dma \<Rightarrow> (status_code, 'w) dma_result" where
  "dma_add_descriptor p descriptor d = do {
     res \<leftarrow> deref (dma_resources d) p;
     if res_job_status res = STATUS_BUSY then Some (STATUS_BUSY, d)
     else if res_descriptor res = NULL
     then Some (STATUS_OK, set_resource p (res\<lparr>res_descriptor := descriptor\<rparr>) d)
     else do {
       desc \<leftarrow> last_descriptor (dma_descriptors d) (res_descriptor res);
       node \<leftarrow> deref (dma_descriptors d) desc;
       Some (STATUS_OK, set_descriptor desc (node\<lparr>DESCADDR := descriptor\<rparr>) d)
     }
   }"

section \<open>The interrupt\<close>

text \<open>Running a callback if it is enabled and registered; \<open>call\<close> is what the code at an address
  does with the resource.\<close>

definition run_callback ::
  "(addr \<Rightarrow> addr \<Rightarrow> 'w dma \<Rightarrow> 'w dma option) \<Rightarrow> dma_callback_type \<Rightarrow> addr \<Rightarrow> 'w dma \<Rightarrow> 'w dma option" where
  "run_callback call type p d = do {
     res \<leftarrow> deref (dma_resources d) p;
     f \<leftarrow> at (res_callback res) (of_nat (callback_index type));
     if res_callback_enable res AND push_bit (callback_index type) 1 \<noteq> 0 \<and> f \<noteq> NULL then call f p d
     else Some d
   }"

text \<open>Acknowledging a flag, setting the status and running the callback of the event.\<close>

definition handle_event ::
  "'w dmac \<Rightarrow> (addr \<Rightarrow> addr \<Rightarrow> 'w dma \<Rightarrow> 'w dma option) \<Rightarrow> addr \<Rightarrow> u8 \<Rightarrow> status_code \<Rightarrow> dma_callback_type
     \<Rightarrow> 'w dma \<Rightarrow> 'w dma option" where
  "handle_event D call p flag status type d = do {
     let d = reg_put D CHINTFLAG (ucast flag) d;
     res \<leftarrow> deref (dma_resources d) p;
     run_callback call type p (set_resource p (res\<lparr>res_job_status := status\<rparr>) d)
   }"

text \<open>The first of the three flags that is set, in the order error, completion, suspension.\<close>

definition handle_flags ::
  "'w dmac \<Rightarrow> (addr \<Rightarrow> addr \<Rightarrow> 'w dma \<Rightarrow> 'w dma option) \<Rightarrow> u8 \<Rightarrow> addr \<Rightarrow> 'w dma \<Rightarrow> 'w dma option" where
  "handle_flags D call isr p d =
     (if isr AND DMAC_CHINTENCLR_TERR D \<noteq> 0
      then handle_event D call p (DMAC_CHINTENCLR_TERR D) STATUS_ERR_IO DMA_CALLBACK_TRANSFER_ERROR d
      else if isr AND DMAC_CHINTENCLR_TCMPL D \<noteq> 0
      then handle_event D call p (DMAC_CHINTENCLR_TCMPL D) STATUS_OK DMA_CALLBACK_TRANSFER_DONE d
      else if isr AND DMAC_CHINTENCLR_SUSP D \<noteq> 0
      then handle_event D call p (DMAC_CHINTENCLR_SUSP D) STATUS_SUSPEND DMA_CALLBACK_CHANNEL_SUSPEND d
      else Some d)"

text \<open>\<open>pending_channel\<close> is the number of the channel \<^verbatim>\<open>INTPEND\<close> names.\<close>

definition pending_channel :: "'w dmac \<Rightarrow> u32 \<Rightarrow> u8" where
  "pending_channel D intpend = ucast (intpend AND DMAC_INTPEND_ID_Msk D)"

text \<open>Selecting the channel and reading its flags.\<close>

definition select_flags :: "'w dmac \<Rightarrow> u8 \<Rightarrow> 'w dma \<Rightarrow> u32 \<times> 'w dma" where
  "select_flags D channel d = reg_get D CHINTFLAG (reg_put D CHID (DMAC_CHID_ID D channel) d)"

definition DMAC_Handler ::
  "'w dmac \<Rightarrow> (addr \<Rightarrow> addr \<Rightarrow> 'w dma \<Rightarrow> 'w dma option) \<Rightarrow> 'w dma \<Rightarrow> 'w dma option" where
  "DMAC_Handler D call d = do {
     let (intpend, d) = reg_get D INTPEND (enter_critical D d);
     p \<leftarrow> at (dma_active_resource d) (pending_channel D intpend);
     res \<leftarrow> deref (dma_resources d) p;
     let (isr, d) = select_flags D (res_channel_id res) d;
     size \<leftarrow> transfered D (res_channel_id res) d;
     d \<leftarrow> handle_flags D call (ucast isr) p (set_resource p (res\<lparr>res_transfered_size := size\<rparr>) d);
     Some (leave_critical D d)
   }"

end
