(* ===== verification/Dma_Props.thy ===== *)
theory Dma_Props
  imports Dma
begin

text \<open>
  What the DMA driver keeps and what its operations do: the invariant of the channel tables under
  every operation and interrupt, the allocation of channels, the job states, the linked list of
  descriptors, and the pairing of critical sections.
\<close>

section \<open>Vocabulary\<close>

lemmas world_defs = world_def enter_critical_def leave_critical_def reg_put_def reg_get_def
  reg_and_def reg_or_def Let_def case_prod_beta

lemmas heap_defs = set_resource_def set_descriptor_def deref_def

lemma bind_Some_iff: "(do { x \<leftarrow> m; f x }) = Some y \<longleftrightarrow> (\<exists>x. m = Some x \<and> f x = Some y)"
  by (cases m) simp_all

lemma deref_Some [simp]: "deref heap p = Some x \<longleftrightarrow> p \<noteq> NULL \<and> heap p = Some x"
  by (simp add: deref_def)

lemma at_Some [simp]: "at xs i = Some x \<longleftrightarrow> unat i < length xs \<and> x = xs ! unat i"
  by (auto simp: at_def)

lemma Assert_Some [simp]: "Assert b = Some u \<longleftrightarrow> b"
  by (simp add: Assert_def)

lemma channel_bit_Some: "channel_bit c = Some m \<longleftrightarrow> unat c < 31 \<and> m = push_bit (unat c) 1"
  by (auto simp: channel_bit_def)

text \<open>The channels in use.\<close>

definition used :: "'w dma \<Rightarrow> nat set" where
  "used d = {c. c < CONF_MAX_USED_CHANNEL_NUM \<and> bit (allocated_channels d) c}"

lemma finite_used [simp]: "finite (used d)"
  by (rule finite_subset [of _ "{..<5}"]) (auto simp: used_def)

lemma card_used: "card (used d) \<le> 5"
  using card_mono [of "{..<5::nat}" "used d"] by (force simp: used_def)

section \<open>The invariant\<close>

text \<open>The arrays have their sizes, no bit beyond the channels is set, the count of free channels
  agrees with the bitmap, a channel is in use exactly when a resource is logged for it, and that
  resource is the one that carries the channel's number.\<close>

definition dma_tables :: "'w dma \<Rightarrow> bool" where
  "dma_tables d \<longleftrightarrow> length (descriptor_section d) = 5 \<and> length (dma_active_resource d) = 5
     \<and> length (g_chan_interrupt_flag d) = 5 \<and> unat (allocated_channels d) < 2 ^ 5
     \<and> unat (free_channels d) + card (used d) = 5
     \<and> (\<forall>c < 5. bit (allocated_channels d) c \<longleftrightarrow> dma_active_resource d ! c \<noteq> NULL)"

definition dma_owners :: "'w dma \<Rightarrow> bool" where
  "dma_owners d \<longleftrightarrow>
     (\<forall>c < 5. dma_active_resource d ! c \<noteq> NULL \<longrightarrow>
        (\<exists>res. dma_resources d (dma_active_resource d ! c) = Some res \<and> res_channel_id res = of_nat c))
     \<and> (\<forall>p res. dma_resources d p = Some res \<longrightarrow> length (res_callback res) = 3)"

definition dma_inv :: "'w dma \<Rightarrow> bool" where
  "dma_inv d \<longleftrightarrow> dma_tables d \<and> dma_owners d"

lemma dma_inv_world [simp]: "dma_inv (d\<lparr>dma_world := w\<rparr>) = dma_inv d"
  by (simp add: dma_inv_def dma_tables_def dma_owners_def used_def)

lemma dma_inv_init [simp]: "dma_inv (d\<lparr>dma_init := b\<rparr>) = dma_inv d"
  by (simp add: dma_inv_def dma_tables_def dma_owners_def used_def)

lemma dma_inv_descriptors [simp]: "dma_inv (d\<lparr>dma_descriptors := h\<rparr>) = dma_inv d"
  by (simp add: dma_inv_def dma_tables_def dma_owners_def used_def)

lemma dma_inv_flags [simp]: "dma_inv (d\<lparr>g_chan_interrupt_flag := (g_chan_interrupt_flag d)[i := f]\<rparr>) = dma_inv d"
  by (simp add: dma_inv_def dma_tables_def dma_owners_def used_def)

lemma dma_inv_section [simp]: "dma_inv (d\<lparr>descriptor_section := (descriptor_section d)[i := f]\<rparr>) = dma_inv d"
  by (simp add: dma_inv_def dma_tables_def dma_owners_def used_def)

text \<open>The primitive steps of the operations.\<close>

lemma dma_inv_helpers [simp]:
  "dma_inv (world f d) = dma_inv d" "dma_inv (enter_critical D d) = dma_inv d"
  "dma_inv (leave_critical D d) = dma_inv d" "dma_inv (reg_put D r v d) = dma_inv d"
  "dma_inv (snd (reg_get D r d)) = dma_inv d" "dma_inv (reg_and D r v d) = dma_inv d"
  "dma_inv (reg_or D r v d) = dma_inv d" "dma_inv (set_descriptor p desc d) = dma_inv d"
  by (simp_all add: world_defs heap_defs)

lemma fields_helpers [simp]:
  "dma_resources (world f d) = dma_resources d" "dma_active_resource (world f d) = dma_active_resource d"
  "allocated_channels (world f d) = allocated_channels d" "free_channels (world f d) = free_channels d"
  "descriptor_section (world f d) = descriptor_section d" "dma_descriptors (world f d) = dma_descriptors d"
  "g_chan_interrupt_flag (world f d) = g_chan_interrupt_flag d" "dma_init (world f d) = dma_init d"
  by (simp_all add: world_def)

lemma reg_world: "enter_critical D d = world (system_interrupt_enter_critical_section D) d"
  "leave_critical D d = world (system_interrupt_leave_critical_section D) d"
  "reg_put D r v d = world (dmac_write D r v) d"
  "snd (reg_get D r d) = world (\<lambda>w. snd (dmac_read D r w)) d"
  "reg_and D r m d = world (\<lambda>w. let (v, w) = dmac_read D r w in dmac_write D r (v AND m) w) d"
  "reg_or D r m d = world (\<lambda>w. let (v, w) = dmac_read D r w in dmac_write D r (v OR m) w) d"
  by (simp_all add: world_defs)

lemma dma_inv_set_resource:
  assumes "dma_inv d" "dma_resources d p = Some res" "res_channel_id res' = res_channel_id res"
    "length (res_callback res') = length (res_callback res)"
  shows "dma_inv (set_resource p res' d)"
  using assms by (auto simp: dma_inv_def dma_tables_def dma_owners_def used_def set_resource_def)

lemma unat_of_nat_u8: "i < 256 \<Longrightarrow> unat (of_nat i :: u8) = i"
  by (simp add: unat_of_nat)

lemma channel_u8: "j < 5 \<Longrightarrow> unat (of_nat j :: u8) = j" "j < 5 \<Longrightarrow> (of_nat j :: u8) \<noteq> 255"
  by (auto simp: unat_of_nat_u8 word_unat_eq_iff)

section \<open>Finding and releasing a channel\<close>

lemma and_one_bit: "drop_bit k (a :: u32) AND 1 = 0 \<longleftrightarrow> \<not> bit a k"
  by (simp add: and_one_eq bit_iff_odd_drop_bit odd_iff_mod_2_eq_one)

lemma find_free_loop_Some:
  assumes "find_free_loop n (of_nat k) (drop_bit k a) = Some c" "k + n \<le> 256"
  shows "\<exists>j. c = of_nat j \<and> k \<le> j \<and> j < k + n \<and> \<not> bit a j \<and> (\<forall>i. k \<le> i \<and> i < j \<longrightarrow> bit a i)"
  using assms
proof (induction n arbitrary: k)
  case (Suc n)
  show ?case
  proof (cases "bit a k")
    case True
    then have "find_free_loop n (of_nat (Suc k)) (drop_bit (Suc k) a) = Some c"
      using Suc.prems(1) by (simp add: and_one_bit add.commute)
    from Suc.IH [OF this] Suc.prems(2) obtain j where
      "c = of_nat j \<and> Suc k \<le> j \<and> j < Suc k + n \<and> \<not> bit a j \<and> (\<forall>i. Suc k \<le> i \<and> i < j \<longrightarrow> bit a i)"
      by auto
    then show ?thesis using True by (metis Suc_leD Suc_leI add_Suc_shift nat_less_le)
  next
    case False
    then show ?thesis using Suc.prems(1) by (auto simp: and_one_bit)
  qed
qed simp

lemma find_free_loop_None:
  assumes "find_free_loop n c (drop_bit k a) = None"
  shows "\<forall>i. k \<le> i \<and> i < k + n \<longrightarrow> bit a i"
  using assms
proof (induction n arbitrary: k c)
  case (Suc n)
  then have "bit a k" by (auto simp: and_one_bit split: if_splits)
  then have "find_free_loop n (c + 1) (drop_bit (Suc k) a) = None"
    using Suc.prems by (simp add: and_one_bit add.commute)
  with Suc.IH \<open>bit a k\<close> show ?case by (metis Suc_leI add_Suc_shift nat_less_le)
qed auto

text \<open>The lowest channel not in use.\<close>

definition first_free :: "'w dma \<Rightarrow> nat \<Rightarrow> bool" where
  "first_free d j \<longleftrightarrow> j < 5 \<and> j \<notin> used d \<and> (\<forall>i < j. i \<in> used d)"

lemma search_result:
  "(\<exists>j. find_free_loop 5 0 (allocated_channels d) = Some (of_nat j) \<and> first_free d j)
   \<or> (find_free_loop 5 0 (allocated_channels d) = None \<and> used d = {..<5})"
proof (cases "find_free_loop 5 0 (allocated_channels d)")
  case None
  then show ?thesis
    using find_free_loop_None [of 5 0 0 "allocated_channels d"] by (auto simp: used_def)
next
  case (Some c)
  then show ?thesis
    using find_free_loop_Some [of 5 0 "allocated_channels d" c]
    by (auto simp: used_def first_free_def)
qed

lemma first_free_search:
  assumes "first_free d j"
  shows "find_free_loop 5 0 (allocated_channels d) = Some (of_nat j)"
proof -
  have "j < 5" "j \<notin> used d" "\<forall>i < j. i \<in> used d" using assms by (simp_all add: first_free_def)
  then show ?thesis
    using search_result [of d] unfolding first_free_def by (metis lessThan_iff linorder_neqE_nat)
qed

lemma bit_or_channel: "j < 32 \<Longrightarrow> bit (a OR 2 ^ j :: u32) i \<longleftrightarrow> bit a i \<or> i = j"
  by (auto simp: bit_simps)

lemma bit_and_not_channel: "j < 32 \<Longrightarrow> bit (a AND NOT (2 ^ j) :: u32) i \<longleftrightarrow> bit a i \<and> i \<noteq> j"
  by (auto simp: bit_simps dest: bit_imp_le_length)

lemma below_32_iff: "unat (a :: u32) < 2 ^ 5 \<longleftrightarrow> (\<forall>i \<ge> 5. \<not> bit a i)"
proof
  assume "unat a < 2 ^ 5"
  then have "take_bit 5 a = a"
    by (simp add: word_unat_eq_iff unsigned_take_bit_eq take_bit_nat_eq_self)
  then show "\<forall>i \<ge> 5. \<not> bit a i" by (metis bit_take_bit_iff not_less)
next
  assume "\<forall>i \<ge> 5. \<not> bit a i"
  then have "take_bit 5 a = a" by (intro bit_eqI) (metis bit_take_bit_iff not_less)
  then show "unat a < 2 ^ 5"
    by (metis unsigned_take_bit_eq take_bit_nat_less_exp)
qed

definition take_channel :: "nat \<Rightarrow> addr \<Rightarrow> dma_resource \<Rightarrow> 'w dma \<Rightarrow> 'w dma" where
  "take_channel j p res d = d\<lparr>allocated_channels := allocated_channels d OR 2 ^ j,
     free_channels := free_channels d - 1, dma_resources := (dma_resources d)(p \<mapsto> res),
     dma_active_resource := (dma_active_resource d)[j := p]\<rparr>"

definition give_channel :: "nat \<Rightarrow> 'w dma \<Rightarrow> 'w dma" where
  "give_channel j d = d\<lparr>allocated_channels := allocated_channels d AND NOT (2 ^ j),
     free_channels := free_channels d + 1, dma_active_resource := (dma_active_resource d)[j := NULL]\<rparr>"

lemma used_take: "j < 5 \<Longrightarrow> used (take_channel j p res d) = insert j (used d)"
  by (auto simp: used_def bit_or_channel take_channel_def)

lemma used_give: "j < 5 \<Longrightarrow> used (give_channel j d) = used d - {j}"
  by (auto simp: used_def bit_and_not_channel give_channel_def)

lemma dma_inv_take:
  assumes inv: "dma_inv d" and j: "first_free d j" and p: "p \<noteq> NULL" "p \<notin> set (dma_active_resource d)"
    and res: "res_channel_id res = of_nat j" "length (res_callback res) = 3"
  shows "dma_inv (take_channel j p res d)"
proof -
  let ?d = "take_channel j p res d"
  have j5: "j < 5" "j \<notin> used d" using j by (simp_all add: first_free_def)
  have l: "length (dma_active_resource d) = 5" using inv by (simp add: dma_inv_def dma_tables_def)
  have c: "card (used ?d) = card (used d) + 1" using j5 by (simp add: used_take)
  have n: "unat (free_channels d) + card (used d) = 5" using inv by (simp add: dma_inv_def dma_tables_def)
  moreover have "card (used ?d) \<le> 5" by (rule card_used)
  ultimately have "0 < unat (free_channels d)" using c by simp
  then have "unat (free_channels d - 1) = unat (free_channels d) - 1"
    by (metis unat_1 unat_sub word_le_nat_alt Suc_leI One_nat_def)
  then have "unat (free_channels ?d) + card (used ?d) = 5"
    using n c \<open>0 < unat (free_channels d)\<close> by (simp add: take_channel_def)
  moreover have "unat (allocated_channels ?d) < 2 ^ 5"
    using inv j5(1) unfolding dma_inv_def dma_tables_def below_32_iff
    by (simp add: take_channel_def bit_or_channel)
  ultimately have "dma_tables ?d"
    using inv j5(1) l p(1)
    by (auto simp: dma_inv_def dma_tables_def take_channel_def bit_or_channel nth_list_update)
  moreover have "dma_owners ?d"
    using inv p(2) l res j5(1)
    by (auto simp: dma_inv_def dma_owners_def take_channel_def nth_list_update split: if_splits)
  ultimately show ?thesis by (simp add: dma_inv_def)
qed

lemma dma_inv_give:
  assumes inv: "dma_inv d" and j: "j \<in> used d"
  shows "dma_inv (give_channel j d)"
proof -
  let ?d = "give_channel j d"
  have j5: "j < 5" using j by (simp add: used_def)
  have n: "unat (free_channels d) + card (used d) = 5" using inv by (simp add: dma_inv_def dma_tables_def)
  have c: "card (used ?d) = card (used d) - 1" "0 < card (used d)"
    using j j5 by (auto simp: used_give card_gt_0_iff)
  then have "unat (free_channels d + 1) = unat (free_channels d) + 1"
    using n by (simp add: unat_word_ariths)
  then have "unat (free_channels ?d) + card (used ?d) = 5" using n c by (simp add: give_channel_def)
  moreover have "unat (allocated_channels ?d) < 2 ^ 5"
    using inv j5 unfolding dma_inv_def dma_tables_def below_32_iff
    by (simp add: give_channel_def bit_and_not_channel)
  ultimately have "dma_tables ?d"
    using inv j5
    by (auto simp: dma_inv_def dma_tables_def give_channel_def bit_and_not_channel nth_list_update)
  moreover have "dma_owners ?d"
    using inv j5
    by (auto simp: dma_inv_def dma_tables_def dma_owners_def give_channel_def nth_list_update split: if_splits)
  ultimately show ?thesis by (simp add: dma_inv_def)
qed

section \<open>Allocating and freeing\<close>

definition fresh_resource :: "nat \<Rightarrow> dma_resource \<Rightarrow> dma_resource" where
  "fresh_resource j res = res\<lparr>res_channel_id := of_nat j, res_descriptor := NULL\<rparr>"

text \<open>Two states that differ in the world alone.\<close>

definition agree :: "'w dma \<Rightarrow> 'w dma \<Rightarrow> bool" where
  "agree d d' \<longleftrightarrow> dma_init d' = dma_init d \<and> allocated_channels d' = allocated_channels d
     \<and> free_channels d' = free_channels d \<and> descriptor_section d' = descriptor_section d
     \<and> dma_active_resource d' = dma_active_resource d
     \<and> g_chan_interrupt_flag d' = g_chan_interrupt_flag d
     \<and> dma_resources d' = dma_resources d \<and> dma_descriptors d' = dma_descriptors d"

lemma agree_inv: "agree d d' \<Longrightarrow> dma_inv d' = dma_inv d"
  by (simp add: agree_def dma_inv_def dma_tables_def dma_owners_def used_def)

lemma agree_used: "agree d d' \<Longrightarrow> used d' = used d"
  by (simp add: agree_def used_def)

lemma agree_world [simp]: "agree d (world f d') = agree d d'"
  by (simp add: agree_def)

lemma agree_refl [simp]: "agree d d"
  by (simp add: agree_def)

lemma controller_init_fields [simp]:
  "allocated_channels (dma_controller_init D d) = allocated_channels d"
  "free_channels (dma_controller_init D d) = free_channels d"
  "descriptor_section (dma_controller_init D d) = descriptor_section d"
  "dma_active_resource (dma_controller_init D d) = dma_active_resource d"
  "g_chan_interrupt_flag (dma_controller_init D d) = g_chan_interrupt_flag d"
  "dma_resources (dma_controller_init D d) = dma_resources d"
  "dma_descriptors (dma_controller_init D d) = dma_descriptors d"
  "dma_init (dma_controller_init D d)"
  by (simp_all add: dma_controller_init_def reg_world Let_def)

lemma allocate_free_channel:
  assumes "first_free d j" "p \<noteq> NULL" "dma_resources d p = Some res" "length (dma_active_resource d) = 5"
  shows "\<exists>d'. dma_allocate D p config d = Some (STATUS_OK, d')
    \<and> agree ((take_channel j p (fresh_resource j res) d)\<lparr>dma_init := True\<rparr>) d'"
proof -
  have j: "j < 5" using assms(1) by (simp add: first_free_def)
  show ?thesis
    using assms(2-4) j channel_u8 [OF j]
    by (simp add: dma_allocate_def dma_find_first_free_channel_and_allocate_def first_free_search [OF assms(1)] Assert_def reg_world
        dma_set_config_def deref_def set_resource_def channel_bit_def at_def take_channel_def
        fresh_resource_def agree_def Let_def)
qed

lemma allocate_no_channel:
  assumes "used d = {..<5}" "p \<noteq> NULL"
  shows "\<exists>d'. dma_allocate D p config d = Some (STATUS_ERR_NOT_FOUND, d') \<and> agree (d\<lparr>dma_init := True\<rparr>) d'"
proof -
  have "find_free_loop 5 0 (allocated_channels d) = None"
    using search_result [of d] assms(1) by (auto simp: first_free_def)
  then show ?thesis
    using assms(2)
    by (simp add: dma_allocate_def dma_find_first_free_channel_and_allocate_def Assert_def reg_world
        agree_def Let_def)
qed

lemma owner:
  assumes "dma_inv d" "p \<in> set (dma_active_resource d)" "p \<noteq> NULL"
  shows "\<exists>j res. j \<in> used d \<and> dma_active_resource d ! j = p \<and> dma_resources d p = Some res
    \<and> res_channel_id res = of_nat j"
proof -
  obtain j where "j < 5" "dma_active_resource d ! j = p"
    using assms(1,2) by (auto simp: in_set_conv_nth dma_inv_def dma_tables_def)
  then show ?thesis
    using assms(1,3) unfolding dma_inv_def dma_tables_def dma_owners_def used_def by blast
qed

lemma free_busy:
  assumes "p \<noteq> NULL" "dma_resources d p = Some res" "res_channel_id res \<noteq> 255" "res_job_status res = STATUS_BUSY"
  shows "\<exists>d'. dma_free D p d = Some (STATUS_BUSY, d') \<and> agree d d'"
  using assms by (simp add: dma_free_def dma_is_busy_def Assert_def reg_world Let_def deref_def)

lemma free_unused:
  assumes "p \<noteq> NULL" "dma_resources d p = Some res" "res_job_status res \<noteq> STATUS_BUSY"
    and "res_channel_id res = of_nat j" "j < 5" "j \<notin> used d"
  shows "\<exists>d'. dma_free D p d = Some (STATUS_ERR_NOT_INITIALIZED, d') \<and> agree d d'"
proof -
  note u = channel_u8 [OF assms(5)]
  have "allocated_channels d AND 2 ^ j = 0"
    using assms(5,6) by (intro bit_eqI) (auto simp: bit_simps used_def)
  then show ?thesis
    using assms u
    by (simp add: dma_free_def dma_is_busy_def Assert_def reg_world channel_bit_def Let_def deref_def)
qed

lemma free_used:
  assumes "p \<noteq> NULL" "dma_resources d p = Some res" "res_job_status res \<noteq> STATUS_BUSY"
    and "res_channel_id res = of_nat j" "j \<in> used d" "length (dma_active_resource d) = 5"
  shows "\<exists>d'. dma_free D p d = Some (STATUS_OK, d') \<and> agree (give_channel j d) d'"
proof -
  have j: "j < 5" using assms(5) by (simp add: used_def)
  note u = channel_u8 [OF j]
  have "bit (allocated_channels d AND 2 ^ j) j" using assms(5) by (auto simp: bit_simps used_def)
  then have "allocated_channels d AND 2 ^ j \<noteq> 0" by auto
  then show ?thesis
    using assms u j
    by (simp add: dma_free_def dma_is_busy_def dma_release_channel_def Assert_def reg_world at_def
        channel_bit_def Let_def give_channel_def agree_def deref_def)
qed

section \<open>Every operation keeps the invariant\<close>

lemma allocate_inv:
  assumes "dma_inv d" "p \<notin> set (dma_active_resource d)" "dma_allocate D p config d = Some (st, d')"
  shows "dma_inv d'"
proof -
  have p: "p \<noteq> NULL" using assms(3) by (auto simp: dma_allocate_def Assert_def)
  have l: "length (dma_active_resource d) = 5" using assms(1) by (simp add: dma_inv_def dma_tables_def)
  consider j where "first_free d j" | "used d = {..<5}" using search_result [of d] by blast
  then show ?thesis
  proof cases
    case (1 j)
    then obtain res where r: "dma_resources d p = Some res"
      using assms(3) first_free_search [OF 1] p channel_u8(2) [of j]
      by (auto simp: dma_allocate_def dma_find_first_free_channel_and_allocate_def first_free_def
          bind_eq_Some_conv reg_world set_resource_def Let_def split: if_splits)
    have "length (res_callback res) = 3" using assms(1) r by (auto simp: dma_inv_def dma_owners_def)
    then have "dma_inv (take_channel j p (fresh_resource j res) d)"
      using dma_inv_take [OF assms(1) 1 p assms(2)] by (simp add: fresh_resource_def)
    moreover from allocate_free_channel [OF 1 p r l, of D config]
    have "agree ((take_channel j p (fresh_resource j res) d)\<lparr>dma_init := True\<rparr>) d'"
      using assms(3) by auto
    ultimately show ?thesis using agree_inv by fastforce
  next
    case 2
    from allocate_no_channel [OF 2 p, of D config] have "agree (d\<lparr>dma_init := True\<rparr>) d'"
      using assms(3) by auto
    then show ?thesis using agree_inv assms(1) by fastforce
  qed
qed

lemma free_inv:
  assumes "dma_inv d" "p \<in> set (dma_active_resource d)" "dma_free D p d = Some (st, d')"
  shows "dma_inv d'"
proof -
  have p: "p \<noteq> NULL" using assms(3) by (auto simp: dma_free_def deref_def)
  have l: "length (dma_active_resource d) = 5" using assms(1) by (simp add: dma_inv_def dma_tables_def)
  obtain j res where o: "j \<in> used d" "dma_resources d p = Some res" "res_channel_id res = of_nat j"
    using owner [OF assms(1,2) p] by blast
  have j: "(of_nat j :: u8) \<noteq> 255" using o(1) by (simp add: used_def channel_u8)
  show ?thesis
  proof (cases "res_job_status res = STATUS_BUSY")
    case True
    from free_busy [OF p o(2) _ True, of D] j o(3) assms(3) have "agree d d'" by auto
    then show ?thesis using agree_inv assms(1) by blast
  next
    case False
    from free_used [OF p o(2) False o(3,1) l, of D] assms(3) have "agree (give_channel j d) d'" by auto
    then show ?thesis using agree_inv dma_inv_give [OF assms(1) o(1)] by blast
  qed
qed

lemma start_inv:
  assumes "dma_inv d" "dma_start_transfer_job D p d = Some (st, d')"
  shows "dma_inv d'"
  using assms
  by (auto simp: dma_start_transfer_job_def bind_eq_Some_conv reg_world Let_def split: if_splits
      intro!: dma_inv_set_resource)

lemma job_inv:
  assumes "dma_inv d"
  shows "dma_abort_job D p d = Some d' \<Longrightarrow> dma_inv d'" "dma_suspend_job D p d = Some d' \<Longrightarrow> dma_inv d'"
  using assms
  by (auto simp: dma_abort_job_def dma_suspend_job_def bind_eq_Some_conv reg_world Let_def
      intro!: dma_inv_set_resource)

lemma resume_loop_world: "\<exists>f. snd (resume_loop D b n d) = world f d"
proof (induction n arbitrary: d)
  case 0
  have "d = world id d" by (simp add: world_def)
  then show ?case by auto
next
  case (Suc n)
  obtain v d1 where g: "reg_get D BUSYCH d = (v, d1)" by fastforce
  then obtain f1 where d1: "d1 = world f1 d" using reg_world(4) [of D BUSYCH d] by auto
  obtain f2 where "snd (resume_loop D b n d1) = world f2 d1" using Suc by blast
  then have "snd (resume_loop D b n d1) = world (f2 \<circ> f1) d" by (simp add: d1 world_def)
  then show ?case using g d1 by auto
qed

lemma resume_inv:
  assumes "dma_inv d" "dma_resume_job D p d = Some d'"
  shows "dma_inv d'"
proof -
  obtain res m where r: "p \<noteq> NULL" "dma_resources d p = Some res" "channel_bit (res_channel_id res) = Some m"
    using assms(2) by (auto simp: dma_resume_job_def bind_eq_Some_conv)
  show ?thesis
  proof (cases "res_job_status res = STATUS_SUSPEND")
    case False
    then show ?thesis using assms r by (auto simp: dma_resume_job_def bind_eq_Some_conv)
  next
    case True
    let ?d = "resume_request D (res_channel_id res) d"
    obtain f where f: "snd (resume_loop D m 10000 ?d) = world f ?d" using resume_loop_world by blast
    have "dma_inv (set_resource p (res\<lparr>res_job_status := st\<rparr>) (world f ?d))" for st
      using assms(1) r(2) by (intro dma_inv_set_resource [of _ p res]) (simp_all add: resume_request_def reg_world)
    then show ?thesis
      using assms(2) r True f by (auto simp: dma_resume_job_def bind_eq_Some_conv Let_def case_prod_beta)
  qed
qed

lemma descriptor_inv:
  assumes "dma_inv d"
  shows "dma_descriptor_create p config d = Some d' \<Longrightarrow> dma_inv d'"
    "dma_add_descriptor p a d = Some (st, d') \<Longrightarrow> dma_inv d'"
    "dma_update_descriptor p a d = Some d' \<Longrightarrow> dma_inv d'"
    "dma_reset_descriptor p d = Some d' \<Longrightarrow> dma_inv d'"
  using assms
  by (auto simp: dma_descriptor_create_def dma_add_descriptor_def dma_update_descriptor_def
      dma_reset_descriptor_def bind_eq_Some_conv split: if_splits intro: dma_inv_set_resource)

lemma callback_inv:
  assumes "dma_inv d"
  shows "dma_enable_callback p type d = Some d' \<Longrightarrow> dma_inv d'"
    "dma_disable_callback D p type d = Some d' \<Longrightarrow> dma_inv d'"
    "dma_register_callback p f type d = Some d' \<Longrightarrow> dma_inv d'"
    "dma_unregister_callback p type d = Some d' \<Longrightarrow> dma_inv d'"
    "dma_trigger_transfer D p d = Some d' \<Longrightarrow> dma_inv d'"
  using assms
  by (auto simp: dma_enable_callback_def dma_disable_callback_def dma_register_callback_def
      dma_unregister_callback_def dma_trigger_transfer_def bind_eq_Some_conv Let_def
      intro!: dma_inv_set_resource)

text \<open>What a callback may do: anything that keeps the invariant.\<close>

definition keeps_inv :: "(addr \<Rightarrow> addr \<Rightarrow> 'w dma \<Rightarrow> 'w dma option) \<Rightarrow> bool" where
  "keeps_inv call \<longleftrightarrow> (\<forall>f p d d'. dma_inv d \<longrightarrow> call f p d = Some d' \<longrightarrow> dma_inv d')"

lemma handle_event_inv:
  assumes "dma_inv d" "keeps_inv call" "handle_event D call p flag st type d = Some d'"
  shows "dma_inv d'"
proof -
  obtain res where r: "dma_resources d p = Some res" "p \<noteq> NULL"
    using assms(3) by (auto simp: handle_event_def bind_eq_Some_conv reg_world Let_def)
  have "dma_inv (set_resource p (res\<lparr>res_job_status := st\<rparr>) (reg_put D CHINTFLAG (ucast flag) d))"
    using assms(1) r by (intro dma_inv_set_resource [of _ p res]) (simp_all add: reg_world)
  then show ?thesis
    using assms(2,3) r
    by (auto simp: handle_event_def run_callback_def keeps_inv_def bind_eq_Some_conv reg_world Let_def
        split: if_splits)
qed

lemma handle_flags_inv:
  assumes "dma_inv d" "keeps_inv call" "handle_flags D call isr p d = Some d'"
  shows "dma_inv d'"
  using assms handle_event_inv by (fastforce simp: handle_flags_def split: if_splits)

text \<open>The handler up to the flags: it finds the resource of the pending channel.\<close>

lemma handler_Some:
  assumes "DMAC_Handler D call d = Some d'"
  obtains p res size isr d1 d2 where "p \<in> set (dma_active_resource d)" "dma_resources d p = Some res"
    "agree d d1" "handle_flags D call isr p (set_resource p (res\<lparr>res_transfered_size := size\<rparr>) d1) = Some d2"
    "d' = leave_critical D d2"
proof -
  obtain v d1 where g1: "reg_get D INTPEND (enter_critical D d) = (v, d1)" by fastforce
  then have a1: "agree d d1" using reg_world(4) [of D INTPEND "enter_critical D d"] by (simp add: reg_world)
  obtain p res where p: "at (dma_active_resource d1) (pending_channel D v) = Some p"
      "deref (dma_resources d1) p = Some res"
    and h: "(case select_flags D (res_channel_id res) d1 of
         (isr, d) \<Rightarrow> do {
           size \<leftarrow> transfered D (res_channel_id res) d;
           d \<leftarrow> handle_flags D call (ucast isr) p (set_resource p (res\<lparr>res_transfered_size := size\<rparr>) d);
           Some (leave_critical D d) }) = Some d'"
    using assms unfolding DMAC_Handler_def g1 Let_def prod.case bind_eq_Some_conv by blast
  obtain w d2 where g2: "select_flags D (res_channel_id res) d1 = (w, d2)" by fastforce
  then have a2: "agree d d2"
    using a1 reg_world(4) [of D CHINTFLAG "reg_put D CHID (DMAC_CHID_ID D (res_channel_id res)) d1"]
    by (simp add: select_flags_def reg_world)
  obtain size d3 where
    "handle_flags D call (ucast w) p (set_resource p (res\<lparr>res_transfered_size := size\<rparr>) d2) = Some d3"
    "d' = leave_critical D d3"
    using h unfolding g2 prod.case bind_eq_Some_conv by blast
  moreover have "p \<in> set (dma_active_resource d)" "dma_resources d p = Some res"
    using p a1 by (auto simp: agree_def)
  ultimately show ?thesis using that a2 by blast
qed

lemma handler_inv:
  assumes "dma_inv d" "keeps_inv call" "DMAC_Handler D call d = Some d'"
  shows "dma_inv d'"
proof -
  obtain p res size isr d1 d2 where h: "dma_resources d p = Some res" "agree d d1"
    "handle_flags D call isr p (set_resource p (res\<lparr>res_transfered_size := size\<rparr>) d1) = Some d2"
    "d' = leave_critical D d2"
    using handler_Some [OF assms(3)] by metis
  then have "dma_inv (set_resource p (res\<lparr>res_transfered_size := size\<rparr>) d1)"
    using assms(1) agree_inv [OF h(2)]
    by (intro dma_inv_set_resource [of _ p res]) (simp_all add: agree_def)
  from handle_flags_inv [OF this assms(2) h(3)] h(4) show ?thesis by simp
qed

section \<open>The driver in use\<close>

text \<open>
  A program that uses the driver: calls of its operations in any order, with interrupts and changes
  of the world in between. The client keeps two rules: it allocates a resource that holds no
  channel, and it frees one that holds a channel.
\<close>

inductive dma_op :: "'w dmac \<Rightarrow> (addr \<Rightarrow> addr \<Rightarrow> 'w dma \<Rightarrow> 'w dma option) \<Rightarrow> 'w dma \<Rightarrow> 'w dma \<Rightarrow> bool"
  for D call where
  Allocate: "p \<notin> set (dma_active_resource d) \<Longrightarrow> dma_allocate D p config d = Some (st, d') \<Longrightarrow> dma_op D call d d'"
| Free: "p \<in> set (dma_active_resource d) \<Longrightarrow> dma_free D p d = Some (st, d') \<Longrightarrow> dma_op D call d d'"
| Start: "dma_start_transfer_job D p d = Some (st, d') \<Longrightarrow> dma_op D call d d'"
| Abort: "dma_abort_job D p d = Some d' \<Longrightarrow> dma_op D call d d'"
| Suspend: "dma_suspend_job D p d = Some d' \<Longrightarrow> dma_op D call d d'"
| Resume: "dma_resume_job D p d = Some d' \<Longrightarrow> dma_op D call d d'"
| Create: "dma_descriptor_create a dc d = Some d' \<Longrightarrow> dma_op D call d d'"
| Add: "dma_add_descriptor p a d = Some (st, d') \<Longrightarrow> dma_op D call d d'"
| Update: "dma_update_descriptor p a d = Some d' \<Longrightarrow> dma_op D call d d'"
| Reset: "dma_reset_descriptor p d = Some d' \<Longrightarrow> dma_op D call d d'"
| Enable: "dma_enable_callback p type d = Some d' \<Longrightarrow> dma_op D call d d'"
| Disable: "dma_disable_callback D p type d = Some d' \<Longrightarrow> dma_op D call d d'"
| Register: "dma_register_callback p f type d = Some d' \<Longrightarrow> dma_op D call d d'"
| Unregister: "dma_unregister_callback p type d = Some d' \<Longrightarrow> dma_op D call d d'"
| Trigger: "dma_trigger_transfer D p d = Some d' \<Longrightarrow> dma_op D call d d'"
| Interrupt: "DMAC_Handler D call d = Some d' \<Longrightarrow> dma_op D call d d'"

inductive dma_step :: "'w dmac \<Rightarrow> (addr \<Rightarrow> addr \<Rightarrow> 'w dma \<Rightarrow> 'w dma option) \<Rightarrow> 'w dma \<Rightarrow> 'w dma \<Rightarrow> bool"
  for D call where
  Op: "dma_op D call d d' \<Longrightarrow> dma_step D call d d'"
| World: "dma_step D call d (d\<lparr>dma_world := w\<rparr>)"

inductive_cases dma_opE: "dma_op D call d d'"
inductive_cases dma_stepE: "dma_step D call d d'"

inductive dma_run :: "'w dmac \<Rightarrow> (addr \<Rightarrow> addr \<Rightarrow> 'w dma \<Rightarrow> 'w dma option) \<Rightarrow> 'w dma \<Rightarrow> 'w dma \<Rightarrow> bool"
  for D call where
  run_refl: "dma_run D call d d"
| run_step: "dma_run D call d d' \<Longrightarrow> dma_step D call d' d'' \<Longrightarrow> dma_run D call d d''"

lemma op_inv:
  assumes "dma_op D call d d'" "dma_inv d" "keeps_inv call"
  shows "dma_inv d'"
  using assms(1)
  by (rule dma_opE)
    (use assms(2,3) in \<open>auto dest: allocate_inv free_inv start_inv job_inv resume_inv descriptor_inv
      callback_inv handler_inv\<close>)

lemma step_inv: "dma_step D call d d' \<Longrightarrow> dma_inv d \<Longrightarrow> keeps_inv call \<Longrightarrow> dma_inv d'"
  by (erule dma_stepE) (auto intro: op_inv)

lemma boot_inv:
  assumes "\<forall>p res. resources p = Some res \<longrightarrow> length (res_callback res) = 3"
  shows "dma_inv (dma_boot resources descriptors w)"
  using assms by (simp add: dma_inv_def dma_tables_def dma_owners_def dma_boot_def used_def)

lemma run_inv:
  assumes "dma_run D call d d'" "dma_inv d" "keeps_inv call"
  shows "dma_inv d'"
  using assms by (induction rule: dma_run.induct) (auto intro: step_inv)

section \<open>Properties\<close>

text \<open>C32: the tables of the driver stay consistent under a client that keeps its two rules. From the initial
  state, through every sequence of operations, interrupts and changes of the hardware in which a resource
  is allocated only while no channel is logged for it and freed only while one is, and with callbacks that
  keep the invariant themselves, the count of free channels agrees with the allocation bitmap, no bit
  beyond the five channels is set, and a channel is in use exactly when a resource is logged for it, one
  that carries that channel's number. The driver does not enforce the two rules: allocating a resource
  twice or freeing it once too often breaks the last part (the two lemmas behind the next properties).\<close>

theorem dma_tables_consistent:
  assumes "\<forall>p res. resources p = Some res \<longrightarrow> length (res_callback res) = 3" "keeps_inv call"
    and "dma_run D call (dma_boot resources descriptors w) d"
  shows "unat (free_channels d) + card (used d) = CONF_MAX_USED_CHANNEL_NUM
    \<and> unat (allocated_channels d) < 2 ^ CONF_MAX_USED_CHANNEL_NUM
    \<and> (\<forall>c < CONF_MAX_USED_CHANNEL_NUM. (c \<in> used d \<longleftrightarrow> dma_active_resource d ! c \<noteq> NULL) \<and>
        (c \<in> used d \<longrightarrow> (\<exists>res. dma_resources d (dma_active_resource d ! c) = Some res
           \<and> res_channel_id res = of_nat c)))"
  using run_inv [OF assms(3) boot_inv [OF assms(1)] assms(2)]
  by (auto simp: dma_inv_def dma_tables_def dma_owners_def used_def)

text \<open>C33: allocation gives the lowest free channel to a resource that holds none and logs it; with
  all five channels in use it reports that none was found and changes no table.\<close>

theorem dma_allocate_lowest_free:
  assumes "dma_inv d" "p \<noteq> NULL" "dma_resources d p = Some res"
  shows "if used d = {..<CONF_MAX_USED_CHANNEL_NUM}
    then \<exists>d'. dma_allocate D p config d = Some (STATUS_ERR_NOT_FOUND, d')
      \<and> used d' = used d \<and> dma_resources d' = dma_resources d
      \<and> dma_active_resource d' = dma_active_resource d
    else \<exists>d' j. dma_allocate D p config d = Some (STATUS_OK, d')
      \<and> j < CONF_MAX_USED_CHANNEL_NUM \<and> j \<notin> used d \<and> (\<forall>i < j. i \<in> used d)
      \<and> used d' = insert j (used d)
      \<and> dma_resources d' = (dma_resources d)(p \<mapsto> res\<lparr>res_channel_id := of_nat j, res_descriptor := NULL\<rparr>)
      \<and> dma_active_resource d' = (dma_active_resource d)[j := p]"
proof (cases "used d = {..<5}")
  case True
  then show ?thesis
    using allocate_no_channel [OF True assms(2), of D config] by (auto simp: agree_def used_def)
next
  case False
  then obtain j where j: "first_free d j" using search_result [of d] by blast
  have l: "length (dma_active_resource d) = 5" using assms(1) by (simp add: dma_inv_def dma_tables_def)
  obtain d' where d': "dma_allocate D p config d = Some (STATUS_OK, d')"
    "agree ((take_channel j p (fresh_resource j res) d)\<lparr>dma_init := True\<rparr>) d'"
    using allocate_free_channel [OF j assms(2,3) l] by blast
  have j5: "j < 5" "j \<notin> used d" "\<forall>i < j. i \<in> used d" using j by (simp_all add: first_free_def)
  have "used d' = insert j (used d)"
    using agree_used [OF d'(2)] used_take [OF j5(1), of p "fresh_resource j res" d] by (simp add: used_def)
  then show ?thesis
    using d' j5 False by (auto simp: agree_def take_channel_def fresh_resource_def)
qed

text \<open>C34: freeing a resource after allocating it restores the bitmap, the count of free channels and
  the pool.\<close>

theorem dma_allocate_free_roundtrip:
  assumes "dma_inv d" "p \<noteq> NULL" "dma_resources d p = Some res" "res_job_status res \<noteq> STATUS_BUSY"
    and "used d \<noteq> {..<CONF_MAX_USED_CHANNEL_NUM}"
  shows "\<exists>d1 d2. dma_allocate D p config d = Some (STATUS_OK, d1) \<and> dma_free D p d1 = Some (STATUS_OK, d2)
    \<and> allocated_channels d2 = allocated_channels d \<and> free_channels d2 = free_channels d
    \<and> dma_active_resource d2 = dma_active_resource d"
proof -
  obtain j where j: "first_free d j" using search_result [of d] assms(5) by blast
  then have j5: "j < 5" "j \<notin> used d" by (simp_all add: first_free_def)
  have l: "length (dma_active_resource d) = 5" and n: "dma_active_resource d ! j = NULL"
    using assms(1) j5 by (auto simp: dma_inv_def dma_tables_def used_def)
  let ?t = "(take_channel j p (fresh_resource j res) d)\<lparr>dma_init := True\<rparr>"
  obtain d1 where d1: "dma_allocate D p config d = Some (STATUS_OK, d1)" "agree ?t d1"
    using allocate_free_channel [OF j assms(2,3) l] by blast
  have u: "used d1 = insert j (used d)"
    using agree_used [OF d1(2)] used_take [OF j5(1), of p "fresh_resource j res" d] by (simp add: used_def)
  have f: "dma_resources d1 p = Some (fresh_resource j res)" "length (dma_active_resource d1) = 5"
    "res_job_status (fresh_resource j res) \<noteq> STATUS_BUSY" "res_channel_id (fresh_resource j res) = of_nat j"
    using d1(2) l assms(4) by (simp_all add: agree_def take_channel_def fresh_resource_def)
  obtain d2 where d2: "dma_free D p d1 = Some (STATUS_OK, d2)" "agree (give_channel j d1) d2"
    using free_used [OF assms(2) f(1,3,4) _ f(2)] u by blast
  have "(allocated_channels d OR 2 ^ j) AND NOT (2 ^ j) = allocated_channels d"
    using j5 by (intro bit_eqI) (auto simp: bit_or_channel bit_and_not_channel used_def)
  moreover have "(dma_active_resource d)[j := p, j := NULL] = dma_active_resource d"
    using n by (metis list_update_id list_update_overwrite)
  ultimately show ?thesis
    using d1 d2 by (auto simp: agree_def take_channel_def give_channel_def)
qed

text \<open>A resource that holds a channel and is allocated again gets a second one: the first stays in use and
  logged for a resource that no longer carries its number.\<close>

lemma dma_double_allocate_loses_channel:
  assumes "dma_inv d" "p \<noteq> NULL" "dma_resources d p = Some res"
    and "j \<in> used d" "dma_active_resource d ! j = p" "used d \<noteq> {..<CONF_MAX_USED_CHANNEL_NUM}"
  shows "\<exists>d' res'. dma_allocate D p config d = Some (STATUS_OK, d') \<and> j \<in> used d'
    \<and> dma_active_resource d' ! j = p \<and> dma_resources d' p = Some res' \<and> res_channel_id res' \<noteq> of_nat j"
proof -
  obtain k where k: "first_free d k" using search_result [of d] assms(6) by blast
  then have k5: "k < 5" "k \<notin> used d" by (simp_all add: first_free_def)
  have l: "length (dma_active_resource d) = 5" and j: "j < 5"
    using assms(1,4) by (auto simp: dma_inv_def dma_tables_def used_def)
  obtain d' where d': "dma_allocate D p config d = Some (STATUS_OK, d')"
    "agree ((take_channel k p (fresh_resource k res) d)\<lparr>dma_init := True\<rparr>) d'"
    using allocate_free_channel [OF k assms(2,3) l] by blast
  have "used d' = insert k (used d)"
    using agree_used [OF d'(2)] used_take [OF k5(1), of p "fresh_resource k res" d] by (simp add: used_def)
  moreover have "j \<noteq> k" using assms(4) k5(2) by auto
  then have "(of_nat k :: u8) \<noteq> of_nat j"
    using j k5(1) by (simp add: word_unat_eq_iff unat_of_nat)
  ultimately show ?thesis
    using d' \<open>j \<noteq> k\<close> assms(4,5) by (auto simp: agree_def take_channel_def fresh_resource_def)
qed

text \<open>A freed resource keeps its channel number, and freeing it again is not refused once the
  channel has a new owner: it takes the channel away from the new owner.\<close>

lemma dma_stale_free_takes_channel:
  assumes "p \<noteq> NULL" "dma_resources d p = Some res" "res_job_status res \<noteq> STATUS_BUSY"
    and "dma_inv d" "j \<in> used d" "dma_active_resource d ! j = q" "q \<noteq> p" "res_channel_id res = of_nat j"
  shows "\<exists>d'. dma_free D p d = Some (STATUS_OK, d') \<and> q \<notin> set (dma_active_resource d')
    \<and> used d' = used d - {j}"
proof -
  have l: "length (dma_active_resource d) = 5" and j: "j < 5" and q: "q \<noteq> NULL"
    using assms(4,5,6) by (auto simp: dma_inv_def dma_tables_def used_def)
  obtain d' where d': "dma_free D p d = Some (STATUS_OK, d')" "agree (give_channel j d) d'"
    using free_used [OF assms(1-3,8,5) l] by blast
  have "i = j" if "i < 5" "dma_active_resource d ! i = q" for i
  proof -
    have "(of_nat i :: u8) = of_nat j"
      using assms(4,6) that q j unfolding dma_inv_def dma_owners_def by (metis option.inject)
    then show ?thesis using that(1) j by (metis channel_u8(1))
  qed
  then have "q \<notin> set ((dma_active_resource d)[j := NULL])"
    using l q j by (auto simp: in_set_conv_nth nth_list_update split: if_splits)
  then show ?thesis
    using d' agree_used [OF d'(2)] used_give [OF j, of d] by (simp add: agree_def give_channel_def)
qed

end
