(* ===== verification/Dma_Jobs.thy ===== *)
theory Dma_Jobs
  imports Dma_Props
begin

text \<open>
  The jobs of the DMA driver: the linked list of descriptors, starting and resuming a transfer, the
  interrupt, and the pairing of the critical sections.
\<close>

section \<open>The list of descriptors\<close>

text \<open>The descriptors reached from an address through the link field.\<close>

fun desc_list :: "(addr \<rightharpoonup> DmacDescriptor) \<Rightarrow> addr \<Rightarrow> addr list \<Rightarrow> bool" where
  "desc_list heap p [] \<longleftrightarrow> p = NULL"
| "desc_list heap p (a # as) \<longleftrightarrow> p = a \<and> a \<noteq> NULL \<and>
     (\<exists>node. heap a = Some node \<and> desc_list heap (DESCADDR node) as)"

lemma desc_list_unique: "desc_list heap p xs \<Longrightarrow> desc_list heap p ys \<Longrightarrow> xs = ys"
proof (induction xs arbitrary: p ys)
  case Nil
  then show ?case by (cases ys) auto
next
  case (Cons x xs)
  then show ?case by (cases ys) auto
qed

lemma desc_list_append:
  "desc_list heap p (xs @ a # ys) \<Longrightarrow> desc_list heap a (a # ys)"
  by (induction xs arbitrary: p) auto

lemma desc_list_distinct: "desc_list heap p xs \<Longrightarrow> distinct xs"
proof (induction xs arbitrary: p)
  case (Cons a xs)
  obtain node where n: "heap a = Some node" "desc_list heap (DESCADDR node) xs" using Cons.prems by auto
  have "a \<notin> set xs"
  proof
    assume "a \<in> set xs"
    then obtain us vs where x: "xs = us @ a # vs" by (auto simp: in_set_conv_decomp)
    then have "desc_list heap a (a # vs)" using n(2) desc_list_append by blast
    moreover have "desc_list heap a (a # xs)" using Cons.prems by simp
    ultimately have "a # vs = a # xs" by (rule desc_list_unique)
    then show False using x by simp
  qed
  then show ?case using Cons.IH n(2) by simp
qed simp

lemma desc_list_update [simp]:
  "a \<notin> set xs \<Longrightarrow> desc_list (heap(a \<mapsto> node)) p xs = desc_list heap p xs"
  by (induction xs arbitrary: p) auto

lemma last_descriptor_list:
  assumes "desc_list heap p (xs @ [a])"
  shows "last_descriptor heap p = Some a"
  using assms
proof (induction xs arbitrary: p)
  case Nil
  then show ?case by (subst last_descriptor.simps) (auto simp: deref_def)
next
  case (Cons x xs)
  then obtain node where n: "p = x" "x \<noteq> NULL" "heap x = Some node" "desc_list heap (DESCADDR node) (xs @ [a])"
    by auto
  then have "DESCADDR node \<noteq> NULL" by (cases xs) auto
  then show ?case using n Cons.IH by (subst last_descriptor.simps) (simp add: deref_def)
qed

text \<open>Linking a descriptor behind the last one.\<close>

lemma desc_list_link:
  assumes "desc_list heap p (xs @ [z])" "heap z = Some node" "a \<notin> set (xs @ [z])" "a \<noteq> NULL"
    and "heap a = Some end_node" "DESCADDR end_node = NULL"
  shows "desc_list (heap(z \<mapsto> node\<lparr>DESCADDR := a\<rparr>)) p (xs @ [z, a])"
proof -
  have "z \<notin> set xs" using desc_list_distinct [OF assms(1)] by simp
  then show ?thesis using assms
  proof (induction xs arbitrary: p)
    case Nil
    then show ?case by auto
  next
    case (Cons x xs)
    then show ?case by auto
  qed
qed

text \<open>A descriptor that links to itself has no end.\<close>

lemma last_descriptor_loop:
  assumes "heap a = Some node" "DESCADDR node = a" "a \<noteq> NULL"
  shows "last_descriptor heap a = None"
proof (rule ccontr)
  assume "last_descriptor heap a \<noteq> None"
  then obtain y where y: "last_descriptor heap a = Some y" by auto
  have "heap a = Some node \<longrightarrow> DESCADDR node = a \<longrightarrow> a \<noteq> NULL \<longrightarrow> False"
  proof (rule last_descriptor.raw_induct [where P = "\<lambda>heap a y. heap a = Some node \<longrightarrow>
      DESCADDR node = a \<longrightarrow> a \<noteq> NULL \<longrightarrow> False", OF _ y], goal_cases)
    case (1 f heap a y)
    from 1(2) show ?case by (auto simp: deref_def split: if_splits dest!: 1(1))
  qed
  then show False using assms by simp
qed

text \<open>The links aside, descriptors stay as they are.\<close>

definition unlinked :: "(addr \<rightharpoonup> DmacDescriptor) \<Rightarrow> addr \<rightharpoonup> DmacDescriptor" where
  "unlinked heap a = map_option (\<lambda>n. n\<lparr>DESCADDR := NULL\<rparr>) (heap a)"

section \<open>Properties\<close>

text \<open>C35: adding a descriptor appends it to the resource's list, whatever its length, and changes
  nothing of any descriptor but the link; the search for the end returns.\<close>

theorem dma_add_descriptor_appends:
  assumes "p \<noteq> NULL" "dma_resources d p = Some res" "res_job_status res \<noteq> STATUS_BUSY"
    and "desc_list (dma_descriptors d) (res_descriptor res) as"
    and "a \<noteq> NULL" "a \<notin> set as" "dma_descriptors d a = Some end_node" "DESCADDR end_node = NULL"
  shows "\<exists>d' res'. dma_add_descriptor p a d = Some (STATUS_OK, d') \<and> dma_resources d' p = Some res'
    \<and> desc_list (dma_descriptors d') (res_descriptor res') (as @ [a])
    \<and> unlinked (dma_descriptors d') = unlinked (dma_descriptors d)"
proof (cases as rule: rev_cases)
  case Nil
  then show ?thesis
    using assms by (auto simp: dma_add_descriptor_def deref_def set_resource_def)
next
  case (snoc xs z)
  have l: "desc_list (dma_descriptors d) (res_descriptor res) (xs @ [z])" using assms(4) snoc by simp
  then obtain node where z: "z \<noteq> NULL" "dma_descriptors d z = Some node"
    using desc_list_append [OF l] by auto
  have h: "res_descriptor res \<noteq> NULL" using l by (cases xs) auto
  have a: "a \<notin> set (xs @ [z])" using assms(6) snoc by simp
  have "unlinked ((dma_descriptors d)(z \<mapsto> node\<lparr>DESCADDR := a\<rparr>)) = unlinked (dma_descriptors d)"
    using z(2) by (auto simp: unlinked_def)
  moreover have "dma_add_descriptor p a d = Some (STATUS_OK, set_descriptor z (node\<lparr>DESCADDR := a\<rparr>) d)"
    using assms(1-3) h z last_descriptor_list [OF l] by (simp add: dma_add_descriptor_def deref_def)
  moreover have "desc_list ((dma_descriptors d)(z \<mapsto> node\<lparr>DESCADDR := a\<rparr>)) (res_descriptor res) (as @ [a])"
    using desc_list_link [OF l z(2) a assms(5,7,8)] snoc by simp
  ultimately show ?thesis using assms(2) by (auto simp: set_descriptor_def)
qed

text \<open>Adding the same descriptor a second time links it to itself, and the next call of
  the function searches the end of the list for ever.\<close>

lemma dma_add_descriptor_twice_hangs:
  assumes "p \<noteq> NULL" "dma_resources d p = Some res" "res_job_status res \<noteq> STATUS_BUSY"
    and "res_descriptor res = NULL" "a \<noteq> NULL" "dma_descriptors d a = Some node" "DESCADDR node = NULL"
  shows "\<exists>d1 d2. dma_add_descriptor p a d = Some (STATUS_OK, d1)
    \<and> dma_add_descriptor p a d1 = Some (STATUS_OK, d2) \<and> (\<forall>b. dma_add_descriptor p b d2 = None)"
proof -
  let ?d1 = "set_resource p (res\<lparr>res_descriptor := a\<rparr>) d"
  let ?d2 = "set_descriptor a (node\<lparr>DESCADDR := a\<rparr>) ?d1"
  have "last_descriptor (dma_descriptors d) a = Some a"
    using assms(5-7) by (subst last_descriptor.simps) (simp add: deref_def)
  then have s: "dma_add_descriptor p a d = Some (STATUS_OK, ?d1)"
    "dma_add_descriptor p a ?d1 = Some (STATUS_OK, ?d2)"
    using assms by (simp_all add: dma_add_descriptor_def deref_def set_resource_def)
  have "last_descriptor ((dma_descriptors d)(a \<mapsto> node\<lparr>DESCADDR := a\<rparr>)) a = None"
    using assms(5) by (intro last_descriptor_loop [where node = "node\<lparr>DESCADDR := a\<rparr>"]) simp_all
  then have "dma_add_descriptor p b ?d2 = None" for b
    using assms by (simp add: dma_add_descriptor_def deref_def set_resource_def set_descriptor_def)
  then show ?thesis using s by blast
qed

text \<open>Starting a transfer. A busy resource and an empty transfer are refused without a change
  of the driver's state; otherwise the descriptor is copied to the channel's slot of the descriptor
  section, the resource is busy, and a second start is refused.\<close>

lemma dma_start_transfer_job_cases:
  assumes "p \<noteq> NULL" "dma_resources d p = Some res" "res_channel_id res = of_nat j" "j < CONF_MAX_USED_CHANNEL_NUM"
    and "res_descriptor res \<noteq> NULL" "dma_descriptors d (res_descriptor res) = Some desc"
    and "length (descriptor_section d) = CONF_MAX_USED_CHANNEL_NUM"
      "length (g_chan_interrupt_flag d) = CONF_MAX_USED_CHANNEL_NUM"
  shows "\<exists>st d'. dma_start_transfer_job D p d = Some (st, d') \<and>
    (if res_job_status res = STATUS_BUSY then st = STATUS_BUSY \<and> agree d d'
     else if BTCNT desc = 0 then st = STATUS_ERR_INVALID_ARG \<and> agree d d'
     else st = STATUS_OK \<and> descriptor_section d' = (descriptor_section d)[j := desc]
       \<and> dma_resources d' = (dma_resources d)(p \<mapsto> res\<lparr>res_job_status := STATUS_BUSY\<rparr>)
       \<and> (\<exists>d''. dma_start_transfer_job D p d' = Some (STATUS_BUSY, d'') \<and> agree d' d''))"
  using assms channel_u8 [OF assms(4)]
  by (simp add: dma_start_transfer_job_def deref_def Assert_def at_def set_resource_def reg_world Let_def)

text \<open>The value of \<^verbatim>\<open>BUSYCH\<close> at poll number \<open>k\<close>.\<close>

definition busy_poll :: "'w dmac \<Rightarrow> nat \<Rightarrow> 'w \<Rightarrow> u32" where
  "busy_poll D k w = fst (dmac_read D BUSYCH (((\<lambda>w. snd (dmac_read D BUSYCH w)) ^^ k) w))"

lemma resume_loop_polls:
  "fst (resume_loop D m n d) \<longleftrightarrow> (\<exists>k < n. busy_poll D k (dma_world d) AND m = m)"
proof (induction n arbitrary: d)
  case (Suc n)
  obtain v w where g: "dmac_read D BUSYCH (dma_world d) = (v, w)" by fastforce
  have p: "busy_poll D 0 (dma_world d) = v" "busy_poll D (Suc k) (dma_world d) = busy_poll D k w" for k
    by (simp_all add: busy_poll_def g funpow_Suc_right del: funpow.simps(2))
  have "(\<exists>k < Suc n. busy_poll D k (dma_world d) AND m = m) \<longleftrightarrow>
      v AND m = m \<or> (\<exists>k < n. busy_poll D k w AND m = m)"
    unfolding Ex_less_Suc2 p ..
  then show ?case using Suc.IH [of "d\<lparr>dma_world := w\<rparr>"] g by (simp add: reg_get_def)
qed simp

text \<open>C36: resuming a suspended job returns after at most \<^verbatim>\<open>MAX_JOB_RESUME_COUNT\<close> polls: the job is busy if
  one of the polls saw the channel busy, and has timed out otherwise. A job that is not suspended
  is left alone.\<close>

theorem dma_resume_job_bounded:
  assumes "p \<noteq> NULL" "dma_resources d p = Some res" "res_channel_id res = of_nat j" "j < CONF_MAX_USED_CHANNEL_NUM"
  shows "\<exists>d'. dma_resume_job D p d = Some d' \<and>
    (if res_job_status res \<noteq> STATUS_SUSPEND then d' = d
     else dma_resources d' = (dma_resources d)(p \<mapsto> res\<lparr>res_job_status :=
       (if \<exists>k < MAX_JOB_RESUME_COUNT. bit (busy_poll D k (dma_world (resume_request D (of_nat j) d))) j
        then STATUS_BUSY else STATUS_ERR_TIMEOUT)\<rparr>))"
proof (cases "res_job_status res = STATUS_SUSPEND")
  case False
  then show ?thesis
    using assms channel_u8 [OF assms(4)] by (simp add: dma_resume_job_def deref_def Assert_def channel_bit_def)
next
  case True
  let ?d = "resume_request D (of_nat j) d"
  obtain f where f: "snd (resume_loop D (2 ^ j) 10000 ?d) = world f ?d" using resume_loop_world by blast
  have b: "(v AND 2 ^ j = 2 ^ j) \<longleftrightarrow> bit v j" for v :: u32
  proof
    assume "v AND 2 ^ j = 2 ^ j"
    then have "bit (v AND 2 ^ j) j" using assms(4) by (simp add: bit_simps)
    then show "bit v j" by (simp add: bit_simps)
  next
    assume "bit v j"
    then show "v AND 2 ^ j = 2 ^ j" by (intro bit_eqI) (auto simp: bit_simps)
  qed
  have "dma_resume_job D p d = Some (set_resource p (res\<lparr>res_job_status :=
      (if fst (resume_loop D (2 ^ j) 10000 ?d) then STATUS_BUSY else STATUS_ERR_TIMEOUT)\<rparr>) (world f ?d))"
    using assms channel_u8 [OF assms(4)] True f
    by (simp add: dma_resume_job_def deref_def Assert_def channel_bit_def Let_def case_prod_beta)
  then show ?thesis
    unfolding resume_loop_polls b using True by (simp add: set_resource_def resume_request_def reg_world)
qed

section \<open>The interrupt\<close>

text \<open>Callbacks that do nothing to the driver, like those of \<^verbatim>\<open>sd_raw_dma.cpp\<close>.\<close>

definition quiet :: "(addr \<Rightarrow> addr \<Rightarrow> 'w dma \<Rightarrow> 'w dma option) \<Rightarrow> dma_resource \<Rightarrow> bool" where
  "quiet call res \<longleftrightarrow> length (res_callback res) = 3 \<and>
     (\<forall>f \<in> set (res_callback res). f \<noteq> NULL \<longrightarrow> (\<forall>p d. \<exists>w. call f p d = Some (d\<lparr>dma_world := w\<rparr>)))"

text \<open>The status after an interrupt with the given flags.\<close>

definition flag_status :: "'w dmac \<Rightarrow> u8 \<Rightarrow> status_code \<Rightarrow> status_code" where
  "flag_status D isr st =
     (if isr AND DMAC_CHINTENCLR_TERR D \<noteq> 0 then STATUS_ERR_IO
      else if isr AND DMAC_CHINTENCLR_TCMPL D \<noteq> 0 then STATUS_OK
      else if isr AND DMAC_CHINTENCLR_SUSP D \<noteq> 0 then STATUS_SUSPEND else st)"

lemma callback_index_u8: "unat (of_nat (callback_index type) :: u8) = callback_index type" "callback_index type < 3"
  by (cases type; simp add: unat_of_nat_u8)+

lemma handle_event_quiet:
  assumes "quiet call res" "p \<noteq> NULL" "dma_resources d p = Some res"
  shows "\<exists>d'. handle_event D call p flag st type d = Some d' \<and>
    agree (set_resource p (res\<lparr>res_job_status := st\<rparr>) d) d'"
proof -
  let ?d = "set_resource p (res\<lparr>res_job_status := st\<rparr>) (reg_put D CHINTFLAG (ucast flag) d)"
  let ?f = "res_callback res ! callback_index type"
  have l: "length (res_callback res) = 3" using assms(1) by (simp add: quiet_def)
  have w: "\<exists>w. call ?f p ?d = Some (?d\<lparr>dma_world := w\<rparr>)" if "?f \<noteq> NULL"
    using assms(1) l that callback_index_u8(2) [of type] unfolding quiet_def by (metis nth_mem)
  have a: "agree (set_resource p (res\<lparr>res_job_status := st\<rparr>) d) ?d"
    by (simp add: agree_def set_resource_def reg_world)
  then have b: "agree (set_resource p (res\<lparr>res_job_status := st\<rparr>) d) (?d\<lparr>dma_world := w\<rparr>)" for w
    by (simp add: agree_def)
  have "handle_event D call p flag st type d = run_callback call type p ?d"
    using assms(2,3) by (simp add: handle_event_def reg_world deref_def Let_def)
  also have "\<dots> = (if res_callback_enable res AND push_bit (callback_index type) 1 \<noteq> 0 \<and> ?f \<noteq> NULL
      then call ?f p ?d else Some ?d)"
    using assms(2) l callback_index_u8 [of type]
    by (simp add: run_callback_def deref_def set_resource_def at_def)
  finally show ?thesis using a b w by auto
qed

lemma handle_flags_quiet:
  assumes "quiet call res" "p \<noteq> NULL" "dma_resources d p = Some res"
  shows "\<exists>d'. handle_flags D call isr p d = Some d' \<and>
    agree (set_resource p (res\<lparr>res_job_status := flag_status D isr (res_job_status res)\<rparr>) d) d'"
proof -
  have "agree (set_resource p (res\<lparr>res_job_status := res_job_status res\<rparr>) d) d"
    using assms(3) by (auto simp: agree_def set_resource_def)
  then show ?thesis
    using handle_event_quiet [OF assms] unfolding handle_flags_def flag_status_def by auto
qed

text \<open>C37: an interrupt for a channel in use is handled. The handler finds the resource of
  the pending channel, records the number of beats transferred, sets the job status by the flags
  (an error before a completion before a suspension), and changes no other resource and no table.\<close>

theorem dma_handler_updates_owner:
  assumes inv: "dma_inv d" and res: "dma_resources d (dma_active_resource d ! j) = Some res"
    and call: "quiet call res"
    and first: "reg_get D INTPEND (enter_critical D d) = (v, d1)" "pending_channel D v = of_nat j" "j \<in> used d"
    and flags: "select_flags D (of_nat j) d1 = (isr, d2)"
    and beats: "beats = ucast (BTCNT (descriptor_section d ! j)) - ucast (dmac_write_back_BTCNT D (dma_world d2) j)"
  shows "\<exists>d'. DMAC_Handler D call d = Some d'
    \<and> dma_resources d' = (dma_resources d)(dma_active_resource d ! j \<mapsto>
        res\<lparr>res_transfered_size := beats, res_job_status := flag_status D (ucast isr) (res_job_status res)\<rparr>)
    \<and> used d' = used d \<and> dma_active_resource d' = dma_active_resource d"
proof -
  let ?p = "dma_active_resource d ! j"
  have j: "j < 5" using first(3) by (simp add: used_def)
  have l: "length (dma_active_resource d) = 5" "length (descriptor_section d) = 5" and p: "?p \<noteq> NULL"
    using inv first(3) by (auto simp: dma_inv_def dma_tables_def used_def)
  have r: "dma_resources d ?p = Some res" "res_channel_id res = of_nat j"
    using inv j p res unfolding dma_inv_def dma_owners_def by auto
  have a1: "agree d d1"
    using first(1) reg_world(4) [of D INTPEND "enter_critical D d"] by (simp add: reg_world)
  have a2: "agree d d2"
    using a1 flags reg_world(4) [of D CHINTFLAG "reg_put D CHID (DMAC_CHID_ID D (of_nat j)) d1"]
    by (simp add: select_flags_def reg_world)
  have s: "transfered D (of_nat j) d2 = Some beats"
    using a2 l(2) j channel_u8(1) [OF j] by (simp add: transfered_def at_def agree_def beats)
  let ?res = "res\<lparr>res_transfered_size := beats\<rparr>"
  obtain d3 where d3: "handle_flags D call (ucast isr) ?p (set_resource ?p ?res d2) = Some d3"
    "agree (set_resource ?p (?res\<lparr>res_job_status := flag_status D (ucast isr) (res_job_status ?res)\<rparr>)
       (set_resource ?p ?res d2)) d3"
    using handle_flags_quiet [of call ?res ?p "set_resource ?p ?res d2" D "ucast isr"] call p
    by (auto simp: set_resource_def quiet_def)
  have "DMAC_Handler D call d = Some (leave_critical D d3)"
    using a1 r(1,2) p l(1) j channel_u8(1) [OF j] d3(1) s
    by (simp add: DMAC_Handler_def first flags deref_def at_def agree_def)
  moreover have "used (leave_critical D d3) = used d" "dma_active_resource (leave_critical D d3) = dma_active_resource d"
    using d3(2) a2 by (simp_all add: agree_def used_def set_resource_def reg_world)
  moreover have "dma_resources (leave_critical D d3) = (dma_resources d)(?p \<mapsto>
      res\<lparr>res_transfered_size := beats, res_job_status := flag_status D (ucast isr) (res_job_status res)\<rparr>)"
    using d3(2) a2 by (simp add: agree_def set_resource_def reg_world)
  ultimately show ?thesis by blast
qed

section \<open>Critical sections\<close>

text \<open>
  What the services promise: critical sections nest, entering one increases the depth and leaving
  one decreases it, and nothing else does. A callback leaves the depth as it found it.
\<close>

definition nesting :: "'w dmac \<Rightarrow> ('w \<Rightarrow> int) \<Rightarrow> bool" where
  "nesting D depth \<longleftrightarrow> (\<forall>w. depth (system_interrupt_enter_critical_section D w) = depth w + 1
     \<and> depth (system_interrupt_leave_critical_section D w) = depth w - 1
     \<and> depth (system_clock_set_mask_DMAC D w) = depth w \<and> depth (system_interrupt_enable_DMA D w) = depth w
     \<and> (\<forall>r. depth (snd (dmac_read D r w)) = depth w) \<and> (\<forall>r v. depth (dmac_write D r v w) = depth w))"

definition level_callbacks :: "(addr \<Rightarrow> addr \<Rightarrow> 'w dma \<Rightarrow> 'w dma option) \<Rightarrow> ('w \<Rightarrow> int) \<Rightarrow> bool" where
  "level_callbacks call depth \<longleftrightarrow>
     (\<forall>f p d d'. call f p d = Some d' \<longrightarrow> depth (dma_world d') = depth (dma_world d))"

definition level :: "('w \<Rightarrow> int) \<Rightarrow> 'w dma \<Rightarrow> int" where
  "level depth d = depth (dma_world d)"

lemma level_simps [simp]:
  "level depth (d\<lparr>dma_init := b\<rparr>) = level depth d"
  "level depth (d\<lparr>allocated_channels := a\<rparr>) = level depth d"
  "level depth (d\<lparr>free_channels := n\<rparr>) = level depth d"
  "level depth (d\<lparr>dma_active_resource := xs\<rparr>) = level depth d"
  "level depth (d\<lparr>descriptor_section := ds\<rparr>) = level depth d"
  "level depth (d\<lparr>g_chan_interrupt_flag := fs\<rparr>) = level depth d"
  "level depth (set_resource p res d) = level depth d"
  "level depth (set_descriptor p desc d) = level depth d"
  by (simp_all add: level_def set_resource_def set_descriptor_def)

lemma level_nesting:
  assumes "nesting D depth"
  shows "level depth (enter_critical D d) = level depth d + 1" "level depth (leave_critical D d) = level depth d - 1"
    "level depth (reg_put D r v d) = level depth d" "level depth (snd (reg_get D r d)) = level depth d"
    "level depth (reg_and D r v d) = level depth d" "level depth (reg_or D r v d) = level depth d"
    "level depth (world (system_clock_set_mask_DMAC D) d) = level depth d"
    "level depth (world (system_interrupt_enable_DMA D) d) = level depth d"
  using assms by (simp_all add: nesting_def level_def world_defs)

lemma controller_init_level: "nesting D depth \<Longrightarrow> level depth (dma_controller_init D d) = level depth d"
  by (simp add: dma_controller_init_def level_nesting Let_def)

lemma find_channel_level:
  assumes "nesting D depth"
  shows "level depth (snd (dma_find_first_free_channel_and_allocate D d)) = level depth d"
  using assms
  by (simp add: dma_find_first_free_channel_and_allocate_def level_nesting Let_def split: option.split)

lemma set_config_level:
  "nesting D depth \<Longrightarrow> dma_set_config D p config d = Some d' \<Longrightarrow> level depth d' = level depth d"
  by (auto simp: dma_set_config_def bind_eq_Some_conv level_nesting Let_def)

lemma allocate_level:
  assumes "nesting D depth" "dma_allocate D p config d = Some (st, d')"
  shows "level depth d' = level depth d"
proof -
  note n = level_nesting [OF assms(1)]
  obtain c d1 where f: "dma_find_first_free_channel_and_allocate D (dma_controller_init D (enter_critical D d)) = (c, d1)"
    by fastforce
  then have d1: "level depth d1 = level depth d + 1"
    using find_channel_level [OF assms(1), of "dma_controller_init D (enter_critical D d)"]
    by (simp add: controller_init_level [OF assms(1)] n)
  then show ?thesis
    using assms(2)
    by (auto simp: dma_allocate_def f bind_eq_Some_conv n Let_def split: if_splits
        dest!: set_config_level [OF assms(1)])
qed

lemma resume_loop_level: "nesting D depth \<Longrightarrow> level depth (snd (resume_loop D m n d)) = level depth d"
proof (induction n arbitrary: d)
  case (Suc n)
  then show ?case using level_nesting(4) [OF Suc.prems, of BUSYCH d]
    by (auto simp: Let_def case_prod_beta)
qed simp

lemma job_level:
  assumes "nesting D depth"
  shows "dma_free D p d = Some (st, d') \<Longrightarrow> level depth d' = level depth d"
    "dma_start_transfer_job D p d = Some (st, d') \<Longrightarrow> level depth d' = level depth d"
    "dma_abort_job D p d = Some d' \<Longrightarrow> level depth d' = level depth d"
    "dma_suspend_job D p d = Some d' \<Longrightarrow> level depth d' = level depth d"
    "dma_resume_job D p d = Some d' \<Longrightarrow> level depth d' = level depth d"
  using level_nesting [OF assms] resume_loop_level [OF assms]
  by (auto simp: dma_free_def dma_release_channel_def dma_start_transfer_job_def dma_abort_job_def
      dma_suspend_job_def dma_resume_job_def resume_request_def bind_eq_Some_conv Let_def case_prod_beta
      split: if_splits)

lemma inline_level:
  assumes "nesting D depth"
  shows "dma_descriptor_create a dc d = Some d' \<Longrightarrow> level depth d' = level depth d"
    "dma_add_descriptor p a d = Some (st, d') \<Longrightarrow> level depth d' = level depth d"
    "dma_update_descriptor p a d = Some d' \<Longrightarrow> level depth d' = level depth d"
    "dma_reset_descriptor p d = Some d' \<Longrightarrow> level depth d' = level depth d"
    "dma_enable_callback p type d = Some d' \<Longrightarrow> level depth d' = level depth d"
    "dma_disable_callback D p type d = Some d' \<Longrightarrow> level depth d' = level depth d"
    "dma_register_callback p f type d = Some d' \<Longrightarrow> level depth d' = level depth d"
    "dma_unregister_callback p type d = Some d' \<Longrightarrow> level depth d' = level depth d"
    "dma_trigger_transfer D p d = Some d' \<Longrightarrow> level depth d' = level depth d"
  using level_nesting [OF assms]
  by (auto simp: dma_descriptor_create_def dma_add_descriptor_def dma_update_descriptor_def
      dma_reset_descriptor_def dma_enable_callback_def dma_disable_callback_def
      dma_register_callback_def dma_unregister_callback_def dma_trigger_transfer_def bind_eq_Some_conv
      Let_def split: if_splits)

lemma handle_flags_level:
  assumes "nesting D depth" "level_callbacks call depth" "handle_flags D call isr p d = Some d'"
  shows "level depth d' = level depth d"
proof -
  have c: "call f p d1 = Some d2 \<Longrightarrow> level depth d2 = level depth d1" for f d1 d2
    using assms(2) unfolding level_callbacks_def level_def by blast
  have "handle_event D call p flag st type d = Some d2 \<Longrightarrow> level depth d2 = level depth d" for flag st type d2
    using level_nesting [OF assms(1)]
    by (auto simp: handle_event_def run_callback_def bind_eq_Some_conv Let_def split: if_splits dest!: c)
  then show ?thesis using assms(3) unfolding handle_flags_def by (auto split: if_splits)
qed

lemma handler_level:
  assumes "nesting D depth" "level_callbacks call depth" "DMAC_Handler D call d = Some d'"
  shows "level depth d' = level depth d"
proof -
  note n = level_nesting [OF assms(1)]
  obtain v d1 where g1: "reg_get D INTPEND (enter_critical D d) = (v, d1)" by fastforce
  then have l1: "level depth d1 = level depth d + 1" using n(1,4) by (metis snd_conv)
  obtain p res where h: "(case select_flags D (res_channel_id res) d1 of
         (isr, d) \<Rightarrow> do {
           size \<leftarrow> transfered D (res_channel_id res) d;
           d \<leftarrow> handle_flags D call (ucast isr) p (set_resource p (res\<lparr>res_transfered_size := size\<rparr>) d);
           Some (leave_critical D d) }) = Some d'"
    using assms(3) unfolding DMAC_Handler_def g1 Let_def prod.case bind_eq_Some_conv by blast
  obtain w d2 where g2: "select_flags D (res_channel_id res) d1 = (w, d2)" by fastforce
  then have l2: "level depth d2 = level depth d1" using n(3,4) unfolding select_flags_def by (metis snd_conv)
  show ?thesis
    using h l1 l2 n(2) handle_flags_level [OF assms(1,2)] by (auto simp: g2 bind_eq_Some_conv)
qed

text \<open>C38: every operation of the driver and its interrupt handler leave as many critical
  sections as they enter, on every path: interrupts are never left disabled.\<close>

theorem dma_critical_sections_balanced:
  assumes "nesting D depth" "level_callbacks call depth" "dma_op D call d d'"
  shows "depth (dma_world d') = depth (dma_world d)"
proof -
  have "level depth d' = level depth d"
    using assms(3)
    by (rule dma_opE)
      (auto dest: allocate_level [OF assms(1)] job_level [OF assms(1)] inline_level [OF assms(1)]
         handler_level [OF assms(1,2)])
  then show ?thesis by (simp add: level_def)
qed

end
