(* ===== verification/Sd_Raw_Dma.thy ===== *)
theory Sd_Raw_Dma
  imports Sd_Raw Dma_Jobs
begin

text \<open>
  \<^verbatim>\<open>sd_raw_dma.cpp\<close>: block transfers to the card by DMA. The driver of the card and the driver of the
  controller share one world. The structure \<^verbatim>\<open>sd_raw_dma_t\<close> is given by the addresses of its
  resources and descriptors, since the controller's driver works on pointers to them; the
  \<^verbatim>\<open>sd_raw_t\<close> it points to is passed beside it. An interrupt of the controller is taken while the
  program polls the status of a job.
\<close>

section \<open>The outside world\<close>

text \<open>The SPI transactions, the triggers and the data register of \<^verbatim>\<open>SERCOM4\<close>, and the addresses of
  the two callbacks.\<close>

record 'w sercom =
  spi_beginTransaction :: "'w \<Rightarrow> 'w"
  spi_endTransaction :: "'w \<Rightarrow> 'w"
  SERCOM4_DMAC_ID_TX :: u8
  SERCOM4_DMAC_ID_RX :: u8
  SERCOM4_SPI_DATA :: addr
  tx_callback :: addr
  rx_callback :: addr

record sd_raw_dma_t =
  sdd_rx_resource :: addr
  sdd_tx_resource :: addr
  sdd_tx_descriptor :: addr
  sdd_rx_descriptor :: addr

type_synonym 'w sdd = "sd_raw_t \<times> 'w dma"

section \<open>Set-up\<close>

definition dma_rx_callback :: "addr \<Rightarrow> 'w dma \<Rightarrow> 'w dma option" where
  "dma_rx_callback resource d = Some d"

definition dma_tx_callback :: "addr \<Rightarrow> 'w dma \<Rightarrow> 'w dma option" where
  "dma_tx_callback resource d = Some d"

text \<open>The code at the addresses of the callbacks.\<close>

definition sd_dma_call :: "'w sercom \<Rightarrow> addr \<Rightarrow> addr \<Rightarrow> 'w dma \<Rightarrow> 'w dma option" where
  "sd_dma_call S f resource d =
     (if f = tx_callback S then dma_tx_callback resource d
      else if f = rx_callback S then dma_rx_callback resource d else None)"

definition bytes_per_beat :: "dma_beat_size \<Rightarrow> u8" where
  "bytes_per_beat beat_size = (case beat_size of
     DMA_BEAT_SIZE_BYTE \<Rightarrow> 1 | DMA_BEAT_SIZE_HWORD \<Rightarrow> 2 | DMA_BEAT_SIZE_WORD \<Rightarrow> 4)"

definition transfer_config ::
  "addr \<Rightarrow> addr \<Rightarrow> u32 \<Rightarrow> dma_beat_size \<Rightarrow> bool \<Rightarrow> bool \<Rightarrow> dma_descriptor_config" where
  "transfer_config source_memory destination_memory transfer_count beat_size source_increment
     destination_increment =
     (let span = ucast (bytes_per_beat beat_size) * transfer_count
      in dma_descriptor_get_config_defaults
         \<lparr> dc_beat_size := beat_size, dc_dst_increment_enable := destination_increment,
           dc_src_increment_enable := source_increment, dc_block_transfer_count := ucast transfer_count,
           dc_source_address := (if source_increment then source_memory + span else source_memory),
           dc_destination_address :=
             (if destination_increment then destination_memory + span else destination_memory) \<rparr>)"

definition setup_transfer_descriptor ::
  "addr \<Rightarrow> addr \<Rightarrow> addr \<Rightarrow> u32 \<Rightarrow> dma_beat_size \<Rightarrow> bool \<Rightarrow> bool \<Rightarrow> 'w dma \<Rightarrow> (status_code, 'w) dma_result" where
  "setup_transfer_descriptor descriptor source_memory destination_memory transfer_count beat_size
     source_increment destination_increment d = do {
     d \<leftarrow> dma_descriptor_create descriptor (transfer_config source_memory destination_memory
       transfer_count beat_size source_increment destination_increment) d;
     Some (STATUS_OK, d)
   }"

text \<open>One half of the initialisation: a channel with its trigger, a descriptor and a callback.\<close>

definition setup_channel ::
  "'w dmac \<Rightarrow> addr \<Rightarrow> addr \<Rightarrow> u8 \<Rightarrow> ('w dma \<Rightarrow> (status_code, 'w) dma_result) \<Rightarrow> addr \<Rightarrow> 'w dma
     \<Rightarrow> (bool, 'w) dma_result" where
  "setup_channel D resource descriptor trigger setup callback d = do {
     let config = dma_get_config_defaults\<lparr>rc_peripheral_trigger := trigger,
       rc_trigger_action := DMA_TRIGGER_ACTION_BEAT\<rparr>;
     (st, d) \<leftarrow> dma_allocate D resource config d;
     if st \<noteq> STATUS_OK then Some (False, d)
     else do {
       (st, d) \<leftarrow> setup d;
       if st \<noteq> STATUS_OK then Some (False, d)
       else do {
         (st, d) \<leftarrow> dma_add_descriptor resource descriptor d;
         if st \<noteq> STATUS_OK then Some (False, d)
         else do {
           d \<leftarrow> dma_register_callback resource callback DMA_CALLBACK_TRANSFER_DONE d;
           d \<leftarrow> dma_enable_callback resource DMA_CALLBACK_TRANSFER_DONE d;
           Some (True, d)
         }
       }
     }
   }"

definition sd_raw_dma_initialize ::
  "'w dmac \<Rightarrow> 'w sercom \<Rightarrow> sd_raw_dma_t \<Rightarrow> addr \<Rightarrow> addr \<Rightarrow> u32 \<Rightarrow> 'w dma \<Rightarrow> (bool, 'w) dma_result" where
  "sd_raw_dma_initialize D S sdd source_memory destination_memory len d = do {
     (ok, d) \<leftarrow> setup_channel D (sdd_tx_resource sdd) (sdd_tx_descriptor sdd) (SERCOM4_DMAC_ID_TX S)
       (setup_transfer_descriptor (sdd_tx_descriptor sdd) source_memory (SERCOM4_SPI_DATA S) len
          DMA_BEAT_SIZE_BYTE True False) (tx_callback S) d;
     if \<not> ok then Some (False, d)
     else setup_channel D (sdd_rx_resource sdd) (sdd_rx_descriptor sdd) (SERCOM4_DMAC_ID_RX S)
       (setup_transfer_descriptor (sdd_rx_descriptor sdd) (SERCOM4_SPI_DATA S) destination_memory len
          DMA_BEAT_SIZE_BYTE False True) (rx_callback S) d
   }"

section \<open>Transfers\<close>

text \<open>A step of the card's driver in the shared world.\<close>

definition sd_command :: "'w spi \<Rightarrow> u8 \<Rightarrow> u32 \<Rightarrow> 'w sdd \<Rightarrow> (u8 \<times> 'w sdd) option" where
  "sd_command H command arg = (\<lambda>(sd, d). do {
     (status, sd, w) \<leftarrow> sd_raw_command H command arg (sd, dma_world d);
     Some (status, sd, d\<lparr>dma_world := w\<rparr>)
   })"

definition sd_error :: "'w spi \<Rightarrow> u32 \<Rightarrow> 'w sdd \<Rightarrow> bool \<times> 'w sdd" where
  "sd_error H error = (\<lambda>(sd, d).
     let (ok, sd, w) = sd_raw_error H error (sd, dma_world d) in (ok, sd, d\<lparr>dma_world := w\<rparr>))"

definition sd_select_off :: "'w spi \<Rightarrow> 'w sdd \<Rightarrow> 'w sdd" where
  "sd_select_off H = (\<lambda>(sd, d).
     let (sd, w) = sd_raw_cs_high H (sd, dma_world d) in (sd, d\<lparr>dma_world := w\<rparr>))"

definition sd_transfer :: "'w spi \<Rightarrow> u8 \<Rightarrow> 'w dma \<Rightarrow> u8 \<times> 'w dma" where
  "sd_transfer H b d = (let (r, w) = spi_transfer H (dma_world d) b in (r, d\<lparr>dma_world := w\<rparr>))"

text \<open>\<^verbatim>\<open>while (dma_get_job_status(resource) == STATUS_BUSY);\<close>\<close>

partial_function (option) wait_job ::
  "'w dmac \<Rightarrow> (addr \<Rightarrow> addr \<Rightarrow> 'w dma \<Rightarrow> 'w dma option) \<Rightarrow> addr \<Rightarrow> 'w dma \<Rightarrow> 'w dma option" where
  "wait_job D call p d = do {
     st \<leftarrow> dma_get_job_status p d;
     if st = STATUS_BUSY then do {
       let (irq, w) = dmac_irq D (dma_world d);
       d \<leftarrow> (if irq then DMAC_Handler D call (d\<lparr>dma_world := w\<rparr>) else Some (d\<lparr>dma_world := w\<rparr>));
       wait_job D call p d
     }
     else Some d
   }"

definition sd_raw_dma_write_block ::
  "'w spi \<Rightarrow> 'w dmac \<Rightarrow> 'w sercom \<Rightarrow> sd_raw_dma_t \<Rightarrow> u32 \<Rightarrow> 'w sdd \<Rightarrow> (bool \<times> 'w sdd) option" where
  "sd_raw_dma_write_block H D S sdd block s = do {
     (status, sd, d) \<leftarrow> sd_command H CMD24 block s;
     if status \<noteq> 0 then Some (sd_error H SD_CARD_ERROR_CMD24 (sd, d))
     else do {
       let (_, d) = sd_transfer H DATA_START_BLOCK d;
       let d = world (spi_beginTransaction S) d;
       (_, d) \<leftarrow> dma_start_transfer_job D (sdd_tx_resource sdd) d;
       d \<leftarrow> wait_job D (sd_dma_call S) (sdd_tx_resource sdd) d;
       let d = world (spi_endTransaction S) d;
       let (_, d) = sd_transfer H 0xff d;
       let (_, d) = sd_transfer H 0xff d;
       let (status, d) = sd_transfer H 0xff d;
       let sd = sd\<lparr>sd_status := status\<rparr>;
       if status AND DATA_RES_MASK \<noteq> DATA_RES_ACCEPTED then Some (sd_error H SD_CARD_ERROR_WRITE (sd, d))
       else do {
         (ok, w) \<leftarrow> sd_raw_flush H SD_RAW_WRITE_TIMEOUT (dma_world d);
         let d = d\<lparr>dma_world := w\<rparr>;
         if \<not> ok then Some (sd_error H SD_CARD_ERROR_WRITE_TIMEOUT (sd, d))
         else do {
           (status, sd, d) \<leftarrow> sd_command H CMD13 0 (sd, d);
           let (failed, d) = (if status \<noteq> 0 then (True, d)
                              else let (b, d) = sd_transfer H 0xff d in (b \<noteq> 0, d));
           if failed then Some (sd_error H SD_CARD_ERROR_WRITE_PROGRAMMING (sd, d))
           else Some (True, sd_select_off H (sd, d))
         }
       }
     }
   }"

definition sd_raw_dma_read_block ::
  "'w spi \<Rightarrow> 'w dmac \<Rightarrow> 'w sercom \<Rightarrow> sd_raw_dma_t \<Rightarrow> u32 \<Rightarrow> 'w sdd \<Rightarrow> (bool \<times> 'w sdd) option" where
  "sd_raw_dma_read_block H D S sdd block s = do {
     (status, sd, d) \<leftarrow> sd_command H CMD17 block s;
     if status \<noteq> 0 then Some (sd_error H SD_CARD_ERROR_CMD17 (sd, d))
     else do {
       (ok, sd, w) \<leftarrow> sd_wait_start_block H (sd, dma_world d);
       let d = d\<lparr>dma_world := w\<rparr>;
       if \<not> ok then Some (sd_error H SD_CARD_ERROR_GENERAL (sd, d))
       else do {
         let d = world (spi_beginTransaction S) d;
         (_, d) \<leftarrow> dma_start_transfer_job D (sdd_rx_resource sdd) d;
         (_, d) \<leftarrow> dma_start_transfer_job D (sdd_tx_resource sdd) d;
         d \<leftarrow> wait_job D (sd_dma_call S) (sdd_tx_resource sdd) d;
         let d = world (spi_endTransaction S) d;
         Some (True, sd_select_off H (sd, d))
       }
     }
   }"

end
