(* ===== verification/Fkfs_Wf.thy ===== *)
theory Fkfs_Wf
  imports Fkfs_Safety
begin

text \<open>
  The type invariant of the file system object. The arrays of \<^verbatim>\<open>fkfs_t\<close> have fixed sizes, which lists
  do not have by themselves: every operation of \<^verbatim>\<open>fkfs.h\<close>, on every platform and also when it fails,
  leaves the buffer with the bytes of one block, the header and the settings with four files, every
  name with its twelve characters and the header index at one of the two slots.
\<close>

section \<open>Well-formed objects\<close>

text \<open>An operation that returns a flag and an object leaves the object well formed.\<close>

abbreviation keeps_wf :: "(bool \<times> 'd fkfs_t) option \<Rightarrow> bool" where
  "keeps_wf m \<equiv> after m (\<lambda>(ok, fs). wf_fs fs)"

lemmas after_size_any = after_any [where m = "plat_card_size P d" for P d]

lemma wf_fs_upd [simp]:
  "wf_fs (fs\<lparr>fs_sd := d\<rparr>) = wf_fs fs" "wf_fs (fs\<lparr>fs_statistics := st\<rparr>) = wf_fs fs"
  "wf_fs (fs\<lparr>fs_cachedBlockNumber := n\<rparr>) = wf_fs fs" "wf_fs (fs\<lparr>fs_cachedBlockDirty := c\<rparr>) = wf_fs fs"
  "wf_fs (fs\<lparr>fs_numberOfBlocks := n\<rparr>) = wf_fs fs"
  by (simp_all add: wf_fs_def)

lemma wf_fs_buffer: "wf_fs fs \<Longrightarrow> length buf = 512 \<Longrightarrow> wf_fs (fs\<lparr>fs_buffer := buf\<rparr>)"
  by (simp add: wf_fs_def)

lemma wf_fs_header: "wf_fs fs \<Longrightarrow> wf_header h \<Longrightarrow> wf_fs (fs\<lparr>fs_header := h\<rparr>)"
  by (simp add: wf_fs_def)

lemma wf_fs_parts:
  assumes "wf_fs fs"
  shows "length (fs_buffer fs) = 512" "wf_header (fs_header fs)" "unat (fs_headerIndex fs) < 2"
  using assms by (simp_all add: wf_fs_def)

lemma wf_millis [simp]: "wf_fs (snd (fs_millis P fs)) = wf_fs fs"
  by (simp add: fs_millis_def case_prod_beta)

lemma wf_stat [simp]: "wf_fs (fs_stat_update g fs) = wf_fs fs"
  by (simp add: fs_stat_update_def)

lemma wf_tick [simp]: "wf_fs (fst (status_tick P fs t)) = wf_fs fs"
  by (simp add: status_tick_def Let_def case_prod_beta)

text \<open>A change of one file that keeps its name.\<close>

lemma wf_file_update:
  assumes "wf_fs fs" "\<And>file. wf_file file \<Longrightarrow> wf_file (g file)"
  shows "wf_fs (fs_file_update n g fs)"
proof (cases "unat n < 4")
  case True
  then have "wf_file (header_files (fs_header fs) ! unat n)"
    using assms(1) by (simp add: wf_fs_def wf_header_def list_all_length)
  with assms show ?thesis
    by (auto simp: fs_file_update_def wf_fs_def wf_header_def list_all_iff dest!: subsetD [OF set_update_subset_insert])
next
  case False
  then show ?thesis
    using assms(1) by (simp add: fs_file_update_def wf_fs_def wf_header_def list_update_beyond)
qed

lemma wf_header_map:
  "wf_fs fs \<Longrightarrow> wf_header (g (fs_header fs)) \<Longrightarrow> wf_fs (fs_header_map g fs)"
  by (simp add: fs_header_map_def wf_fs_def)

lemma header_map_index [simp]: "fs_headerIndex (fs_header_map g fs) = fs_headerIndex fs"
  by (simp add: fs_header_map_def)

lemma wf_millisE: "fs_millis P fs = (t, fs') \<Longrightarrow> wf_fs fs' = wf_fs fs"
  using wf_millis [of P fs] by simp

lemma write_block_wf: "wf_fs fs \<Longrightarrow> keeps_wf (fkfs_write_block P fs b buf)"
  by (auto simp: fkfs_write_block_def after_def bind_eq_Some_conv Let_def case_prod_beta)

lemma initialize_load_wf:
  assumes "wf_fs fs"
  shows "keeps_wf (fkfs_initialize_load fs)"
proof -
  let ?i = "select_header_index (header_at (fs_buffer fs) 0) (header_at (fs_buffer fs) 1)"
  let ?h = "with_names (header_at (fs_buffer fs) (unat ?i)) (fs_header fs)"
  note p = wf_fs_parts [OF assms]
  have i: "unat ?i < 2" by (rule select_header_index_lt2)
  have "wf_header ?h" using wf_with_names wf_header_at [OF p(1) i] p(2) by blast
  then show ?thesis
    unfolding fkfs_initialize_load_def Let_def after_simps
    by (intro after_weaken [OF after_mem_write]) (use assms i in \<open>simp add: wf_fs_def with_names_def\<close>)
qed

lemma truncate_wf: "wf_fs fs \<Longrightarrow> keeps_wf (fkfs_file_truncate fs f)"
  by (auto simp: fkfs_file_truncate_def wf_file_def intro!: wf_file_update)

lemma truncate_loop_wf: "wf_fs fs \<Longrightarrow> keeps_wf (truncate_loop fs is)"
proof (induction "is" arbitrary: fs)
  case (Cons i "is")
  then show ?case by (auto intro!: after_weaken [OF truncate_wf])
qed simp

lemma initialize_file_wf: "wf_fs fs \<Longrightarrow> keeps_wf (fkfs_initialize_file P fs f priority sync name)"
  by (auto simp: fkfs_initialize_file_def Let_def case_prod_beta wf_file_def intro!: wf_file_update)
    (simp add: wf_fs_def)

context sized_platform
begin

lemma read_block_wf:
  assumes "wf_fs fs" "length buf = 512"
  shows "after (fkfs_read_block P fs b buf) (\<lambda>(ok, buf', fs'). wf_fs fs' \<and> length buf' = 512)"
  using assms by (auto simp: fkfs_read_block_def after_def bind_eq_Some_conv Let_def case_prod_beta dest: read_length)

lemma header_write_wf:
  assumes "wf_fs fs"
  shows "keeps_wf (fkfs_header_write P fs wipe)"
proof -
  have w: "keeps_wf (fkfs_write_block P (fs1\<lparr>fs_header := snd (fkfs_header_crc_update (fs_header fs1))\<rparr>) 0 buf)"
    if "wf_fs fs1" for fs1 buf
    using that by (intro write_block_wf wf_fs_header) (simp_all add: fkfs_header_crc_update_eq wf_fs_def)
  show ?thesis
    using assms unfolding fkfs_header_write_def
    by (auto simp: Let_def memzero_def intro!: after_weaken [OF read_block_wf] after_mem_any after_weaken [OF w])
qed

lemma block_ensure_wf: "wf_fs fs \<Longrightarrow> keeps_wf (fkfs_block_ensure P fs b)"
  using wf_fs_parts(1) by (auto simp: fkfs_block_ensure_def Let_def intro!: after_weaken [OF read_block_wf] wf_fs_buffer)

lemma fsync_wf:
  assumes "wf_fs fs"
  shows "keeps_wf (fkfs_fsync P fs)"
proof -
  have h: "keeps_wf (fkfs_header_write P ((fs_header_map (\<lambda>h. h\<lparr>header_generation := header_generation h + 1\<rparr>)
      (fs1\<lparr>fs_cachedBlockNumber := UINT32_MAX, fs_cachedBlockDirty := False\<rparr>))
      \<lparr>fs_headerIndex := (fs_headerIndex fs1 + 1) mod 2\<rparr>) False)" if "wf_fs fs1" for fs1
    using that flip_index [OF wf_fs_parts(3) [OF that]]
    by (intro header_write_wf) (simp add: fs_header_map_def wf_fs_def)
  show ?thesis
    using assms unfolding fkfs_fsync_def
    by (auto simp: Let_def intro!: after_weaken [OF write_block_wf] after_weaken [OF h])
qed

lemma touch_wf: "wf_fs fs \<Longrightarrow> keeps_wf (fkfs_touch P fs t)"
  unfolding fkfs_touch_def
  by (auto intro!: after_weaken [OF header_write_wf] wf_header_map dest: wf_fs_parts)

lemma flush_wf: "wf_fs fs \<Longrightarrow> keeps_wf (fkfs_flush P fs)"
  unfolding fkfs_flush_def Let_def
  by (auto simp: case_prod_beta intro!: after_weaken [OF touch_wf] after_weaken [OF fsync_wf])

lemma initialize_wipe_wf:
  assumes "wf_fs fs"
  shows "keeps_wf (fkfs_initialize_wipe P fs)"
proof -
  obtain files sd where f: "fresh_files P FKFS_FIRST_BLOCK (header_files (fs_header fs)) (fs_sd fs) = (files, sd)"
    by fastforce
  have "length files = 4" "list_all wf_file files"
    using fresh_files_props [OF f] wf_fresh_files [OF f] assms by (simp_all add: wf_fs_def wf_header_def)
  then show ?thesis
    using assms unfolding fkfs_initialize_wipe_def
    by (auto simp: Let_def f wf_fs_def wf_header_def intro!: after_weaken [OF after_mem_write]
      after_weaken [OF header_write_wf])
qed

lemma initialize_wf:
  assumes "wf_fs fs"
  shows "keeps_wf (fkfs_initialize P fs wipe)"
  using assms wf_fs_parts(1) [OF assms] unfolding fkfs_initialize_def
  by (auto simp: Let_def intro!: after_size_any after_weaken [OF after_mem_write] after_weaken [OF read_block_wf]
    initialize_wipe_wf initialize_load_wf wf_fs_buffer)

lemma allocate_move_wf:
  assumes "wf_fs fs"
  shows "after (allocate_move P fs required off visited) (\<lambda>(ok, fs', off', visited'). wf_fs fs')"
  using assms unfolding allocate_move_def
  by (auto intro!: after_weaken [OF fsync_wf] wf_header_map dest: wf_fs_parts)

end

lemma allocate_loop_wf:
  "sized_platform P \<Longrightarrow> wf_fs fs \<Longrightarrow> keeps_wf (allocate_loop P f required fs off visited)"
proof (induction P f required fs off visited rule: allocate_loop.induct)
  case (1 P f required fs off visited)
  note wf = sized_platform.allocate_move_wf [OF 1(2)] sized_platform.block_ensure_wf [OF 1(2)]
  show ?case
  proof (rule afterI)
    fix r assume r: "allocate_loop P f required fs off visited = Some r"
    obtain ok fs1 off1 v1 where m: "allocate_move P fs required off visited = Some (ok, fs1, off1, v1)"
      using r by (subst (asm) allocate_loop.simps) (auto split: option.splits)
    have w1: "wf_fs fs1" using afterD [OF wf(1) [OF 1(3)] m] by simp
    show "case r of (ok, fs) \<Rightarrow> wf_fs fs"
    proof (cases ok)
      case False
      with r m w1 show ?thesis by (subst (asm) allocate_loop.simps) auto
    next
      case True
      then obtain ok2 fs2 where e: "fkfs_block_ensure P fs1 (header_block (fs_header fs1)) = Some (ok2, fs2)"
        using r m by (subst (asm) allocate_loop.simps) (auto split: option.splits)
      have w2: "wf_fs fs2" using afterD [OF wf(2) [OF w1] e] by simp
      have h: "wf_fs (fs_header_map (\<lambda>h. h\<lparr>header_offset := n\<rparr>) fs2)" for n
        using w2 by (intro wf_header_map) (auto dest: wf_fs_parts)
      have ih: "keeps_wf (allocate_loop P f required fs2 512 v1)"
        if "ok2" "fkfs_block_available_offset fs2 (settings_priority (fs_files fs2 ! unat f)) required
            (fs_buffer fs2) off1 = Some (False, s)" "v1 < 5" for s
        using that True by (intro 1(1) [OF m refl refl refl _ e refl _ that(2) refl]) (use w2 1(2) in simp_all)
      show ?thesis using r m True e w2 h
        by (subst (asm) allocate_loop.simps) (auto split: option.splits if_splits prod.splits dest: afterD [OF ih])
    qed
  qed
qed

lemma scan_next_block_wf [simp]:
  "wf_fs (fst (snd (scan_next_block P config started fs iter n))) = wf_fs fs"
  by (auto simp: scan_next_block_def Let_def case_prod_beta split: if_splits)

context sized_platform
begin

lemma append_wf:
  assumes "wf_fs fs"
  shows "keeps_wf (fkfs_file_append P fs f sz data)"
proof -
  have a: "keeps_wf (fkfs_file_allocate_block P fs f required)" for required
    unfolding fkfs_file_allocate_block_def by (rule allocate_loop_wf [OF sized_platform_axioms assms])
  have w: "wf_fs (fs_file_update f (\<lambda>file. file\<lparr>file_endBlock := b, file_endOffset := off, file_size := g file\<rparr>)
      (fs_header_map (\<lambda>h. h\<lparr>header_offset := header_offset h + n\<rparr>) (fs1\<lparr>fs_buffer := buf, fs_cachedBlockDirty := True\<rparr>)))"
    if "wf_fs fs1" "length buf = 512" for fs1 :: "'d fkfs_t" and buf b off g n
    using that by (intro wf_file_update) (simp_all add: fs_header_map_def wf_fs_def wf_file_def)
  show ?thesis
    using assms unfolding fkfs_file_append_def
    by (auto simp: Let_def wf_fs_parts intro!: after_weaken [OF a] after_weaken [OF after_mem_write]
      after_any [where m = "fkfs_block_crc fl e d" for fl e d] after_any [where m = "mem_read d i n" for d i n]
      after_weaken [OF fsync_wf] w)
qed

lemma scan_body_wf:
  assumes "wf_fs fs"
  shows "after (scan_body P config started (fs, iter, t, n)) (\<lambda>r. case r of
    Inl (ok, fs', iter') \<Rightarrow> wf_fs fs' | Inr (fs', iter', t', n') \<Rightarrow> wf_fs fs')"
  using assms unfolding scan_body_def
  by (auto simp: Let_def case_prod_beta intro!: after_weaken [OF block_ensure_wf]
    after_any [where m = "fkfs_block_check g ptr" for g ptr])

lemma scan_loop_wf:
  assumes "wf_fs fs"
  shows "after (scan_loop P config started (fs, iter, t, n)) (\<lambda>(ok, fs', iter'). wf_fs fs')"
proof (rule afterI)
  fix r assume eq: "scan_loop P config started (fs, iter, t, n) = Some r"
  let ?Q = "\<lambda>(((P, config), started), (st :: 'd scan_state)) r. sized_platform P \<longrightarrow> wf_fs (fst st) \<longrightarrow> wf_fs (fst (snd r))"
  have "?Q (((P, config), started), (fs, iter, t, n)) r"
  proof (rule scan_loop.raw_induct [where Pa = ?Q, OF _ eq], goal_cases)
    case (1 loop P config started st r)
    obtain fs iter t n where st: "st = (fs, iter, t, n)" by (cases st)
    from 1(2) obtain b where b: "scan_body P config started st = Some b"
      and r: "(case b of Inl result \<Rightarrow> Some result | Inr st' \<Rightarrow> loop P config started st') = Some r"
      by (auto simp: bind_eq_Some_conv)
    show ?case
    proof (clarsimp simp: st)
      assume s: "sized_platform P" and w: "wf_fs fs"
      note w1 = afterD [OF sized_platform.scan_body_wf [OF s w] b [unfolded st]]
      show "wf_fs (fst (snd r))"
      proof (cases b)
        case (Inr st')
        have "?Q (((P, config), started), st') r" using r Inr by (intro 1(1)) simp
        then show ?thesis using w1 Inr s by (cases st') simp
      qed (use w1 r in \<open>cases r; auto\<close>)
    qed
  qed
  then show "case r of (ok, fs', iter') \<Rightarrow> wf_fs fs'" using assms sized_platform_axioms by (cases r) simp
qed

lemma iterate_wf:
  assumes "wf_fs fs"
  shows "after (fkfs_file_iterate P fs config iter) (\<lambda>(ok, fs', iter'). wf_fs fs')"
  using assms unfolding fkfs_file_iterate_def
  by (auto simp: Let_def case_prod_beta intro!: after_weaken [OF scan_loop_wf])

lemma file_size_loop_wf:
  assumes "wf_fs fs"
  shows "keeps_wf (file_size_loop P config f fs iter)"
proof (rule afterI)
  fix r assume eq: "file_size_loop P config f fs iter = Some r"
  let ?Q = "\<lambda>((((P, config), f), (fs :: 'd fkfs_t)), iter :: fkfs_file_iter_t) r. sized_platform P \<longrightarrow> wf_fs fs \<longrightarrow> wf_fs (snd r)"
  have "?Q ((((P, config), f), fs), iter) r"
  proof (rule file_size_loop.raw_induct [where Pa = ?Q, OF _ eq], goal_cases)
    case (1 loop P config f fs iter r)
    from 1(2) obtain more fs1 iter1 where it: "fkfs_file_iterate P fs config iter = Some (more, fs1, iter1)"
      and r: "(if more then loop P config f (fs_file_update f
          (\<lambda>file. file\<lparr>file_size := file_size file + ucast (iter_size iter1)\<rparr>) fs1) iter1 else Some (True, fs1)) = Some r"
      by (auto simp: bind_eq_Some_conv)
    show ?case
    proof (clarsimp)
      assume s: "sized_platform P" and w: "wf_fs fs"
      have w1: "wf_fs fs1" using afterD [OF sized_platform.iterate_wf [OF s w] it] by simp
      let ?fs = "fs_file_update f (\<lambda>file. file\<lparr>file_size := file_size file + ucast (iter_size iter1)\<rparr>) fs1"
      have w2: "wf_fs ?fs" using w1 by (rule wf_file_update) (simp add: wf_file_def)
      show "wf_fs (snd r)"
      proof (cases more)
        case True
        have "?Q ((((P, config), f), ?fs), iter1) r" using r True by (intro 1(1)) simp
        then show ?thesis using s w2 by simp
      qed (use r w1 in auto)
    qed
  qed
  then show "case r of (ok, fs') \<Rightarrow> wf_fs fs'" using assms sized_platform_axioms by (cases r) simp
qed

lemma truncate_at_wf:
  assumes "wf_fs fs"
  shows "keeps_wf (fkfs_file_truncate_at P fs iter stack)"
proof -
  have w: "wf_fs (fs_file_update f (\<lambda>file. file\<lparr>file_size := 0\<rparr>)
      (fs_file_update f (\<lambda>file. file\<lparr>file_startBlock := b\<rparr>) fs))" for f b
    using assms by (intro wf_file_update) (simp_all add: wf_file_def)
  then show ?thesis
    unfolding fkfs_file_truncate_at_def calculate_file_size_def
    by (auto simp: Let_def intro!: after_any [where m = "fkfs_file_iterator_create g f i" for g f i] file_size_loop_wf)
qed

end

section \<open>The life of an object\<close>

text \<open>
  The calls that change a file system object. \<open>fs_step P\<close> is one of them, whatever it returns; the
  last rule is the program that calls the file system at work on the device (\<^verbatim>\<open>sd_raw_initialize\<close> on
  \<^verbatim>\<open>fs.sd\<close>, or the world moving on). \<open>fs_reachable P\<close> are the objects that come out of
  \<^verbatim>\<open>fkfs_create\<close> and any sequence of calls.
\<close>

inductive fs_step :: "'d platform \<Rightarrow> 'd fkfs_t \<Rightarrow> 'd fkfs_t \<Rightarrow> bool" for P fs where
  create: "fkfs_create P fs = (ok, fs') \<Longrightarrow> fs_step P fs fs'"
| initialize_file: "fkfs_initialize_file P fs f priority sync name = Some (ok, fs') \<Longrightarrow> fs_step P fs fs'"
| initialize: "fkfs_initialize P fs wipe = Some (ok, fs') \<Longrightarrow> fs_step P fs fs'"
| append: "fkfs_file_append P fs f sz data = Some (ok, fs') \<Longrightarrow> fs_step P fs fs'"
| fsync: "fkfs_fsync P fs = Some (ok, fs') \<Longrightarrow> fs_step P fs fs'"
| touch: "fkfs_touch P fs time = Some (ok, fs') \<Longrightarrow> fs_step P fs fs'"
| flush: "fkfs_flush P fs = Some (ok, fs') \<Longrightarrow> fs_step P fs fs'"
| iterate: "fkfs_file_iterate P fs config iter = Some (ok, fs', iter') \<Longrightarrow> fs_step P fs fs'"
| truncate: "fkfs_file_truncate fs f = Some (ok, fs') \<Longrightarrow> fs_step P fs fs'"
| truncate_all: "fkfs_file_truncate_all fs = Some (ok, fs') \<Longrightarrow> fs_step P fs fs'"
| truncate_at: "fkfs_file_truncate_at P fs iter stack = Some (ok, fs') \<Longrightarrow> fs_step P fs fs'"
| device: "fs_step P fs (fs\<lparr>fs_sd := d\<rparr>)"

inductive_cases fs_stepE: "fs_step P fs fs'"

inductive fs_reachable :: "'d platform \<Rightarrow> 'd fkfs_t \<Rightarrow> bool" for P where
  created: "fkfs_create P fs = (ok, fs') \<Longrightarrow> fs_reachable P fs'"
| step: "fs_reachable P fs \<Longrightarrow> fs_step P fs fs' \<Longrightarrow> fs_reachable P fs'"

lemma create_wf: "fkfs_create P fs = (ok, fs') \<Longrightarrow> wf_fs fs'"
  using header_of_zeros(1) by (auto simp: fkfs_create_def wf_fs_def memzero_def)

context sized_platform
begin

lemma step_wf:
  assumes "fs_step P fs fs'" "wf_fs fs"
  shows "wf_fs fs'"
  using assms(1)
proof cases
  case create
  then show ?thesis by (rule create_wf)
next
  case initialize_file
  from afterD [OF initialize_file_wf [OF assms(2)] this] show ?thesis by simp
next
  case initialize
  from afterD [OF initialize_wf [OF assms(2)] this] show ?thesis by simp
next
  case append
  from afterD [OF append_wf [OF assms(2)] this] show ?thesis by simp
next
  case fsync
  from afterD [OF fsync_wf [OF assms(2)] this] show ?thesis by simp
next
  case touch
  from afterD [OF touch_wf [OF assms(2)] this] show ?thesis by simp
next
  case flush
  from afterD [OF flush_wf [OF assms(2)] this] show ?thesis by simp
next
  case iterate
  from afterD [OF iterate_wf [OF assms(2)] this] show ?thesis by simp
next
  case truncate
  from afterD [OF truncate_wf [OF assms(2)] this] show ?thesis by simp
next
  case (truncate_all ok)
  then have "truncate_loop fs [0, 1, 2, 3] = Some (ok, fs')" unfolding fkfs_file_truncate_all_def .
  from afterD [OF truncate_loop_wf [OF assms(2)] this] show ?thesis by simp
next
  case truncate_at
  from afterD [OF truncate_at_wf [OF assms(2)] this] show ?thesis by simp
next
  case device
  then show ?thesis using assms(2) by simp
qed

lemma reachable_wf: "fs_reachable P fs \<Longrightarrow> wf_fs fs"
  by (induction rule: fs_reachable.induct) (auto dest: create_wf step_wf)

end

section \<open>Calls that always return\<close>

abbreviation runs_wf :: "(bool \<times> 'd fkfs_t) option \<Rightarrow> bool" where
  "runs_wf m \<equiv> returns m (\<lambda>(ok, fs). wf_fs fs)"

lemma write_block_runs:
  assumes "transfers_return P" "wf_fs fs" "length buf = 512"
  shows "runs_wf (fkfs_write_block P fs b buf)"
  using assms by (intro returns_after write_block_wf)
    (auto simp: fkfs_write_block_def transfers_return_def Let_def case_prod_beta bind_eq_None_conv)

lemma header_slot_write:
  assumes "length buf = 512" "wf_header h" "unat (i :: u8) < 2"
  shows "returns (mem_write buf (137 * unat i) (header_bytes h)) (\<lambda>buf'. length buf' = 512)"
  using put_header_write [OF assms] put_header_length [OF assms] by simp

lemma initialize_load_runs:
  assumes "wf_fs fs"
  shows "runs_wf (fkfs_initialize_load fs)"
proof (rule returns_after [OF _ initialize_load_wf [OF assms]])
  let ?i = "select_header_index (header_at (fs_buffer fs) 0) (header_at (fs_buffer fs) 1)"
  let ?h = "with_names (header_at (fs_buffer fs) (unat ?i)) (fs_header fs)"
  note p = wf_fs_parts [OF assms]
  have i: "unat ?i < 2" by (rule select_header_index_lt2)
  have "wf_header ?h" using wf_with_names wf_header_at [OF p(1) i] p(2) by blast
  from put_header_write [OF p(1) this i] show "fkfs_initialize_load fs \<noteq> None"
    by (simp add: fkfs_initialize_load_def with_names_def Let_def)
qed

context sized_platform
begin

lemma read_block_runs:
  assumes "transfers_return P" "wf_fs fs" "length buf = 512"
  shows "returns (fkfs_read_block P fs b buf) (\<lambda>(ok, buf', fs'). wf_fs fs' \<and> length buf' = 512)"
  using assms by (intro returns_after read_block_wf)
    (auto simp: fkfs_read_block_def transfers_return_def Let_def case_prod_beta bind_eq_None_conv)

lemma header_write_runs:
  assumes "transfers_return P" "wf_fs fs"
  shows "runs_wf (fkfs_header_write P fs wipe)"
proof -
  have w: "returns (mem_write buf (137 * unat (fs_headerIndex fs1)) (header_bytes (seal_header (fs_header fs1))))
      (\<lambda>buf'. runs_wf (fkfs_write_block P (fs1\<lparr>fs_header := seal_header (fs_header fs1)\<rparr>) 0 buf'))"
    if "wf_fs fs1" "length buf = 512" for fs1 buf
    using that wf_fs_parts [OF that(1)]
    by (intro returns_mono [OF header_slot_write] write_block_runs [OF assms(1)] wf_fs_header) simp_all
  have z: "length (memzero 512 :: bytes) = 512" by (simp add: memzero_def)
  show ?thesis
    using assms z w [OF assms(2) z] unfolding fkfs_header_write_def
    by (auto simp: Let_def fkfs_header_crc_update_eq case_prod_beta returns_if intro!: returns_mono [OF read_block_runs] returns_mono [OF w] elim!: returns_mono)
qed

lemma fsync_runs:
  assumes "transfers_return P" "wf_fs fs"
  shows "runs_wf (fkfs_fsync P fs)"
proof -
  have h: "runs_wf (fkfs_header_write P ((fs_header_map (\<lambda>h. h\<lparr>header_generation := header_generation h + 1\<rparr>)
      (fs1\<lparr>fs_cachedBlockNumber := UINT32_MAX, fs_cachedBlockDirty := False\<rparr>))
      \<lparr>fs_headerIndex := (fs_headerIndex fs1 + 1) mod 2\<rparr>) False)" if "wf_fs fs1" for fs1
    using that flip_index [OF wf_fs_parts(3) [OF that]]
    by (intro header_write_runs [OF assms(1)]) (simp add: fs_header_map_def wf_fs_def)
  show ?thesis
    using assms wf_fs_parts(1) [OF assms(2)] unfolding fkfs_fsync_def
    by (auto simp: Let_def returns_if intro!: returns_mono [OF write_block_runs] returns_mono [OF h])
qed

lemma touch_runs: "transfers_return P \<Longrightarrow> wf_fs fs \<Longrightarrow> runs_wf (fkfs_touch P fs t)"
  unfolding fkfs_touch_def
  by (auto simp: returns_if intro!: returns_mono [OF header_write_runs] wf_header_map dest: wf_fs_parts)

lemma flush_runs: "transfers_return P \<Longrightarrow> wf_fs fs \<Longrightarrow> runs_wf (fkfs_flush P fs)"
  unfolding fkfs_flush_def Let_def
  by (auto simp: case_prod_beta returns_if intro!: returns_mono [OF touch_runs] returns_mono [OF fsync_runs])

lemma initialize_wipe_runs:
  assumes t: "transfers_return P" and w: "wf_fs fs"
  shows "runs_wf (fkfs_initialize_wipe P fs)"
proof -
  obtain files sd where f: "fresh_files P FKFS_FIRST_BLOCK (header_files (fs_header fs)) (fs_sd fs) = (files, sd)"
    by fastforce
  let ?fs = "fs\<lparr>fs_header := (fs_header fs)\<lparr>header_block := FKFS_FIRST_BLOCK, header_generation := 0, header_files := files\<rparr>,
    fs_sd := sd\<rparr>"
  have "length files = 4" "list_all wf_file files"
    using fresh_files_props [OF f] wf_fresh_files [OF f] w by (simp_all add: wf_fs_def wf_header_def)
  then have w1: "wf_fs ?fs" using w by (simp add: wf_fs_def wf_header_def)
  have put: "returns (mem_write (fs_buffer g) (137 * unat (fs_headerIndex g)) (header_bytes (fs_header g)))
      (\<lambda>buf. runs_wf (fkfs_header_write P (g\<lparr>fs_buffer := buf\<rparr>) wipe))" if "wf_fs g" for g wipe
    using wf_fs_parts [OF that] that
    by (intro returns_mono [OF header_slot_write] header_write_runs [OF t] wf_fs_buffer)
  have second: "wf_fs (g\<lparr>fs_header := (fs_header g)\<lparr>header_generation := 1\<rparr>, fs_headerIndex := 1\<rparr>)" if "wf_fs g" for g :: "'d fkfs_t"
    using that by (simp add: wf_fs_def)
  show ?thesis
    using put [OF w1, of True] unfolding fkfs_initialize_wipe_def
    by (auto simp: Let_def f returns_if case_prod_beta elim!: returns_mono
      intro!: returns_mono [OF put [OF second, simplified]])
qed

lemma initialize_runs:
  assumes t: "transfers_return P" and w: "wf_fs fs" and sz: "plat_card_size P (fs_sd fs) \<noteq> None"
  shows "runs_wf (fkfs_initialize P fs wipe)"
proof -
  obtain n sd where n: "plat_card_size P (fs_sd fs) = Some (n, sd)" using sz by auto
  obtain buf where b: "mem_write (fs_buffer fs) 0 (memzero 2) = Some buf" "length buf = 512"
    using wf_fs_parts(1) [OF w] by (simp add: mem_write_def memzero_def)
  show ?thesis
    using w b(2) unfolding fkfs_initialize_def
    by (auto simp: Let_def n b(1) returns_if intro!: returns_mono [OF read_block_runs [OF t]]
      initialize_wipe_runs [OF t] initialize_load_runs wf_fs_buffer)
qed

end

section \<open>Properties\<close>

text \<open>C18: the type invariant. Whatever sequence of calls a program makes on an object it has created, with
  whatever arguments and on whatever platform, and whether the calls succeed or fail, the object keeps
  the shape of its C type.\<close>

theorem objects_stay_well_formed:
  assumes "sized_platform P" "fs_reachable P fs"
  shows "wf_fs fs"
  using assms by (rule sized_platform.reachable_wf)

text \<open>C19: in every such state the operations that mount the card and synchronise with it have a defined
  result: they never touch memory outside the object, and they return as long as the transfers of
  the platform do (for a mount, as long as the size of the card can be asked for).\<close>

theorem mount_and_sync_return:
  assumes "sized_platform P" "transfers_return P" "fs_reachable P fs"
  shows "(\<exists>ok fs'. fkfs_fsync P fs = Some (ok, fs')) \<and> (\<exists>ok fs'. fkfs_touch P fs time = Some (ok, fs'))
    \<and> (\<exists>ok fs'. fkfs_flush P fs = Some (ok, fs'))
    \<and> (plat_card_size P (fs_sd fs) \<noteq> None \<longrightarrow> (\<exists>ok fs'. fkfs_initialize P fs wipe = Some (ok, fs')))"
proof -
  note wf = sized_platform.reachable_wf [OF assms(1,3)]
  have r: "\<exists>ok fs'. m = Some (ok, fs')" if "runs_wf m" for m :: "(bool \<times> 'a fkfs_t) option"
    using that by (auto simp: returns_def)
  show ?thesis
    using r [OF sized_platform.fsync_runs [OF assms(1,2) wf]] r [OF sized_platform.touch_runs [OF assms(1,2) wf]]
      r [OF sized_platform.flush_runs [OF assms(1,2) wf]] r [OF sized_platform.initialize_runs [OF assms(1,2) wf]]
    by blast
qed

end
