(* ===== verification/Sketches.thy ===== *)
theory Sketches
  imports Host_Tools Fkfs_Log_Props Single_Record Sd_Raw_Dma Fkfs_Wf
begin

text \<open>
  The Arduino programs under \<^verbatim>\<open>examples\<close>: \<^verbatim>\<open>simple/main.cpp\<close>, which wipes a card, writes records and
  text and prints the log, and \<^verbatim>\<open>dma/main.cpp\<close>, which writes and reads a block by DMA. The board (serial
  port, analog inputs, delays, the random generator) is outside the sources and is a record of its
  calls. What a program prints goes to the serial port as a sequence of items.
\<close>

section \<open>The board\<close>

datatype serial_item = Text string | Decimal nat | Hex u8 | Chars bytes | Newline

record 'e board =
  board_spi :: "'e spi"
  serial_begin :: "'e \<Rightarrow> u32 \<Rightarrow> 'e"
  serial_ready :: "'e \<Rightarrow> bool \<times> 'e"
  serial_print :: "'e \<Rightarrow> serial_item \<Rightarrow> 'e"
  board_delay :: "'e \<Rightarrow> u32 \<Rightarrow> 'e"
  board_analog_pin :: "nat \<Rightarrow> u8"
  board_analogRead :: "'e \<Rightarrow> u8 \<Rightarrow> u32 \<times> 'e"
  board_randomSeed :: "'e \<Rightarrow> u32 \<Rightarrow> 'e"

definition prints :: "'e board \<Rightarrow> serial_item list \<Rightarrow> 'e \<Rightarrow> 'e" where
  "prints B items e = foldl (serial_print B) e items"

definition println :: "'e board \<Rightarrow> string \<Rightarrow> 'e \<Rightarrow> 'e" where
  "println B s = prints B [Text s, Newline]"

text \<open>\<^verbatim>\<open>while (!Serial) delay(100);\<close>\<close>

partial_function (option) serial_wait :: "'e board \<Rightarrow> 'e \<Rightarrow> 'e option" where
  "serial_wait B e =
     (let (ready, e) = serial_ready B e
      in if ready then Some e else serial_wait B (board_delay B e 100))"

definition pin_high :: "'e board \<Rightarrow> u8 \<Rightarrow> 'e \<Rightarrow> 'e" where
  "pin_high B pin e = spi_digitalWrite (board_spi B) (spi_pinModeOutput (board_spi B) e pin) pin True"

section \<open>Printing through the log function\<close>

text \<open>\<open>formatted\<close> is the text of the format and its arguments; \<^verbatim>\<open>vsnprintf\<close> keeps one of the 256 bytes for
  the terminator, where \<^verbatim>\<open>Serial.print\<close> stops.\<close>

definition fkfs_printf :: "'e board \<Rightarrow> bytes \<Rightarrow> 'e \<Rightarrow> u32 \<times> 'e" where
  "fkfs_printf B formatted e =
     (let buffer = take 255 formatted
      in (0, serial_print B e (Chars (takeWhile (\<lambda>c. c \<noteq> 0) buffer))))"

text \<open>\<^verbatim>\<open>fkfs_configure_logging\<close> replaces the function the logging macros call.\<close>

definition fkfs_configure_logging :: "'f \<Rightarrow> 'f \<Rightarrow> bool \<times> 'f" where
  "fkfs_configure_logging fkfs_log_function_ptr log_function_ptr = (True, log_function_ptr)"

datatype statistics_line = Statistics u8 u32 u32 u16 | Name u8 bytes

text \<open>What \<^verbatim>\<open>fkfs_log_statistics\<close> logs; without \<^verbatim>\<open>FKFS_LOGGING\<close> the macro is empty.\<close>

definition fkfs_log_statistics :: "bool \<Rightarrow> 'd fkfs_t \<Rightarrow> bool \<times> statistics_line list" where
  "fkfs_log_statistics logging fs =
     (True, if \<not> logging then []
      else Statistics (fs_headerIndex fs) (header_generation (fs_header fs)) (header_block (fs_header fs))
             (header_offset (fs_header fs))
           # map (\<lambda>counter. Name (of_nat counter) (file_name (header_files (fs_header fs) ! counter)))
               (filter (\<lambda>counter. file_name (header_files (fs_header fs) ! counter) ! 0 \<noteq> 0)
                  [0..<FKFS_FILES_MAX]))"

section \<open>\<^verbatim>\<open>examples/simple/main.cpp\<close>\<close>

abbreviation (input) SIMPLE_PIN_CS1 :: u8 where "SIMPLE_PIN_CS1 \<equiv> 16"
abbreviation (input) SD_PIN_CS2 :: u8 where "SD_PIN_CS2 \<equiv> 4"

text \<open>The noise of four analog inputs, ten times, as the seed.\<close>

fun seed_loop :: "'e board \<Rightarrow> nat list \<Rightarrow> u32 \<Rightarrow> 'e \<Rightarrow> u32 \<times> 'e" where
  "seed_loop B [] seed e = (seed, e)"
| "seed_loop B (a # as) seed e =
     (let (v, e) = board_analogRead B e (board_analog_pin B a) in seed_loop B as (seed + v) e)"

definition board_start :: "'e board \<Rightarrow> 'e \<Rightarrow> 'e option" where
  "board_start B e = do {
     let e = pin_high B 8 (serial_begin B e 119200);
     e \<leftarrow> serial_wait B e;
     let e = board_randomSeed B e 83473;
     let (seed, e) = seed_loop B (concat (replicate 10 [0, 1, 3, 4])) 0 e;
     let e = board_randomSeed B e seed;
     Some (prints B [Text ''Header Size: '', Decimal sizeof_fkfs_header_t, Newline,
       Text ''Header Size (minus files): '', Decimal (sizeof_fkfs_header_t - sizeof_fkfs_file_t * FKFS_FILES_MAX),
       Newline, Text ''File Header Size: '', Decimal sizeof_fkfs_file_t, Newline,
       Text ''Entry Header Size: '', Decimal sizeof_fkfs_entry_t, Newline] e)
   }"

definition fs_println :: "'e board \<Rightarrow> string \<Rightarrow> 'e sd fkfs_t \<Rightarrow> 'e sd fkfs_t" where
  "fs_println B s fs = fs\<lparr>fs_sd := (fst (fs_sd fs), println B s (snd (fs_sd fs)))\<rparr>"

text \<open>The card on the first chip select that answers.\<close>

definition find_card :: "'e board \<Rightarrow> u8 \<Rightarrow> u8 \<Rightarrow> 'e sd \<Rightarrow> (bool \<times> 'e sd) option" where
  "find_card B cs1 cs2 s = do {
     (ok, s) \<leftarrow> sd_raw_initialize (board_spi B) cs1 s;
     if ok then Some (True, s) else sd_raw_initialize (board_spi B) cs2 s
   }"

text \<open>The calls up to the mount. \<open>fs\<close> is the object on the stack, cleared.\<close>

definition simple_mount ::
  "'e board \<Rightarrow> fkfs_log_t \<Rightarrow> 'e sd fkfs_t \<Rightarrow> (bool \<times> fkfs_log_t \<times> 'e sd fkfs_t) option" where
  "simple_mount B log fs =
     (let P = sd_platform (board_spi B); (ok, fs) = fkfs_create P fs
      in if \<not> ok then Some (False, log, fs_println B ''fkfs_create failed'' fs)
      else do {
        (ok, sd) \<leftarrow> find_card B SIMPLE_PIN_CS1 SD_PIN_CS2 (fs_sd fs);
        let fs = fs\<lparr>fs_sd := sd\<rparr>;
        if \<not> ok then Some (False, log, fs_println B ''sd_raw_initialize failed'' fs)
        else do {
          (ok, fs) \<leftarrow> fkfs_initialize_file P fs FKFS_FILE_LOG FKFS_FILE_PRIORITY_LOWEST 0 (str ''DEBUG.LOG'' @ [0]);
          if \<not> ok then Some (False, log, fs_println B ''fkfs_initialize failed'' fs)
          else do {
            (ok, fs) \<leftarrow> fkfs_initialize_file P fs FKFS_FILE_DATA FKFS_FILE_PRIORITY_HIGHEST 1 (str ''DATA.BIN'' @ [0]);
            if \<not> ok then Some (False, log, fs_println B ''fkfs_initialize failed'' fs)
            else do {
              let (ok, log) = fkfs_log_initialize log FKFS_FILE_LOG;
              if \<not> ok then Some (False, log, fs_println B ''fkfs_log_initialize failed'' fs)
              else do {
                (ok, fs) \<leftarrow> fkfs_initialize P fs True;
                Some (if ok then (True, log, fs)
                      else (False, log, fs_println B ''fkfs_initialize failed'' fs))
              }
            }
          }
        }
      })"

definition fs_random :: "'d platform \<Rightarrow> u32 \<Rightarrow> 'd fkfs_t \<Rightarrow> u32 \<times> 'd fkfs_t" where
  "fs_random P m fs = (let (r, sd) = plat_random P (fs_sd fs) m in (r, fs\<lparr>fs_sd := sd\<rparr>))"

text \<open>The loop that writes: a record of random length or a line of text; failures are printed.\<close>

fun simple_write ::
  "'e board \<Rightarrow> nat \<Rightarrow> fkfs_log_t \<Rightarrow> 'e sd fkfs_t \<Rightarrow> (fkfs_log_t \<times> 'e sd fkfs_t) option" where
  "simple_write B 0 log fs = Some (log, fs)"
| "simple_write B (Suc n) log fs =
     (let P = sd_platform (board_spi B); (r, fs) = fs_random P 10 fs
      in if r < 3 then do {
           let buffer = str ''DATA'' @ memzero 252;
           let (len, fs) = fs_random P 240 fs;
           (ok, fs) \<leftarrow> fkfs_file_append P fs FKFS_FILE_DATA (ucast (len + 5)) buffer;
           simple_write B n log (if ok then fs else fs_println B ''fkfs_file_append DATA failed'' fs)
         }
         else do {
           (ok, log, fs) \<leftarrow> fkfs_log_printf P log fs (str ''Hello, world'');
           simple_write B n log (if ok then fs else fs_println B ''fkfs_log_append failed'' fs)
         })"

text \<open>\<^verbatim>\<open>Serial.print((char *)iter.data)\<close>: the bytes up to a terminator, which has to be in the buffer.\<close>

definition c_string :: "bytes \<Rightarrow> nat \<Rightarrow> bytes option" where
  "c_string buf i = (if 0 \<in> set (drop i buf) then Some (takeWhile (\<lambda>c. c \<noteq> 0) (drop i buf)) else None)"

partial_function (option) simple_print ::
  "'e board \<Rightarrow> 'e sd fkfs_t \<Rightarrow> fkfs_file_iter_t \<Rightarrow> 'e sd fkfs_t option" where
  "simple_print B fs iter = do {
     (more, fs, iter) \<leftarrow> fkfs_file_iterate (sd_platform (board_spi B)) fs
       \<lparr> config_maxBlocks = 10, config_maxTime = 0, config_manualNext = False \<rparr> iter;
     if more then do {
       data \<leftarrow> iter_data iter;
       s \<leftarrow> c_string (fs_buffer fs) data;
       simple_print B (fs\<lparr>fs_sd := (fst (fs_sd fs), prints B [Text ''fkfs: iter: '',
         Decimal (unat (token_block (iter_token iter))), Text '' '',
         Decimal (unat (token_offset (iter_token iter))), Text '' '', Chars s, Newline] (snd (fs_sd fs)))\<rparr>) iter
     }
     else Some fs
   }"

text \<open>The two objects on the stack, \<^verbatim>\<open>= { 0 }\<close>.\<close>

definition log_zero :: fkfs_log_t where
  "log_zero = \<lparr> log_file = 0, log_position = 0, log_buffer = memzero FKFS_MAXIMUM_BLOCK_SIZE \<rparr>"

definition fkfs_zero :: "'d \<Rightarrow> 'd fkfs_t" where
  "fkfs_zero d = \<lparr> fs_headerIndex = 0, fs_cachedBlockDirty = False, fs_cachedBlockNumber = 0,
     fs_numberOfBlocks = 0, fs_header = header_zero, fs_sd = d, fs_buffer = memzero SD_RAW_BLOCK_SIZE,
     fs_files = replicate FKFS_FILES_MAX settings_zero, fs_statistics = fkfs_statistics_zero \<rparr>"

text \<open>\<^verbatim>\<open>setup\<close>. The flag tells an early \<^verbatim>\<open>return\<close> from the end of the function.\<close>

definition simple_setup :: "'e board \<Rightarrow> 'e \<Rightarrow> (bool \<times> fkfs_log_t \<times> 'e sd fkfs_t) option" where
  "simple_setup B e = do {
     e \<leftarrow> board_start B e;
     (ok, log, fs) \<leftarrow> simple_mount B log_zero (fkfs_zero (sd_raw_zero, e));
     if \<not> ok then Some (False, log, fs)
     else do {
       let _ = fkfs_log_statistics False fs;
       (log, fs) \<leftarrow> simple_write B 396 log fs;
       (_, iter) \<leftarrow> fkfs_file_iterator_create fs FKFS_FILE_LOG iter_zero;
       fs \<leftarrow> simple_print B fs iter;
       Some (True, log, fs)
     }
   }"

section \<open>\<^verbatim>\<open>examples/dma/main.cpp\<close>\<close>

text \<open>The two arrays are read and written by the controller, so the memory is part of the world: its
  accesses are parameters, with the addresses of the arrays.\<close>

record 'w memory =
  mem_store :: "'w \<Rightarrow> addr \<Rightarrow> bytes \<Rightarrow> 'w"
  mem_load :: "'w \<Rightarrow> addr \<Rightarrow> nat \<Rightarrow> bytes"
  source_memory :: addr
  destination_memory :: addr

abbreviation (input) DMA_PIN_CS1 :: u8 where "DMA_PIN_CS1 \<equiv> 10"
abbreviation (input) DATA_LENGTH :: nat where "DATA_LENGTH \<equiv> 512"

definition log_buffer_items :: "bytes \<Rightarrow> serial_item list" where
  "log_buffer_items buffer = concat (map (\<lambda>i. [Hex (buffer ! i), Text '' ''] @ (if i mod 32 = 31 then [Newline] else []))
     [0..<DATA_LENGTH])"

definition print_buffer :: "'w board \<Rightarrow> 'w memory \<Rightarrow> 'w \<Rightarrow> 'w" where
  "print_buffer B M w = prints B (log_buffer_items (mem_load M w (destination_memory M) DATA_LENGTH)) w"

definition fill_buffers :: "'w memory \<Rightarrow> (nat \<Rightarrow> u8) \<Rightarrow> (nat \<Rightarrow> u8) \<Rightarrow> 'w \<Rightarrow> 'w" where
  "fill_buffers M f g w =
     mem_store M (mem_store M w (source_memory M) (map f [0..<DATA_LENGTH]))
       (destination_memory M) (map g [0..<DATA_LENGTH])"

text \<open>Every end of \<^verbatim>\<open>setup\<close> is a loop \<^verbatim>\<open>while (true) delay(100)\<close>; the result says which one the program
  has come to and in which state.\<close>

datatype dma_end = No_card | Write_failed | No_channels | Finished

definition dma_round :: "'w board \<Rightarrow> 'w memory \<Rightarrow> 'w dmac \<Rightarrow> 'w sercom \<Rightarrow> sd_raw_dma_t \<Rightarrow> 'w sdd \<Rightarrow> 'w sdd option" where
  "dma_round B M D S sdd s = do {
     (ok, sd, d) \<leftarrow> sd_raw_dma_read_block (board_spi B) D S sdd 0 s;
     let d = world (\<lambda>w. if \<not> ok then println B ''dma_read_block failed'' w
       else print_buffer B M (println B ''dma_read_block (should be 0xff)'' w)) d;
     let d = world (fill_buffers M of_nat of_nat) d;
     (ok, sd, d) \<leftarrow> sd_raw_dma_write_block (board_spi B) D S sdd 0 (sd, d);
     if \<not> ok then Some (sd, world (println B ''dma_write_block failed'') d)
     else do {
       let d = world (fill_buffers M (\<lambda>_. 0) (\<lambda>_. 0)) d;
       (ok, sd, d) \<leftarrow> sd_raw_dma_read_block (board_spi B) D S sdd 0 (sd, d);
       Some (sd, world (\<lambda>w. if \<not> ok then println B ''dma_read_block failed'' w
         else print_buffer B M (println B ''dma_read_block (should be increasing)'' w)) d)
     }
   }"

text \<open>\<open>sd\<close> is what the stack holds in the driver's structure before it is initialised. The first branch
  of \<^verbatim>\<open>if (false)\<close> is never taken.\<close>

definition dma_setup ::
  "'w board \<Rightarrow> 'w memory \<Rightarrow> 'w dmac \<Rightarrow> 'w sercom \<Rightarrow> sd_raw_dma_t \<Rightarrow> 'w sdd \<Rightarrow> (dma_end \<times> 'w sdd) option" where
  "dma_setup B M D S sdd = (\<lambda>(sd, d). do {
     let w = pin_high B SD_PIN_CS2 (pin_high B DMA_PIN_CS1 (pin_high B 8 (serial_begin B (dma_world d) 115200)));
     w \<leftarrow> serial_wait B w;
     (ok, sd, w) \<leftarrow> find_card B DMA_PIN_CS1 SD_PIN_CS2 (sd, w);
     if \<not> ok then Some (No_card, sd, d\<lparr>dma_world := println B ''sd_raw_initialize failed'' w\<rparr>)
     else do {
       let w = fill_buffers M (\<lambda>_. 0xFF) (\<lambda>_. 0) w;
       (ok, sd, w) \<leftarrow> sd_raw_write_block (board_spi B) 0 (mem_load M w (source_memory M) DATA_LENGTH) (sd, w);
       if \<not> ok then Some (Write_failed, sd, d\<lparr>dma_world := println B ''sd_raw_write_block block failed'' w\<rparr>)
       else do {
         (ok, d) \<leftarrow> sd_raw_dma_initialize D S sdd (source_memory M) (destination_memory M) 512 (d\<lparr>dma_world := w\<rparr>);
         if \<not> ok then Some (No_channels, sd, world (println B ''sd_raw_dma_initialize failed'') d)
         else do {
           (sd, d) \<leftarrow> dma_round B M D S sdd (sd, d);
           Some (Finished, sd, world (println B ''done'') d)
         }
       }
     }
   })"

end
