(* ===== verification/Sd_Raw_Props.thy ===== *)
theory Sd_Raw_Props
  imports Sd_Raw
begin

text \<open>
  What the SD driver guarantees whatever the card answers: it returns, it leaves no block half
  read, it reports its errors, and it decodes the size register as the SD specification says.
\<close>

section \<open>The state of the driver after a command\<close>

lemma cs_fst [simp]: "fst (sd_raw_cs_high H s) = fst s" "fst (sd_raw_cs_low H s) = fst s"
  by (simp_all add: sd_raw_cs_high_def sd_raw_cs_low_def case_prod_beta)

lemma read_end_inBlock [simp]: "\<not> sd_inBlock (fst (sd_raw_read_end H s))"
  by (auto simp: sd_raw_read_end_def Let_def case_prod_beta)

lemma read_end_type [simp]: "sd_type (fst (sd_raw_read_end H s)) = sd_type (fst s)"
  by (auto simp: sd_raw_read_end_def Let_def case_prod_beta)

lemma error_result [simp]:
  "fst (sd_raw_error H err s) = False" "fst (snd (sd_raw_error H err s)) = (fst s)\<lparr>sd_status := ucast err\<rparr>"
  by (simp_all add: sd_raw_error_def Let_def case_prod_beta)

lemma command_state:
  assumes "sd_raw_command H command arg s = Some (status, s')"
  shows "\<not> sd_inBlock (fst s')" "sd_type (fst s') = sd_type (fst s)" "sd_status (fst s') = status"
  using assms by (auto simp: sd_raw_command_def bind_eq_Some_conv Let_def case_prod_beta)

text \<open>Waiting for the start token changes nothing but the status.\<close>

lemma start_block_loop_state:
  assumes "start_block_loop H t0 s = Some r"
  shows "sd_inBlock (fst (snd r)) = sd_inBlock (fst s) \<and> sd_type (fst (snd r)) = sd_type (fst s)"
proof (rule start_block_loop.raw_induct [where P = "\<lambda>H t0 s r. sd_inBlock (fst (snd r)) = sd_inBlock (fst s)
    \<and> sd_type (fst (snd r)) = sd_type (fst s)", OF _ assms], goal_cases)
  case (1 loop H t0 s r)
  from 1(2) show ?case
    by (auto simp: Let_def case_prod_beta split: if_splits dest!: 1(1))
qed

lemma wait_start_block_state:
  assumes "sd_wait_start_block H s = Some (ok, s')"
  shows "sd_inBlock (fst s') = sd_inBlock (fst s)" "sd_type (fst s') = sd_type (fst s)"
  using assms by (auto simp: sd_wait_start_block_def Let_def case_prod_beta dest!: start_block_loop_state)

lemma read_data_open_state:
  assumes "read_data_open H block offset s = Some (ok, s')" "\<not> ok"
  shows "\<not> sd_inBlock (fst s')" "sd_status (fst s') \<in> {0x03, 0x17}"
  using assms
  by (auto simp: read_data_open_def bind_eq_Some_conv sd_raw_error_def Let_def case_prod_beta
      split: if_splits dest!: command_state(1) wait_start_block_state(1))

lemma read_data_open_ok:
  assumes "read_data_open H block offset s = Some (True, s')" "\<not> sd_inBlock (fst s)"
  shows "\<exists>s1 s2. sd_raw_command H CMD17 (sd_address (fst s) block)
        ((fst s)\<lparr>sd_block := block\<rparr>, snd s) = Some (0, s1)
    \<and> sd_wait_start_block H s1 = Some (True, s2)
    \<and> sd_offset (fst s') = 0 \<and> snd s' = snd s2"
  using assms
  by (auto simp: read_data_open_def bind_eq_Some_conv sd_raw_error_def sd_address_def Let_def
      case_prod_beta split: if_splits)

lemma length_spi_reads: "length (fst (spi_reads H n e)) = n"
  by (induction n arbitrary: e) (simp_all add: Let_def case_prod_beta)

section \<open>The clock\<close>

text \<open>
  What the driver relies on for its time limits. \<open>cycles\<close> counts the time in some unit of which a
  millisecond has \<open>K\<close>: a transfer takes time, but no more than a millisecond, reading the clock
  takes no more than that either, and \<^verbatim>\<open>millis\<close> is the number of whole milliseconds modulo
  \<open>2^32\<close>.
\<close>

definition clocked :: "'e spi \<Rightarrow> ('e \<Rightarrow> nat) \<Rightarrow> nat \<Rightarrow> bool" where
  "clocked H cycles K \<longleftrightarrow> 0 < K
     \<and> (\<forall>e b. cycles e < cycles (snd (spi_transfer H e b))
          \<and> cycles (snd (spi_transfer H e b)) \<le> cycles e + K)
     \<and> (\<forall>e. fst (spi_millis H e) = of_nat (cycles e div K)
          \<and> cycles e \<le> cycles (snd (spi_millis H e)) \<and> cycles (snd (spi_millis H e)) \<le> cycles e + K)"

text \<open>The elapsed time the driver computes is the true one as long as it is below \<open>2^32\<close>.\<close>

lemma elapsed:
  assumes "a \<le> (b :: nat)" "b - a < 2 ^ 32"
  shows "unat (of_nat b - of_nat a :: u32) = b - a"
proof -
  have "(of_nat b - of_nat a :: u32) = of_nat (b - a)" using assms(1) by (simp add: of_nat_diff)
  then show ?thesis using assms(2) by (simp add: unat_of_nat)
qed

lemma clocked_pos: "clocked H cycles K \<Longrightarrow> 0 < K"
  by (simp add: clocked_def)

lemma clock_transfer:
  assumes "clocked H cycles K"
  shows "cycles e < cycles (snd (spi_transfer H e b))"
    "cycles (snd (spi_transfer H e b)) div K \<le> cycles e div K + 1"
proof -
  have "cycles (snd (spi_transfer H e b)) \<le> cycles e + K" "K \<noteq> 0"
    using assms by (simp_all add: clocked_def)
  then show "cycles (snd (spi_transfer H e b)) div K \<le> cycles e div K + 1"
    by (metis div_le_mono div_add_self2)
qed (use assms in \<open>simp add: clocked_def\<close>)

lemma clock_millis:
  assumes "clocked H cycles K"
  shows "cycles (snd (spi_millis H e)) div K \<le> cycles e div K + 1"
    "cycles e \<le> cycles (snd (spi_millis H e))"
    "fst (spi_millis H e) = of_nat (cycles e div K)"
proof -
  have "cycles (snd (spi_millis H e)) \<le> cycles e + K" "K \<noteq> 0"
    using assms by (simp_all add: clocked_def)
  then show "cycles (snd (spi_millis H e)) div K \<le> cycles e div K + 1"
    by (metis div_le_mono div_add_self2)
qed (use assms in \<open>simp_all add: clocked_def\<close>)

lemma unat_ucast_u16 [simp]: "unat (ucast (w :: u16) :: u32) = unat w"
  by transfer simp

text \<open>One pass of a waiting loop: the clock has moved on, by no more than three milliseconds.\<close>

lemma wait_pass:
  assumes "clocked H cycles K" "spi_transfer H e b = (x, e1)" "spi_millis H e1 = (now, e2)"
    and "t0 \<le> cycles e div K" "cycles e div K \<le> t0 + n" "n < 2 ^ 16"
  shows "unat (now - of_nat t0) = cycles e1 div K - t0" "t0 \<le> cycles e2 div K"
    "cycles e2 div K \<le> cycles e1 div K + 1" "cycles e < cycles e2" "t0 \<le> cycles e1 div K"
proof -
  note c1 = clock_transfer [OF assms(1), of e b] and c2 = clock_millis [OF assms(1), of e1]
  have lt: "cycles e < cycles e1" "cycles e1 \<le> cycles e2" using c1(1) c2(2) assms(2,3) by simp_all
  have d: "cycles e div K \<le> cycles e1 div K" "cycles e1 div K \<le> cycles e2 div K"
    using lt by (simp_all add: div_le_mono)
  show "t0 \<le> cycles e1 div K" "t0 \<le> cycles e2 div K" "cycles e < cycles e2"
    using d lt assms(4) by simp_all
  show "cycles e2 div K \<le> cycles e1 div K + 1" using c2(1) assms(3) by simp
  have "cycles e1 div K - t0 < 2 ^ 32" using c1(2) assms(2,5,6) by simp
  then show "unat (now - of_nat t0) = cycles e1 div K - t0"
    using c2(3) assms(3) elapsed [of t0 "cycles e1 div K"] \<open>t0 \<le> cycles e1 div K\<close> by simp
qed

text \<open>A loop that passes on while the elapsed time is at most \<open>n\<close> cannot pass on for ever.\<close>

lemma cycles_bound:
  assumes "0 < K" "c div K \<le> t0 + (n :: nat)"
  shows "c < (t0 + n + 1) * K"
  using assms div_less_iff_less_mult [of K c "t0 + n + 1"] by simp

lemma flush_loop_returns:
  assumes "clocked H cycles K" "t0 \<le> cycles e div K" "cycles e div K \<le> t0 + unat timeoutMs"
  shows "flush_loop H timeoutMs (of_nat t0) e \<noteq> None"
  using assms(2,3)
proof (induction "(t0 + unat timeoutMs + 1) * K - cycles e" arbitrary: e rule: less_induct)
  case less
  obtain x e1 where tr: "spi_transfer H e 0xFF = (x, e1)" by fastforce
  obtain now e2 where mi: "spi_millis H e1 = (now, e2)" by fastforce
  have n: "unat timeoutMs < 2 ^ 16" using unsigned_less [of timeoutMs, where ?'a = nat] by simp
  note p = wait_pass [OF assms(1) tr mi less.prems n]
  show ?case
  proof (cases "x = 0xFF \<or> \<not> now - of_nat t0 < ucast timeoutMs")
    case True
    then show ?thesis
      by (subst flush_loop.simps) (auto simp: sd_raw_spi_read_def tr mi)
  next
    case False
    then have "unat (now - of_nat t0) < unat timeoutMs"
      by (simp add: word_less_nat_alt)
    then have "cycles e2 div K \<le> t0 + unat timeoutMs" using p by linarith
    moreover have "cycles e < (t0 + unat timeoutMs + 1) * K"
      using clocked_pos [OF assms(1)] less.prems(2) by (rule cycles_bound)
    then have "(t0 + unat timeoutMs + 1) * K - cycles e2 < (t0 + unat timeoutMs + 1) * K - cycles e"
      using p(4) by linarith
    ultimately have "flush_loop H timeoutMs (of_nat t0) e2 \<noteq> None"
      using less.hyps p(2) by blast
    then show ?thesis
      using False by (subst flush_loop.simps) (simp add: sd_raw_spi_read_def tr mi)
  qed
qed

lemma start_block_loop_returns:
  assumes "clocked H cycles K" "t0 \<le> cycles (snd s) div K" "cycles (snd s) div K \<le> t0 + 301"
  shows "start_block_loop H (of_nat t0) s \<noteq> None"
  using assms(2,3)
proof (induction "(t0 + 301 + 1) * K - cycles (snd s)" arbitrary: s rule: less_induct)
  case less
  obtain x e1 where tr: "spi_transfer H (snd s) 0xFF = (x, e1)" by fastforce
  obtain now e2 where mi: "spi_millis H e1 = (now, e2)" by fastforce
  note p = wait_pass [OF assms(1) tr mi less.prems, simplified]
  show ?case
  proof (cases "x = 0xFF \<and> \<not> now - of_nat t0 > 300")
    case False
    then show ?thesis
      by (subst start_block_loop.simps) (auto simp: sd_raw_spi_read_def tr mi Let_def simp del: not_None_eq)
  next
    case True
    then have "unat (now - of_nat t0) \<le> 300" by (simp add: word_less_nat_alt)
    then have "cycles e2 div K \<le> t0 + 301" using p by linarith
    moreover have "cycles (snd s) < (t0 + 301 + 1) * K"
      using clocked_pos [OF assms(1)] less.prems(2) by (rule cycles_bound)
    then have "(t0 + 301 + 1) * K - cycles e2 < (t0 + 301 + 1) * K - cycles (snd s)"
      using p(4) by linarith
    ultimately have "start_block_loop H (of_nat t0) ((fst s)\<lparr>sd_status := x\<rparr>, e2) \<noteq> None"
      using less.hyps [of "((fst s)\<lparr>sd_status := x\<rparr>, e2)"] p(2) by simp
    then show ?thesis
      using True by (subst start_block_loop.simps) (simp add: sd_raw_spi_read_def tr mi Let_def)
  qed
qed

lemma flush_returns:
  assumes "clocked H cycles K"
  shows "sd_raw_flush H timeoutMs e \<noteq> None"
proof -
  obtain now e1 where m: "spi_millis H e = (now, e1)" by fastforce
  note c = clock_millis [OF assms, of e]
  have "cycles e div K \<le> cycles e1 div K" using c(2) m by (simp add: div_le_mono)
  show ?thesis
  proof (cases "timeoutMs = 0")
    case True
    have "flush_loop H timeoutMs now e1 \<noteq> None"
      using True by (subst flush_loop.simps) (simp add: Let_def case_prod_beta del: not_None_eq)
    then show ?thesis by (simp add: sd_raw_flush_def m)
  next
    case False
    then have "0 < unat timeoutMs" by (simp add: unat_gt_0)
    then have "cycles e1 div K \<le> cycles e div K + unat timeoutMs" using c(1) m by simp
    from flush_loop_returns [OF assms \<open>cycles e div K \<le> cycles e1 div K\<close> this] show ?thesis
      using c(3) m by (simp add: sd_raw_flush_def)
  qed
qed

lemma wait_start_block_returns:
  assumes "clocked H cycles K"
  shows "sd_wait_start_block H s \<noteq> None"
proof -
  obtain now e1 where m: "spi_millis H (snd s) = (now, e1)" by fastforce
  note c = clock_millis [OF assms, of "snd s"]
  have "cycles (snd s) div K \<le> cycles e1 div K" using c(2) m by (simp add: div_le_mono)
  moreover have "cycles e1 div K \<le> cycles (snd s) div K + 301" using c(1) m by simp
  ultimately show ?thesis
    using start_block_loop_returns [OF assms, of "cycles (snd s) div K" "(fst s, e1)"] c(3) m
    by (simp add: sd_wait_start_block_def case_prod_beta)
qed

lemma command_returns:
  assumes "clocked H cycles K"
  shows "sd_raw_command H command arg s \<noteq> None"
  using flush_returns [OF assms] by (simp add: sd_raw_command_def bind_eq_None_conv Let_def case_prod_beta)

section \<open>Properties\<close>

text \<open>A block read never leaves the card in the middle of a block, whether it succeeds or fails, so the
  next command finds the bus free.\<close>

lemma read_block_leaves_no_open_block:
  assumes "sd_raw_read_block H block destiny s = Some (ok, destiny', s')"
  shows "\<not> sd_inBlock (fst s')"
  using assms
  by (auto simp: sd_raw_read_block_def sd_raw_read_data_def bind_eq_Some_conv Let_def case_prod_beta
      split: if_splits dest!: read_data_open_state(1) intro: read_end_inBlock)

text \<open>C29: what a failed block read reports. The destination is untouched and the status is the
  code for the command or the general code: the codes for a timeout and for an error token are
  set on the way and then overwritten.\<close>

theorem read_block_error:
  assumes "sd_raw_read_block H block destiny s = Some (False, destiny', s')"
  shows "destiny' = destiny \<and> (sd_status (fst s') = ucast SD_CARD_ERROR_CMD17 \<or>
    sd_status (fst s') = ucast SD_CARD_ERROR_GENERAL)"
  using assms
  by (auto simp: sd_raw_read_block_def sd_raw_read_data_def bind_eq_Some_conv Let_def case_prod_beta
      split: if_splits dest!: read_data_open_state(2))

text \<open>A block read always returns when the clock runs, whatever the card does: every wait has a limit,
  and the destination has room for the block.\<close>

lemma read_block_returns:
  assumes "clocked H cycles K" "length destiny = SD_RAW_BLOCK_SIZE"
  shows "\<exists>ok destiny' s'. sd_raw_read_block H block destiny s = Some (ok, destiny', s')
    \<and> length destiny' = SD_RAW_BLOCK_SIZE"
proof -
  have "read_data_open H block 0 s \<noteq> None"
    using command_returns [OF assms(1)] wait_start_block_returns [OF assms(1)]
    by (auto simp: read_data_open_def bind_eq_None_conv Let_def case_prod_beta simp del: not_None_eq)
  then show ?thesis
    using assms(2)
    by (auto simp: length_spi_reads sd_raw_read_block_def sd_raw_read_data_def mem_write_def Let_def case_prod_beta)
qed

text \<open>A block write always returns when the clock runs.\<close>

lemma write_block_returns:
  assumes "clocked H cycles K" "length source = SD_RAW_BLOCK_SIZE"
  shows "\<exists>ok s'. sd_raw_write_block H block source s = Some (ok, s')"
proof -
  have "sd_raw_write_data H DATA_START_BLOCK source s1 \<noteq> None" for s1
    using assms(2)
    by (simp add: sd_raw_write_data_def mem_read_def Let_def case_prod_beta del: not_None_eq)
  then have "sd_raw_write_block H block source s \<noteq> None"
    using command_returns [OF assms(1)] flush_returns [OF assms(1)]
    by (simp add: sd_raw_write_block_def bind_eq_None_conv Let_def case_prod_beta del: not_None_eq)
  then show ?thesis by auto
qed

lemma clocked_transfers:
  assumes "clocked H cycles K"
  shows "transfers_return (sd_platform H)"
  using read_block_returns [OF assms] write_block_returns [OF assms]
  unfolding transfers_return_def by (fastforce simp: sd_platform_def)

text \<open>C28: the transfers of the driver return whatever the card does or fails to do, as long as the clock
  runs: every wait of a block read or a block write has a limit.\<close>

theorem sd_transfers_return:
  assumes "clocked H cycles K"
  shows "transfers_return (sd_platform H)"
  using assms by (rule clocked_transfers)

text \<open>A successful read delivers the 512 bytes the card sends after the start token of the
  block that was asked for, at the address the card's type calls for.\<close>

lemma read_block_delivers:
  assumes "sd_raw_read_block H block destiny s = Some (True, destiny', s')"
    and "\<not> sd_inBlock (fst s)" "length destiny = SD_RAW_BLOCK_SIZE"
  shows "\<exists>s1 s2. sd_raw_command H CMD17 (sd_address (fst s) block)
        ((fst s)\<lparr>sd_block := block\<rparr>, snd s) = Some (0, s1)
    \<and> sd_wait_start_block H s1 = Some (True, s2)
    \<and> destiny' = fst (spi_reads H SD_RAW_BLOCK_SIZE (snd s2))"
proof -
  obtain s3 where o: "read_data_open H block 0 s = Some (True, s3)"
    and d: "sd_offset (fst s3) = 0 \<Longrightarrow> destiny' = fst (spi_reads H 512 (snd s3))"
    using assms(1,3)
    by (auto simp: sd_raw_read_block_def sd_raw_read_data_def bind_eq_Some_conv mem_write_def
        length_spi_reads Let_def case_prod_beta split: if_splits)
  from read_data_open_ok [OF o assms(2)] d show ?thesis by auto
qed

text \<open>The frame of a command carries the argument in big-endian order between the command
  byte and the checksum.\<close>

lemma command_frame_roundtrip:
  "length (command_frame command arg) = 6 \<and>
   hd (command_frame command arg) = command OR 0x40 \<and>
   u32_at (rev (take 4 (drop 1 (command_frame command arg)))) 0 = arg"
  by (simp add: command_frame_def u32_at_def u32_of_le32)

text \<open>A read into a buffer of one block leaves a buffer of one block.\<close>

lemma read_block_length:
  assumes "length destiny = 512" "sd_raw_read_block H block destiny s = Some (ok, destiny', s')"
  shows "length destiny' = 512"
  using assms
  by (auto simp: sd_raw_read_block_def sd_raw_read_data_def bind_eq_Some_conv Let_def case_prod_beta
      split: if_splits dest!: mem_write_length)

interpretation sized_sd: sized_platform "sd_platform H" for H
  by unfold_locales (auto simp: sd_platform_def dest: read_block_length)

end
