(* ===== verification/Sd_Card.thy ===== *)
theory Sd_Card
  imports Sd_Raw_Props
begin

text \<open>
  The card on the other end of the SPI bus. The driver does not contain the card, so nothing here
  models code of the repository: the theory states, as a step relation, what the SD Physical Layer
  specification documents of a card in SPI mode that works and that is not write protected, for the
  commands the driver sends, and what it means that a world behaves like one (\<open>sd_card\<close>). The relation
  leaves open what the specification leaves open: how long the card takes to answer, to find a block
  and to program one, the checksums it sends, and everything it does on other commands. In SPI mode a
  card checks the checksum of \<^verbatim>\<open>CMD0\<close> and \<^verbatim>\<open>CMD8\<close> only: with a wrong one it may do anything here, and so it
  may on a \<^verbatim>\<open>CMD0\<close> before it has seen 74 clocks while it was not selected. The speed of the bus is not
  part of the relation.
\<close>

section \<open>The card\<close>

text \<open>What never changes: the number of blocks, whether the card counts addresses in blocks (high
  capacity) or bytes, whether it knows version 2 commands, its CSD register, the longest wait in bytes
  and the number of polls it takes to wake up.\<close>

record card_info =
  ci_blocks :: nat
  ci_hc :: bool
  ci_version2 :: bool
  ci_csd :: bytes
  ci_delay :: nat
  ci_polls :: nat

text \<open>Where the card is in the protocol: waiting for a command, in the middle of one, sending bytes
  (and then in another phase), waiting for the token of a block to write, or receiving the block.\<close>

datatype phase = Standby | Frame bytes | Sending bytes phase | Token nat | Data nat bytes

record card =
  card_phase :: phase
  card_selected :: bool
  card_ready :: bool
  card_app :: bool
  card_polls :: nat
  card_clocks :: nat
  card_blocks :: "nat \<Rightarrow> bytes"

definition send :: "bytes \<Rightarrow> phase \<Rightarrow> phase" where
  "send bs p = (if bs = [] then p else Sending bs p)"

text \<open>The block an address names, if there is one.\<close>

definition addressed :: "card_info \<Rightarrow> u32 \<Rightarrow> nat option" where
  "addressed ci arg =
     (if ci_hc ci then if unat arg < ci_blocks ci then Some (unat arg) else None
      else if unat arg mod 512 = 0 \<and> unat arg div 512 < ci_blocks ci then Some (unat arg div 512) else None)"

section \<open>Commands\<close>

text \<open>The checksum of a command: the seven bit CRC of the specification with the polynomial
  $x^7 + x^3 + 1$ over the five bytes in front of it, bit by bit from the most significant one, and the
  end bit.\<close>

definition crc7_step :: "u8 \<Rightarrow> bool \<Rightarrow> u8" where
  "crc7_step crc b = (let shifted = push_bit 1 crc AND 0x7F in if bit crc 6 = b then shifted else shifted XOR 0x09)"

definition frame_crc :: "bytes \<Rightarrow> u8" where
  "frame_crc bs =
     push_bit 1 (foldl crc7_step 0 (concat (map (\<lambda>x. map (bit x) [7, 6, 5, 4, 3, 2, 1, 0]) bs))) OR 0x01"

text \<open>The commands whose effect the relation fixes, in the states in which it does.\<close>

definition specified :: "card \<Rightarrow> u8 \<Rightarrow> u32 \<Rightarrow> bool" where
  "specified c command arg \<longleftrightarrow>
     command = CMD0 \<and> arg = 0 \<and> 74 \<le> 8 * card_clocks c \<or> command = CMD55
     \<or> command = CMD8 \<and> \<not> card_ready c \<and> arg = 0x1AA
     \<or> command = ACMD41 \<and> card_app c \<and> \<not> card_ready c
     \<or> command \<in> {CMD9, CMD13, CMD17, CMD24, CMD58} \<and> card_ready c"

text \<open>An answer with an error bit, and a block of data with its token and checksum.\<close>

definition refusal :: "u8 \<Rightarrow> bool" where
  "refusal r \<longleftrightarrow> r \<noteq> 0 \<and> r AND 0x80 = 0"

definition data_packet :: "card_info \<Rightarrow> bytes \<Rightarrow> bytes \<Rightarrow> bool" where
  "data_packet ci bs packet \<longleftrightarrow>
     (\<exists>m crc. m \<le> ci_delay ci \<and> length crc = 2 \<and> packet = replicate m 0xFF @ [DATA_START_BLOCK] @ bs @ crc)"

text \<open>\<open>card_reply ci c command arg reply p c'\<close>: to a command the card in state \<open>c\<close> sends \<open>reply\<close>, goes to
  phase \<open>p\<close> and is otherwise in state \<open>c'\<close>.\<close>

inductive card_reply :: "card_info \<Rightarrow> card \<Rightarrow> u8 \<Rightarrow> u32 \<Rightarrow> bytes \<Rightarrow> phase \<Rightarrow> card \<Rightarrow> bool" for ci c where
  go_idle: "74 \<le> 8 * card_clocks c \<Longrightarrow> n \<le> ci_polls ci \<Longrightarrow>
    card_reply ci c CMD0 0 [0x01] Standby (c\<lparr>card_ready := False, card_app := False, card_polls := n\<rparr>)"
| send_if_cond: "\<not> card_ready c \<Longrightarrow> ci_version2 ci \<Longrightarrow>
    card_reply ci c CMD8 0x1AA [0x01, 0, 0, 0x01, 0xAA] Standby (c\<lparr>card_app := False\<rparr>)"
| send_if_cond_v1: "\<not> card_ready c \<Longrightarrow> \<not> ci_version2 ci \<Longrightarrow>
    card_reply ci c CMD8 0x1AA [0x05] Standby (c\<lparr>card_app := False\<rparr>)"
| app_cmd: "card_reply ci c CMD55 arg [if card_ready c then 0 else 0x01] Standby (c\<lparr>card_app := True\<rparr>)"
| op_cond_busy: "card_app c \<Longrightarrow> \<not> card_ready c \<Longrightarrow> 0 < card_polls c \<or> ci_hc ci \<and> \<not> bit arg 30 \<Longrightarrow>
    card_reply ci c ACMD41 arg [0x01] Standby (c\<lparr>card_app := False, card_polls := card_polls c - 1\<rparr>)"
| op_cond: "card_app c \<Longrightarrow> \<not> card_ready c \<Longrightarrow> card_polls c = 0 \<Longrightarrow> ci_hc ci \<longrightarrow> bit arg 30 \<Longrightarrow>
    card_reply ci c ACMD41 arg [0] Standby (c\<lparr>card_app := False, card_ready := True\<rparr>)"
| read_ocr: "card_ready c \<Longrightarrow> length ocr = 4 \<Longrightarrow> (ocr ! 0 AND 0xC0 = 0xC0) = ci_hc ci \<Longrightarrow>
    card_reply ci c CMD58 arg ([0] @ ocr) Standby (c\<lparr>card_app := False\<rparr>)"
| send_csd: "card_ready c \<Longrightarrow> data_packet ci (ci_csd ci) packet \<Longrightarrow>
    card_reply ci c CMD9 arg ([0] @ packet) Standby (c\<lparr>card_app := False\<rparr>)"
| send_status: "card_ready c \<Longrightarrow> card_reply ci c CMD13 arg [0, 0] Standby (c\<lparr>card_app := False\<rparr>)"
| read_block: "card_ready c \<Longrightarrow> addressed ci arg = Some k \<Longrightarrow> data_packet ci (card_blocks c k) packet \<Longrightarrow>
    card_reply ci c CMD17 arg ([0] @ packet) Standby (c\<lparr>card_app := False\<rparr>)"
| write_block: "card_ready c \<Longrightarrow> addressed ci arg = Some k \<Longrightarrow>
    card_reply ci c CMD24 arg [0] (Token k) (c\<lparr>card_app := False\<rparr>)"
| bad_address: "card_ready c \<Longrightarrow> addressed ci arg = None \<Longrightarrow> refusal r \<Longrightarrow> command \<in> {CMD17, CMD24} \<Longrightarrow>
    card_reply ci c command arg [r] Standby (c\<lparr>card_app := False\<rparr>)"
| unspecified: "\<not> specified c command arg \<Longrightarrow> card_reply ci c command arg reply p c'"

inductive_simps reply_cmd0: "card_reply ci c 0x00 arg reply p c'"
inductive_simps reply_cmd8: "card_reply ci c 0x08 arg reply p c'"
inductive_simps reply_cmd9: "card_reply ci c 0x09 arg reply p c'"
inductive_simps reply_cmd13: "card_reply ci c 0x0D arg reply p c'"
inductive_simps reply_cmd17: "card_reply ci c 0x11 arg reply p c'"
inductive_simps reply_cmd24: "card_reply ci c 0x18 arg reply p c'"
inductive_simps reply_cmd55: "card_reply ci c 0x37 arg reply p c'"
inductive_simps reply_cmd58: "card_reply ci c 0x3A arg reply p c'"
inductive_simps reply_acmd41: "card_reply ci c 0x29 arg reply p c'"

section \<open>Bytes\<close>

text \<open>The argument of a command: its bytes come with the most significant first.\<close>

definition frame_arg :: "bytes \<Rightarrow> u32" where
  "frame_arg bs = u32_at (rev (take 4 (drop 1 bs))) 0"

text \<open>\<open>card_step ci c b out c'\<close>: while the byte \<open>b\<close> is shifted to the card, the card shifts \<open>out\<close> to the
  host. A card that is not selected ignores the bus, except that it counts the bytes it is clocked with
  while the line to it is high. An answer starts at most eight bytes after the
  command; while it programs a block the card holds the line low.\<close>

inductive card_step :: "card_info \<Rightarrow> card \<Rightarrow> u8 \<Rightarrow> u8 \<Rightarrow> card \<Rightarrow> bool" for ci c where
  deselected: "\<not> card_selected c \<Longrightarrow> 
    card_step ci c b out (if b = 0xFF then c\<lparr>card_clocks := card_clocks c + 1\<rparr> else c)"
| standby: "card_selected c \<Longrightarrow> card_phase c = Standby \<Longrightarrow> b AND 0xC0 \<noteq> 0x40 \<Longrightarrow> card_step ci c b 0xFF c"
| first: "card_selected c \<Longrightarrow> card_phase c = Standby \<Longrightarrow> b AND 0xC0 = 0x40 \<Longrightarrow>
    card_step ci c b 0xFF (c\<lparr>card_phase := Frame [b]\<rparr>)"
| frame: "card_selected c \<Longrightarrow> card_phase c = Frame bs \<Longrightarrow> length bs < 5 \<Longrightarrow>
    card_step ci c b 0xFF (c\<lparr>card_phase := Frame (bs @ [b])\<rparr>)"
| bad_crc: "card_selected c \<Longrightarrow> card_phase c = Frame bs \<Longrightarrow> \<not> length bs < 5 \<Longrightarrow>
    bs ! 0 AND 0x3F \<in> {CMD0, CMD8} \<Longrightarrow> b \<noteq> frame_crc bs \<Longrightarrow> card_step ci c b out c'"
| execute: "card_selected c \<Longrightarrow> card_phase c = Frame bs \<Longrightarrow> \<not> length bs < 5 \<Longrightarrow>
    bs ! 0 AND 0x3F \<in> {CMD0, CMD8} \<longrightarrow> b = frame_crc bs \<Longrightarrow>
    card_reply ci c (bs ! 0 AND 0x3F) (frame_arg bs) reply p c' \<Longrightarrow> n \<le> 8 \<Longrightarrow>
    card_step ci c b 0xFF (c'\<lparr>card_phase := send (replicate n 0xFF @ reply) p\<rparr>)"
| sending: "card_selected c \<Longrightarrow> card_phase c = Sending (x # xs) p \<Longrightarrow>
    card_step ci c b x (c\<lparr>card_phase := send xs p\<rparr>)"
| silent: "card_selected c \<Longrightarrow> card_phase c = Sending [] p \<Longrightarrow> card_step ci c b out c"
| no_token: "card_selected c \<Longrightarrow> card_phase c = Token k \<Longrightarrow> b \<noteq> DATA_START_BLOCK \<Longrightarrow> card_step ci c b 0xFF c"
| token: "card_selected c \<Longrightarrow> card_phase c = Token k \<Longrightarrow> b = DATA_START_BLOCK \<Longrightarrow>
    card_step ci c b 0xFF (c\<lparr>card_phase := Data k []\<rparr>)"
| data: "card_selected c \<Longrightarrow> card_phase c = Data k bs \<Longrightarrow> length bs < 513 \<Longrightarrow>
    card_step ci c b 0xFF (c\<lparr>card_phase := Data k (bs @ [b])\<rparr>)"
| program: "card_selected c \<Longrightarrow> card_phase c = Data k bs \<Longrightarrow> \<not> length bs < 513 \<Longrightarrow>
    r AND DATA_RES_MASK = DATA_RES_ACCEPTED \<Longrightarrow> length busy \<le> ci_delay ci \<Longrightarrow> 0xFF \<notin> set busy \<Longrightarrow>
    card_step ci c b 0xFF (c\<lparr>card_phase := Sending (r # busy) Standby,
      card_blocks := (card_blocks c)(k := take 512 bs)\<rparr>)"

inductive_cases card_stepE: "card_step ci c b out c'"

section \<open>A world with a card in it\<close>

text \<open>
  \<open>sd_card H ci cs view cycles K u\<close>: the world behind the calls in \<open>H\<close> holds a card \<open>view e\<close> that is selected
  by the pin \<open>cs\<close>, and a clock. \<open>cycles\<close> counts the time in units of which a millisecond has \<open>K\<close>; no
  call takes longer than \<open>u\<close> units, and the longest wait of the card stays below 250 milliseconds, the
  limit the specification gives for writing.
\<close>

definition sd_card ::
  "'e spi \<Rightarrow> card_info \<Rightarrow> u8 \<Rightarrow> ('e \<Rightarrow> card) \<Rightarrow> ('e \<Rightarrow> nat) \<Rightarrow> nat \<Rightarrow> nat \<Rightarrow> bool" where
  "sd_card H ci cs view cycles K u \<longleftrightarrow>
     (\<forall>e b. card_step ci (view e) b (fst (spi_transfer H e b)) (view (snd (spi_transfer H e b)))
        \<and> cycles e \<le> cycles (snd (spi_transfer H e b)) \<and> cycles (snd (spi_transfer H e b)) \<le> cycles e + u)
     \<and> (\<forall>e. view (snd (spi_millis H e)) = view e \<and> fst (spi_millis H e) = of_nat (cycles e div K)
        \<and> cycles e \<le> cycles (snd (spi_millis H e)) \<and> cycles (snd (spi_millis H e)) \<le> cycles e + u)
     \<and> (\<forall>e m. view (snd (spi_random H e m)) = view e)
     \<and> (\<forall>e pin v. view (spi_digitalWrite H e pin v) =
          (if pin = cs then (view e)\<lparr>card_selected := \<not> v\<rparr> else view e)
        \<and> cycles e \<le> cycles (spi_digitalWrite H e pin v) \<and> cycles (spi_digitalWrite H e pin v) \<le> cycles e + u)
     \<and> (\<forall>e pin. view (spi_pinModeOutput H e pin) = view e)
     \<and> (\<forall>e. view (spi_begin H e) = view e) \<and> (\<forall>e d. view (spi_setClockDivider H e d) = view e)
     \<and> 0 < K \<and> 2 * u * (ci_delay ci + 2) \<le> 250 * K"

end
