(* ===== verification/Sd_Card_Props.thy ===== *)
theory Sd_Card_Props
  imports Sd_Card
begin

text \<open>
  The SPI driver at work on a card: every command, block read and block write of \<^verbatim>\<open>sd_raw.cpp\<close> against
  the step relation of the specification.
\<close>

section \<open>One byte\<close>

lemma card_transfer:
  assumes "sd_card H ci cs view cycles K u"
  shows "card_step ci (view e) b (fst (spi_transfer H e b)) (view (snd (spi_transfer H e b)))"
    "cycles e \<le> cycles (snd (spi_transfer H e b))" "cycles (snd (spi_transfer H e b)) \<le> cycles e + u"
  using assms by (simp_all add: sd_card_def)

lemma card_millis:
  assumes "sd_card H ci cs view cycles K u"
  shows "view (snd (spi_millis H e)) = view e" "fst (spi_millis H e) = of_nat (cycles e div K)"
    "cycles e \<le> cycles (snd (spi_millis H e))" "cycles (snd (spi_millis H e)) \<le> cycles e + u"
  using assms by (simp_all add: sd_card_def)

lemma card_select:
  assumes "sd_card H ci cs view cycles K u"
  shows "view (spi_digitalWrite H e cs v) = (view e)\<lparr>card_selected := \<not> v\<rparr>"
    "cycles e \<le> cycles (spi_digitalWrite H e cs v)" "cycles (spi_digitalWrite H e cs v) \<le> cycles e + u"
  using assms by (simp_all add: sd_card_def)

lemma card_times:
  assumes "sd_card H ci cs view cycles K u"
  shows "0 < K" "2 * u * (ci_delay ci + 2) \<le> 250 * K"
  using assms by (simp_all add: sd_card_def)

lemma send_Cons [simp]: "send (x # xs) p = Sending (x # xs) p"
  by (simp add: send_def)

lemma send_Nil [simp]: "send [] p = p"
  by (simp add: send_def)

text \<open>What a selected card does in each phase.\<close>

lemma step_sending:
  assumes "card_step ci c b out c'" "card_selected c" "card_phase c = Sending (x # xs) p"
  shows "out = x" "c' = c\<lparr>card_phase := send xs p\<rparr>"
  using assms by (auto elim!: card_stepE)

lemma step_standby:
  assumes "card_step ci c b out c'" "card_selected c" "card_phase c = Standby"
  shows "out = 0xFF" "c' = (if b AND 0xC0 = 0x40 then c\<lparr>card_phase := Frame [b]\<rparr> else c)"
  using assms by (auto elim!: card_stepE)

lemma step_frame:
  assumes "card_step ci c b out c'" "card_selected c" "card_phase c = Frame bs" "length bs < 5"
  shows "c' = c\<lparr>card_phase := Frame (bs @ [b])\<rparr>"
  using assms by (auto elim!: card_stepE)

lemma step_execute:
  assumes "card_step ci c b out c'" "card_selected c" "card_phase c = Frame bs" "length bs = 5"
    and "bs ! 0 AND 0x3F \<in> {CMD0, CMD8} \<longrightarrow> b = frame_crc bs"
  shows "\<exists>reply p c1 n. card_reply ci c (bs ! 0 AND 0x3F) (frame_arg bs) reply p c1 \<and> n \<le> 8
    \<and> c' = c1\<lparr>card_phase := send (replicate n 0xFF @ reply) p\<rparr>"
  using assms by (elim card_stepE) (simp_all, blast)

lemma step_token:
  assumes "card_step ci c 0xFE out c'" "card_selected c" "card_phase c = Token k"
  shows "c' = c\<lparr>card_phase := Data k []\<rparr>"
  using assms by (auto elim!: card_stepE)

lemma step_data:
  assumes "card_step ci c b out c'" "card_selected c" "card_phase c = Data k bs" "length bs < 513"
  shows "c' = c\<lparr>card_phase := Data k (bs @ [b])\<rparr>"
  using assms by (auto elim!: card_stepE)

lemma step_program:
  assumes "card_step ci c b out c'" "card_selected c" "card_phase c = Data k bs" "length bs = 513"
  shows "\<exists>r busy. r AND 0x1F = 0x05 \<and> length busy \<le> ci_delay ci \<and> 0xFF \<notin> set busy
    \<and> c' = c\<lparr>card_phase := Sending (r # busy) Standby, card_blocks := (card_blocks c)(k := take 512 bs)\<rparr>"
  using assms by (elim card_stepE) (simp_all, blast)

section \<open>Many bytes\<close>

lemma reads_sending:
  assumes "sd_card H ci cs view cycles K u" "card_selected c"
    and "view e = c\<lparr>card_phase := send (bs @ rest) p\<rparr>"
  obtains e' where "spi_reads H (length bs) e = (bs, e')" "view e' = c\<lparr>card_phase := send rest p\<rparr>"
    "cycles e \<le> cycles e'" "cycles e' \<le> cycles e + u * length bs"
  using assms(3)
proof (induction bs arbitrary: e thesis)
  case Nil
  then show ?case by simp
next
  case (Cons b bs)
  obtain e1 where e1: "spi_transfer H e 0xFF = (b, e1)" "view e1 = c\<lparr>card_phase := send (bs @ rest) p\<rparr>"
    using step_sending [OF card_transfer(1) [OF assms(1), of e "0xFF"]] Cons.prems(2) assms(2)
    by (cases "spi_transfer H e 0xFF") simp
  note t = card_transfer(2,3) [OF assms(1), of e "0xFF", unfolded e1(1)]
  obtain e2 where "spi_reads H (length bs) e1 = (bs, e2)" "view e2 = c\<lparr>card_phase := send rest p\<rparr>"
    "cycles e1 \<le> cycles e2" "cycles e2 \<le> cycles e1 + u * length bs"
    using Cons.IH [OF _ e1(2)] by blast
  then show ?case using e1(1) t by (intro Cons.prems(1) [of e2]) (simp_all add: sd_raw_spi_read_def)
qed

lemma writes_frame:
  assumes "sd_card H ci cs view cycles K u" "card_selected c"
    and "view e = c\<lparr>card_phase := Frame acc\<rparr>" "length acc + length bs \<le> 5"
  shows "view (spi_writes H bs e) = c\<lparr>card_phase := Frame (acc @ bs)\<rparr>"
  using assms(3,4)
proof (induction bs arbitrary: e acc)
  case (Cons b bs)
  have "view (snd (spi_transfer H e b)) = c\<lparr>card_phase := Frame (acc @ [b])\<rparr>"
    using step_frame [OF card_transfer(1) [OF assms(1), of e b]] Cons.prems assms(2) by simp
  from Cons.IH [OF this] Cons.prems(2) show ?case
    by (simp add: spi_writes_def sd_raw_spi_write_def)
qed (simp add: spi_writes_def)

lemma writes_data:
  assumes "sd_card H ci cs view cycles K u" "card_selected c"
    and "view e = c\<lparr>card_phase := Data k acc\<rparr>" "length acc + length bs \<le> 513"
  shows "view (spi_writes H bs e) = c\<lparr>card_phase := Data k (acc @ bs)\<rparr>"
  using assms(3,4)
proof (induction bs arbitrary: e acc)
  case (Cons b bs)
  have "view (snd (spi_transfer H e b)) = c\<lparr>card_phase := Data k (acc @ [b])\<rparr>"
    using step_data [OF card_transfer(1) [OF assms(1), of e b]] Cons.prems assms(2) by simp
  from Cons.IH [OF this] Cons.prems(2) show ?case
    by (simp add: spi_writes_def sd_raw_spi_write_def)
qed (simp add: spi_writes_def)

lemma spi_writes_append: "spi_writes H (xs @ ys) e = spi_writes H ys (spi_writes H xs e)"
  by (simp add: spi_writes_def)

lemma spi_writes_Cons: "spi_writes H (x # xs) e = spi_writes H xs (snd (spi_transfer H e x))"
  by (simp add: spi_writes_def sd_raw_spi_write_def)

lemma writes_cycles:
  assumes "sd_card H ci cs view cycles K u"
  shows "cycles e \<le> cycles (spi_writes H bs e) \<and> cycles (spi_writes H bs e) \<le> cycles e + u * length bs"
proof (induction bs arbitrary: e)
  case (Cons b bs)
  from Cons.IH [of "snd (spi_transfer H e b)"] card_transfer(2,3) [OF assms, of e b] show ?case
    unfolding spi_writes_Cons by simp
qed (simp add: spi_writes_def)

section \<open>Waiting\<close>

text \<open>Whether the time limit of a loop is over, as the driver computes it.\<close>

lemma elapsed_millis:
  assumes "sd_card H ci cs view cycles K u" "t0 \<le> cycles e div K" "cycles e < (t0 + n) * K" "n < 2 ^ 32"
  shows "unat (fst (spi_millis H e) - of_nat t0) < n"
proof -
  have "cycles e div K < t0 + n"
    using assms(3) card_times(1) [OF assms(1)] by (simp add: div_less_iff_less_mult)
  then show ?thesis
    using assms(2,4) elapsed [of t0 "cycles e div K"] card_millis(2) [OF assms(1), of e] by simp
qed

text \<open>A busy card keeps the driver waiting, and then the line is high again.\<close>

lemma flush_loop_busy:
  assumes "sd_card H ci cs view cycles K u" "card_selected c" "0xFF \<notin> set busy"
    and "view e = c\<lparr>card_phase := send busy Standby\<rparr>" "t0 \<le> cycles e div K"
    and "cycles e + 2 * u * length busy < (t0 + unat timeout) * K"
  obtains e' where "flush_loop H timeout (of_nat t0) e = Some (True, e')"
    "view e' = c\<lparr>card_phase := Standby\<rparr>" "cycles e \<le> cycles e'" "cycles e' \<le> cycles e + 2 * u * length busy + u"
  using assms(3-6)
proof (induction busy arbitrary: e thesis)
  case Nil
  obtain x e1 where tr: "spi_transfer H e 0xFF = (x, e1)" by (cases "spi_transfer H e 0xFF")
  have "x = 0xFF" "view e1 = c\<lparr>card_phase := Standby\<rparr>"
    using step_standby [OF card_transfer(1) [OF assms(1), of e "0xFF"]] Nil.prems(3) assms(2) tr by simp_all
  then show ?case
    using card_transfer(2,3) [OF assms(1), of e "0xFF"] tr
    by (intro Nil.prems(1) [of e1]) (simp_all add: flush_loop.simps sd_raw_spi_read_def)
next
  case (Cons b busy)
  obtain e1 where tr: "spi_transfer H e 0xFF = (b, e1)" and v1: "view e1 = c\<lparr>card_phase := send busy Standby\<rparr>"
    using step_sending [OF card_transfer(1) [OF assms(1), of e "0xFF"]] Cons.prems(3) assms(2)
    by (cases "spi_transfer H e 0xFF") simp
  obtain now e2 where mi: "spi_millis H e1 = (now, e2)" by (cases "spi_millis H e1")
  note t = card_transfer(2,3) [OF assms(1), of e "0xFF"] card_millis [OF assms(1), of e1]
  have c1: "cycles e \<le> cycles e1" "cycles e1 \<le> cycles e + u" "cycles e1 \<le> cycles e2" "cycles e2 \<le> cycles e1 + u"
    and v2: "view e2 = c\<lparr>card_phase := send busy Standby\<rparr>"
    using t tr mi v1 by simp_all
  have d: "t0 \<le> cycles e1 div K" "t0 \<le> cycles e2 div K"
    using Cons.prems(4) c1 div_le_mono [of "cycles e" "cycles e1" K] div_le_mono [of "cycles e" "cycles e2" K] by simp_all
  have n: "unat timeout < 2 ^ 32" using unsigned_less [of timeout, where ?'a = nat] by simp
  have "cycles e1 < (t0 + unat timeout) * K" using Cons.prems(5) c1 by simp
  then have go: "now - of_nat t0 < ucast timeout"
    using elapsed_millis [OF assms(1) d(1) _ n] mi by (simp add: word_less_nat_alt)
  have "cycles e2 + 2 * u * length busy < (t0 + unat timeout) * K" using Cons.prems(5) c1 by simp
  then obtain e3 where "flush_loop H timeout (of_nat t0) e2 = Some (True, e3)"
    "view e3 = c\<lparr>card_phase := Standby\<rparr>" "cycles e2 \<le> cycles e3" "cycles e3 \<le> cycles e2 + 2 * u * length busy + u"
    using Cons.IH [OF _ _ v2 d(2)] Cons.prems(2) by auto
  then show ?case
    using Cons.prems(2) tr mi go c1
    by (intro Cons.prems(1) [of e3]) (simp_all add: flush_loop.simps [of _ _ _ e] sd_raw_spi_read_def)
qed

text \<open>The room a wait of the longest length leaves before a limit of 300 milliseconds.\<close>

lemma wait_room:
  assumes "sd_card H ci cs view cycles K u" "m \<le> ci_delay ci" "cycles e1 \<le> cycles e + u"
  shows "cycles e1 + 2 * u * m < (cycles e div K + 300) * K"
proof -
  have "2 * u * m \<le> 2 * u * ci_delay ci" using assms(2) by simp
  moreover have "2 * u * ci_delay ci + 4 * u \<le> 250 * K"
    using card_times(2) [OF assms(1)] by (simp add: algebra_simps)
  moreover have "cycles e < (cycles e div K + 1) * K"
    using card_times(1) [OF assms(1)] by (metis dividend_less_div_times mult.commute add.commute mult_Suc_right Suc_eq_plus1)
  ultimately show ?thesis using assms(3) unfolding add_mult_distrib by linarith
qed

lemma flush_ok:
  assumes "sd_card H ci cs view cycles K u" "card_selected c" "0xFF \<notin> set busy"
    and "length busy \<le> ci_delay ci" "view e = c\<lparr>card_phase := send busy Standby\<rparr>" "300 \<le> unat timeout"
  obtains e' where "sd_raw_flush H timeout e = Some (True, e')" "view e' = c\<lparr>card_phase := Standby\<rparr>"
    "cycles e \<le> cycles e'" "cycles e' \<le> cycles e + 2 * u * length busy + 2 * u"
proof -
  obtain now e1 where mi: "spi_millis H e = (now, e1)" by (cases "spi_millis H e")
  note t = card_millis [OF assms(1), of e, unfolded mi fst_conv snd_conv]
  have v: "view e1 = c\<lparr>card_phase := send busy Standby\<rparr>" using t(1) assms(5) by simp
  have d: "cycles e div K \<le> cycles e1 div K" using t(3) by (rule div_le_mono)
  have "(cycles e div K + 300) * K \<le> (cycles e div K + unat timeout) * K"
    using assms(6) by (intro mult_le_mono1) simp
  with wait_room [OF assms(1,4) t(4)] have "cycles e1 + 2 * u * length busy < (cycles e div K + unat timeout) * K"
    by (rule less_le_trans)
  from flush_loop_busy [OF assms(1-3) v d this] obtain e' where
    "flush_loop H timeout (of_nat (cycles e div K)) e1 = Some (True, e')" "view e' = c\<lparr>card_phase := Standby\<rparr>"
    "cycles e1 \<le> cycles e'" "cycles e' \<le> cycles e1 + 2 * u * length busy + u" by blast
  then show thesis using t by (intro that [of e']) (simp_all add: sd_raw_flush_def mi)
qed


lemma start_block_loop_found:
  assumes "sd_card H ci cs view cycles K u" "card_selected c"
    and "view e = c\<lparr>card_phase := send (replicate m 0xFF @ 0xFE # rest) p\<rparr>" "t0 \<le> cycles e div K"
    and "cycles e + 2 * u * m < (t0 + 300) * K"
  obtains e' where "start_block_loop H (of_nat t0) (sd, e) = Some (True, sd\<lparr>sd_status := 0xFE\<rparr>, e')"
    "view e' = c\<lparr>card_phase := send rest p\<rparr>"
  using assms(3-5)
proof (induction m arbitrary: sd e thesis)
  case 0
  obtain e1 where tr: "spi_transfer H e 0xFF = (0xFE, e1)" "view e1 = c\<lparr>card_phase := send rest p\<rparr>"
    using step_sending [OF card_transfer(1) [OF assms(1), of e "0xFF"]] 0(2) assms(2)
    by (cases "spi_transfer H e 0xFF") simp
  then show ?case by (intro 0(1) [of e1]) (simp_all add: start_block_loop.simps sd_raw_spi_read_def)
next
  case (Suc m)
  obtain e1 where tr: "spi_transfer H e 0xFF = (0xFF, e1)"
    and v1: "view e1 = c\<lparr>card_phase := send (replicate m 0xFF @ 0xFE # rest) p\<rparr>"
    using step_sending [OF card_transfer(1) [OF assms(1), of e "0xFF"]] Suc.prems(2) assms(2)
    by (cases "spi_transfer H e 0xFF") simp
  obtain now e2 where mi: "spi_millis H e1 = (now, e2)" by (cases "spi_millis H e1")
  note t = card_transfer(2,3) [OF assms(1), of e "0xFF"] card_millis [OF assms(1), of e1]
  have c1: "cycles e \<le> cycles e1" "cycles e1 \<le> cycles e + u" "cycles e1 \<le> cycles e2" "cycles e2 \<le> cycles e1 + u"
    and v2: "view e2 = c\<lparr>card_phase := send (replicate m 0xFF @ 0xFE # rest) p\<rparr>"
    using t tr mi v1 by simp_all
  have d: "t0 \<le> cycles e1 div K" "t0 \<le> cycles e2 div K"
    using Suc.prems(3) c1 div_le_mono [of "cycles e" "cycles e1" K] div_le_mono [of "cycles e" "cycles e2" K] by simp_all
  have "cycles e1 < (t0 + 300) * K" using Suc.prems(4) c1 by simp
  then have go: "\<not> now - of_nat t0 > 300"
    using elapsed_millis [OF assms(1) d(1), of 300] mi by (simp add: word_less_nat_alt)
  have "cycles e2 + 2 * u * m < (t0 + 300) * K" using Suc.prems(4) c1 by simp
  then obtain e3 where "start_block_loop H (of_nat t0) (sd\<lparr>sd_status := 0xFF\<rparr>, e2) =
      Some (True, sd\<lparr>sd_status := 0xFE\<rparr>, e3)" "view e3 = c\<lparr>card_phase := send rest p\<rparr>"
    using Suc.IH [OF _ v2 d(2), of "sd\<lparr>sd_status := 0xFF\<rparr>"] by auto
  then show ?case
    using tr mi go
    by (intro Suc.prems(1) [of e3]) (simp_all add: start_block_loop.simps [of _ _ "(sd, e)"] sd_raw_spi_read_def)
qed

lemma wait_start_block_ok:
  assumes "sd_card H ci cs view cycles K u" "card_selected c" "data_packet ci bs packet"
    and "view e = c\<lparr>card_phase := send packet p\<rparr>"
  obtains e' crc where "sd_wait_start_block H (sd, e) = Some (True, sd\<lparr>sd_status := 0xFE\<rparr>, e')"
    "view e' = c\<lparr>card_phase := send (bs @ crc) p\<rparr>" "length crc = 2"
proof -
  obtain m crc where m: "m \<le> ci_delay ci" "length crc = 2" "packet = replicate m 0xFF @ [0xFE] @ bs @ crc"
    using assms(3) by (auto simp: data_packet_def)
  obtain now e1 where mi: "spi_millis H e = (now, e1)" by (cases "spi_millis H e")
  note t = card_millis [OF assms(1), of e, unfolded mi fst_conv snd_conv]
  have v: "view e1 = c\<lparr>card_phase := send (replicate m 0xFF @ 0xFE # bs @ crc) p\<rparr>" using t(1) assms(4) m(3) by simp
  have d: "cycles e div K \<le> cycles e1 div K" using t(3) by (rule div_le_mono)
  from start_block_loop_found [OF assms(1,2) v d wait_room [OF assms(1) m(1) t(4)], of sd]
  obtain e' where "start_block_loop H (of_nat (cycles e div K)) (sd, e1) = Some (True, sd\<lparr>sd_status := 0xFE\<rparr>, e')"
    "view e' = c\<lparr>card_phase := send (bs @ crc) p\<rparr>" by blast
  then show thesis using t m(2) by (intro that [of e' crc]) (simp_all add: sd_wait_start_block_def mi)
qed

section \<open>Commands\<close>

lemma response_loop_answer:
  assumes "sd_card H ci cs view cycles K u" "card_selected c" "r AND 0x80 = 0"
    and "view e = c\<lparr>card_phase := send (replicate n 0xFF @ r # rest) p\<rparr>" "unat i + n < 256"
  obtains e' where "response_loop H i e = (r, e')" "view e' = c\<lparr>card_phase := send rest p\<rparr>"
    "cycles e \<le> cycles e'" "cycles e' \<le> cycles e + u * (n + 1)"
  using assms(4,5)
proof (induction n arbitrary: i e thesis)
  case 0
  obtain e1 where tr: "spi_transfer H e 0xFF = (r, e1)" "view e1 = c\<lparr>card_phase := send rest p\<rparr>"
    using step_sending [OF card_transfer(1) [OF assms(1), of e "0xFF"]] 0(2) assms(2)
    by (cases "spi_transfer H e 0xFF") simp
  then show ?case
    using card_transfer(2,3) [OF assms(1), of e "0xFF"] assms(3)
    by (intro 0(1) [of e1]) (simp_all add: response_loop.simps sd_raw_spi_read_def)
next
  case (Suc n)
  obtain e1 where tr: "spi_transfer H e 0xFF = (0xFF, e1)"
    and v1: "view e1 = c\<lparr>card_phase := send (replicate n 0xFF @ r # rest) p\<rparr>"
    using step_sending [OF card_transfer(1) [OF assms(1), of e "0xFF"]] Suc.prems(2) assms(2)
    by (cases "spi_transfer H e 0xFF") simp
  have i: "i \<noteq> 0xFF" using Suc.prems(3) by auto
  then have "unat (i + 1) + n < 256" using Suc.prems(3) u8_advance(1) by simp
  then obtain e2 where "response_loop H (i + 1) e1 = (r, e2)" "view e2 = c\<lparr>card_phase := send rest p\<rparr>"
    "cycles e1 \<le> cycles e2" "cycles e2 \<le> cycles e1 + u * (n + 1)"
    using Suc.IH [OF _ v1] by blast
  then show ?case
    using card_transfer(2,3) [OF assms(1), of e "0xFF"] tr i
    by (intro Suc.prems(1) [of e2]) (simp_all add: response_loop.simps [of _ i e] sd_raw_spi_read_def)
qed

lemma reply_answer:
  assumes "card_reply ci c command arg reply p c'" "specified c command arg"
  shows "\<exists>r rest. reply = r # rest \<and> r AND 0x80 = 0" "card_selected c' = card_selected c"
  using assms by (auto elim!: card_reply.cases simp: refusal_def)

lemma specified_upd [simp]:
  "specified (c\<lparr>card_phase := p\<rparr>) command arg = specified c command arg"
  "specified (c\<lparr>card_selected := v\<rparr>) command arg = specified c command arg"
  by (simp_all add: specified_def)

text \<open>The checksums the driver sends are those of the two commands.\<close>

lemma frame_crc_go_idle: "frame_crc [0x40, 0, 0, 0, 0] = 0x95"
  by (simp add: frame_crc_def crc7_step_def)

lemma frame_crc_if_cond: "frame_crc [0x48, 0, 0, 0x01, 0x1AA] = 0x87"
  by (simp add: frame_crc_def crc7_step_def)

text \<open>A command in a state that the specification covers: the card takes the frame and the driver gets
  the first byte of the answer.\<close>

lemma frame_first:
  assumes "specified c command arg"
  shows "(command OR 0x40) AND 0xC0 = 0x40" "(command OR 0x40) AND 0x3F = command"
  using assms by (auto simp: specified_def)

lemma writes_command:
  assumes C: "sd_card H ci cs view cycles K u" and sel: "card_selected c" and sp: "specified c command arg"
    and e: "view e = c\<lparr>card_phase := Standby\<rparr>"
  obtains reply p c' n bs where "card_reply ci (c\<lparr>card_phase := Frame bs\<rparr>) command arg reply p c'" "n \<le> 8"
    "view (spi_writes H (command_frame command arg) e) = c'\<lparr>card_phase := send (replicate n 0xFF @ reply) p\<rparr>"
proof -
  let ?args = "map (\<lambda>s. ucast (drop_bit s arg)) [24, 16, 8, 0] :: bytes"
  let ?bs = "(command OR 0x40) # ?args"
  define crc :: u8 where "crc = (if command = CMD8 then 0x87 else if command = CMD0 then 0x95 else 0xFF)"
  let ?e4 = "spi_writes H ?bs e"
  have "view (snd (spi_transfer H e (command OR 0x40))) = c\<lparr>card_phase := Frame [command OR 0x40]\<rparr>"
    using step_standby [OF card_transfer(1) [OF C, of e "command OR 0x40"]] e sel frame_first(1) [OF sp] by simp
  from writes_frame [OF C _ this, of ?args] have v4: "view ?e4 = c\<lparr>card_phase := Frame ?bs\<rparr>"
    using sel by (simp add: spi_writes_Cons)
  have arg: "frame_arg ?bs = arg" by (simp add: frame_arg_def u32_at_def u32_of_le32)
  have crc: "?bs ! 0 AND 0x3F \<in> {CMD0, CMD8} \<longrightarrow> crc = frame_crc ?bs"
    using sp frame_first(2) [OF sp] by (auto simp: specified_def crc_def frame_crc_go_idle frame_crc_if_cond)
  obtain reply p c' n where "card_reply ci (c\<lparr>card_phase := Frame ?bs\<rparr>) command arg reply p c'" "n \<le> 8"
    "view (snd (spi_transfer H ?e4 crc)) = c'\<lparr>card_phase := send (replicate n 0xFF @ reply) p\<rparr>"
    using step_execute [OF card_transfer(1) [OF C, of ?e4 crc], of ?bs] v4 sel frame_first(2) [OF sp] arg crc by auto
  moreover have "spi_writes H (command_frame command arg) e = snd (spi_transfer H ?e4 crc)"
    by (simp add: command_frame_def crc_def [symmetric] spi_writes_append spi_writes_Cons spi_writes_def [of _ "[]"])
  ultimately show thesis by (intro that) simp_all
qed

lemma command_ok:
  assumes C: "sd_card H ci cs view cycles K u" and sd: "\<not> sd_inBlock sd" "sd_cs sd = cs"
    and e: "card_phase (view e) = Standby" and sp: "specified (view e) command arg"
  obtains r rest p c' bs e' where
    "card_reply ci ((view e)\<lparr>card_selected := True, card_phase := Frame bs\<rparr>) command arg (r # rest) p c'"
    "sd_raw_command H command arg (sd, e) = Some (r, sd\<lparr>sd_status := r\<rparr>, e')"
    "view e' = c'\<lparr>card_phase := send rest p\<rparr>" "card_selected c'"
    "cycles e \<le> cycles e'" "cycles e' \<le> cycles e + 18 * u"
proof -
  let ?c = "(view e)\<lparr>card_selected := True\<rparr>"
  let ?e1 = "spi_digitalWrite H e cs False"
  have v1: "view ?e1 = ?c\<lparr>card_phase := send [] Standby\<rparr>" using card_select(1) [OF C, of e False] e by simp
  note t1 = card_select(2,3) [OF C, of e False]
  obtain e2 where f: "sd_raw_flush H 300 ?e1 = Some (True, e2)" "view e2 = ?c\<lparr>card_phase := Standby\<rparr>"
    and t2: "cycles ?e1 \<le> cycles e2" "cycles e2 \<le> cycles ?e1 + 2 * u"
    using flush_ok [OF C _ _ _ v1, of 300] by auto
  let ?e5 = "spi_writes H (command_frame command arg) e2"
  have "card_selected ?c" "specified ?c command arg" using sp by simp_all
  then obtain reply p c' n bs where r: "card_reply ci (?c\<lparr>card_phase := Frame bs\<rparr>) command arg reply p c'" "n \<le> 8"
    and v5: "view ?e5 = c'\<lparr>card_phase := send (replicate n 0xFF @ reply) p\<rparr>"
    using writes_command [OF C _ _ f(2)] by metis
  obtain r1 rest where a: "reply = r1 # rest" "r1 AND 0x80 = 0" and sel: "card_selected c'"
    using reply_answer [OF r(1)] sp by auto
  have "unat (0 :: u8) + n < 256" using r(2) by simp
  then obtain e6 where l: "response_loop H 0 ?e5 = (r1, e6)" "view e6 = c'\<lparr>card_phase := send rest p\<rparr>"
    and t6: "cycles ?e5 \<le> cycles e6" "cycles e6 \<le> cycles ?e5 + u * (n + 1)"
    using response_loop_answer [OF C sel a(2) v5 [unfolded a(1)]] by blast
  have "sd_raw_command H command arg (sd, e) = Some (r1, sd\<lparr>sd_status := r1\<rparr>, e6)"
    using sd f(1) l(1) by (simp add: sd_raw_command_def sd_raw_read_end_def sd_raw_cs_low_def)
  moreover have t5: "cycles e2 \<le> cycles ?e5" "cycles ?e5 \<le> cycles e2 + 6 * u"
    using writes_cycles [OF C, of e2 "command_frame command arg"] by (simp_all add: command_frame_def)
  moreover have "u * (n + 1) \<le> u * 9" using r(2) by (intro mult_le_mono2) simp
  then have "cycles e6 \<le> cycles e + 18 * u" using t1 t2 t5 t6 by linarith
  ultimately show thesis
    using r(1) a(1) l(2) sel t1 t2 t6 by (intro that [of bs r1 rest p c' e6]) simp_all
qed

end
