(* ===== verification/Sd_Card_Device.thy ===== *)
theory Sd_Card_Device
  imports Sd_Card_Props
begin

text \<open>
  The driver of \<^verbatim>\<open>sd_raw.cpp\<close> with a card that follows the specification is the device the file system
  asks for: blocks that can be addressed are read and written without failure and keep their contents.
\<close>

section \<open>The driver's state\<close>

text \<open>Between two calls the driver has no block open, knows the kind of the card, and the card waits for
  a command.\<close>

definition sd_invar :: "card_info \<Rightarrow> u8 \<Rightarrow> ('e \<Rightarrow> card) \<Rightarrow> 'e sd \<Rightarrow> bool" where
  "sd_invar ci cs view = (\<lambda>(sd, e). \<not> sd_inBlock sd \<and> sd_cs sd = cs
     \<and> (sd_type sd = SD_CARD_TYPE_SDHC) = ci_hc ci \<and> card_ready (view e) \<and> card_phase (view e) = Standby
     \<and> (\<forall>k < ci_blocks ci. length (card_blocks (view e) k) = SD_RAW_BLOCK_SIZE)
     \<and> length (ci_csd ci) = 16)"

definition sd_addressable :: "card_info \<Rightarrow> u32 \<Rightarrow> bool" where
  "sd_addressable ci b \<longleftrightarrow> unat b < ci_blocks ci \<and> (ci_hc ci \<or> unat b < 2 ^ 23)"

definition sd_contents :: "('e \<Rightarrow> card) \<Rightarrow> 'e sd \<Rightarrow> u32 \<Rightarrow> bytes" where
  "sd_contents view = (\<lambda>(sd, e) b. card_blocks (view e) (unat b))"

lemma addressed_block:
  assumes "(sd_type sd = SD_CARD_TYPE_SDHC) = ci_hc ci" "sd_addressable ci b"
  shows "addressed ci (sd_address sd b) = Some (unat b)"
proof (cases "ci_hc ci")
  case False
  then have "unat (push_bit 9 b) = 512 * unat b"
    using assms(2) by (simp add: sd_addressable_def push_bit_eq_mult unat_word_ariths)
  then show ?thesis
    using False assms by (simp add: addressed_def sd_address_def sd_addressable_def)
qed (use assms in \<open>simp add: addressed_def sd_address_def sd_addressable_def\<close>)

lemma addressed_bound: "addressed ci arg = Some k \<Longrightarrow> k < ci_blocks ci"
  by (auto simp: addressed_def split: if_splits)

text \<open>The end of every call: the card is deselected.\<close>

lemma deselect:
  assumes "sd_card H ci cs view cycles K u" "sd_cs sd = cs" "view e = c\<lparr>card_phase := Standby\<rparr>"
  obtains e' where "sd_raw_cs_high H (sd, e) = (sd, e')"
    "view e' = c\<lparr>card_phase := Standby, card_selected := False\<rparr>"
  using card_select(1) [OF assms(1), of e True] assms(2,3)
  by (intro that [of "spi_digitalWrite H e cs True"]) (simp_all add: sd_raw_cs_high_def)

lemma read_end_512:
  assumes C: "sd_card H ci cs view cycles K u" and sel: "card_selected c" and sd: "sd_inBlock sd" "sd_offset sd = 512" "sd_cs sd = cs"
    and e: "view e = c\<lparr>card_phase := send crc Standby\<rparr>" "length crc = 2"
  obtains e' where "sd_raw_read_end H (sd, e) = (sd\<lparr>sd_offset := 515, sd_inBlock := False\<rparr>, e')"
    "view e' = c\<lparr>card_phase := Standby, card_selected := False\<rparr>"
proof -
  obtain e1 where e1: "spi_reads H 2 e = (crc, e1)" "view e1 = c\<lparr>card_phase := Standby\<rparr>"
    using reads_sending [OF C sel, of e crc "[]" Standby] e by auto
  have "spi_reads H (Suc (Suc 0)) e = (crc, e1)" using e1(1) by (simp add: eval_nat_numeral)
  then have "read_end_loop H 512 e = (515, e1)"
    by (simp add: read_end_loop.simps [of H 512] read_end_loop.simps [of H 513]
      read_end_loop.simps [of H 514] split: prod.splits)
  then show thesis
    using sd card_select(1) [OF C, of e1 True] e1(2)
    by (intro that [of "spi_digitalWrite H e1 cs True"]) (simp_all add: sd_raw_read_end_def sd_raw_cs_high_def)
qed

lemma read_block_found:
  assumes C: "sd_card H ci cs view cycles K u" and i: "sd_invar ci cs view (sd, e)"
    and a: "addressed ci (sd_address sd b) = Some k" and buf: "length buf = 512"
  obtains sd' e' where "sd_raw_read_block H b buf (sd, e) = Some (True, card_blocks (view e) k, sd', e')"
    "sd_invar ci cs view (sd', e')" "card_blocks (view e') = card_blocks (view e)"
proof -
  have bl: "length (card_blocks (view e) k) = 512" using i addressed_bound [OF a] by (simp add: sd_invar_def)
  let ?sd1 = "sd\<lparr>sd_block := b\<rparr>"
  have pre: "\<not> sd_inBlock ?sd1" "sd_cs ?sd1 = cs" "card_phase (view e) = Standby"
    "specified (view e) CMD17 (sd_address sd b)"
    using i by (simp_all add: sd_invar_def specified_def)
  obtain r rest p c' bs e1 where
    re: "card_reply ci ((view e)\<lparr>card_selected := True, card_phase := Frame bs\<rparr>) CMD17 (sd_address sd b) (r # rest) p c'"
    and cmd: "sd_raw_command H CMD17 (sd_address sd b) (?sd1, e) = Some (r, ?sd1\<lparr>sd_status := r\<rparr>, e1)"
    and v1: "view e1 = c'\<lparr>card_phase := send rest p\<rparr>" "card_selected c'"
    using command_ok [OF C pre] by metis
  have f: "r = 0" "data_packet ci (card_blocks (view e) k) rest" "p = Standby"
    and c': "c' = (view e)\<lparr>card_selected := True, card_phase := Frame bs, card_app := False\<rparr>"
    using re a i by (auto simp: reply_cmd17 specified_def sd_invar_def)
  obtain e2 crc where w: "sd_wait_start_block H (?sd1\<lparr>sd_status := r\<rparr>, e1) =
      Some (True, ?sd1\<lparr>sd_status := 0xFE\<rparr>, e2)"
    and v2: "view e2 = c'\<lparr>card_phase := send (card_blocks (view e) k @ crc) Standby\<rparr>" "length crc = 2"
    using wait_start_block_ok [OF C v1(2) f(2) v1(1), of "?sd1\<lparr>sd_status := r\<rparr>"] f(3) by auto
  obtain e3 where rd: "spi_reads H 512 e2 = (card_blocks (view e) k, e3)" "view e3 = c'\<lparr>card_phase := send crc Standby\<rparr>"
    using reads_sending [OF C v1(2) v2(1)] bl by metis
  let ?sd3 = "?sd1\<lparr>sd_status := 0xFE, sd_inBlock := True, sd_offset := 512\<rparr>"
  obtain e4 where en: "sd_raw_read_end H (?sd3, e3) = (?sd3\<lparr>sd_offset := 515, sd_inBlock := False\<rparr>, e4)"
    "view e4 = c'\<lparr>card_phase := Standby, card_selected := False\<rparr>"
    using read_end_512 [OF C v1(2) _ _ _ rd(2) v2(2), of ?sd3] pre(2) by auto
  have ad: "sd_address ?sd1 b = sd_address sd b" by (simp add: sd_address_def)
  show thesis
  proof (rule that [of "?sd3\<lparr>sd_offset := 515, sd_inBlock := False\<rparr>" e4])
    show "sd_raw_read_block H b buf (sd, e) = Some (True, card_blocks (view e) k, ?sd3\<lparr>sd_offset := 515, sd_inBlock := False\<rparr>, e4)"
      using pre(1) cmd w rd(1) en(1) f(1) ad bl buf
      by (simp add: sd_raw_read_block_def sd_raw_read_data_def read_data_open_def mem_write_def)
  qed (use i en(2) c' in \<open>simp_all add: sd_invar_def\<close>)
qed

lemma read_block_refused:
  assumes C: "sd_card H ci cs view cycles K u" and i: "sd_invar ci cs view (sd, e)"
    and a: "addressed ci (sd_address sd b) = None"
  obtains sd' e' where "sd_raw_read_block H b buf (sd, e) = Some (False, buf, sd', e')"
    "sd_invar ci cs view (sd', e')" "card_blocks (view e') = card_blocks (view e)"
proof -
  let ?sd1 = "sd\<lparr>sd_block := b\<rparr>"
  have pre: "\<not> sd_inBlock ?sd1" "sd_cs ?sd1 = cs" "card_phase (view e) = Standby"
    "specified (view e) CMD17 (sd_address sd b)"
    using i by (simp_all add: sd_invar_def specified_def)
  obtain r rest p c' bs e1 where
    re: "card_reply ci ((view e)\<lparr>card_selected := True, card_phase := Frame bs\<rparr>) CMD17 (sd_address sd b) (r # rest) p c'"
    and cmd: "sd_raw_command H CMD17 (sd_address sd b) (?sd1, e) = Some (r, ?sd1\<lparr>sd_status := r\<rparr>, e1)"
    and v1: "view e1 = c'\<lparr>card_phase := send rest p\<rparr>" "card_selected c'"
    using command_ok [OF C pre] by metis
  have f: "r \<noteq> 0" "send rest p = Standby"
    and c': "c' = (view e)\<lparr>card_selected := True, card_phase := Frame bs, card_app := False\<rparr>"
    using re a i by (auto simp: reply_cmd17 specified_def sd_invar_def refusal_def)
  let ?sd2 = "?sd1\<lparr>sd_status := 3\<rparr>"
  let ?e2 = "spi_digitalWrite H e1 cs True"
  have ad: "sd_address ?sd1 b = sd_address sd b" by (simp add: sd_address_def)
  show thesis
  proof (rule that [of ?sd2 ?e2])
    show "sd_raw_read_block H b buf (sd, e) = Some (False, buf, ?sd2, ?e2)"
      using pre cmd f(1) ad
      by (simp add: sd_raw_read_block_def sd_raw_read_data_def read_data_open_def sd_raw_error_def sd_raw_cs_high_def)
  qed (use i v1(1) f(2) c' card_select(1) [OF C, of e1 True] in \<open>simp_all add: sd_invar_def\<close>)
qed

section \<open>Writing a block\<close>

lemma write_data_ok:
  assumes C: "sd_card H ci cs view cycles K u" and sel: "card_selected c" and src: "length src = 512"
    and e: "view e = c\<lparr>card_phase := Token k\<rparr>"
  obtains r busy e' where "sd_raw_write_data H DATA_START_BLOCK src (sd, e) = Some (True, sd\<lparr>sd_status := r\<rparr>, e')"
    "view e' = c\<lparr>card_blocks := (card_blocks c)(k := src), card_phase := send busy Standby\<rparr>"
    "length busy \<le> ci_delay ci" "0xFF \<notin> set busy"
proof -
  let ?e1 = "snd (spi_transfer H e 0xFE)"
  have "view ?e1 = c\<lparr>card_phase := Data k []\<rparr>"
    using step_token [OF card_transfer(1) [OF C, of e "0xFE"]] e sel by simp
  from writes_data [OF C sel this, of "src @ [0xFF]"] src
  have v2: "view (spi_writes H (src @ [0xFF]) ?e1) = c\<lparr>card_phase := Data k (src @ [0xFF])\<rparr>" by simp
  let ?e2 = "spi_writes H (src @ [0xFF]) ?e1" and ?e3 = "snd (spi_transfer H (spi_writes H (src @ [0xFF]) ?e1) 0xFF)"
  obtain r busy where r: "r AND 0x1F = 0x05" "length busy \<le> ci_delay ci" "0xFF \<notin> set busy"
    and v3: "view ?e3 = c\<lparr>card_phase := Sending (r # busy) Standby, card_blocks := (card_blocks c)(k := src)\<rparr>"
    using step_program [OF card_transfer(1) [OF C, of ?e2 "0xFF"]] v2 sel src by auto
  obtain e4 where t: "spi_transfer H ?e3 0xFF = (r, e4)"
    and v4: "view e4 = c\<lparr>card_phase := send busy Standby, card_blocks := (card_blocks c)(k := src)\<rparr>"
    using step_sending [OF card_transfer(1) [OF C, of ?e3 "0xFF"]] v3 sel
    by (cases "spi_transfer H ?e3 0xFF") simp
  have "spi_writes H ([0xFE] @ src @ [0xFF, 0xFF]) e = ?e3"
    by (simp add: spi_writes_append spi_writes_Cons spi_writes_def [of _ "[]"])
  then have "sd_raw_write_data H DATA_START_BLOCK src (sd, e) = Some (True, sd\<lparr>sd_status := r\<rparr>, e4)"
    using t r(1) src by (simp add: sd_raw_write_data_def mem_read_def sd_raw_spi_read_def)
  then show thesis using v4 r by (intro that [of r e4 busy]) simp_all
qed

lemma status_ok:
  assumes C: "sd_card H ci cs view cycles K u" and sd: "\<not> sd_inBlock sd" "sd_cs sd = cs"
    and e: "card_phase (view e) = Standby" "card_ready (view e)"
  obtains e1 e2 where "sd_raw_command H CMD13 0 (sd, e) = Some (0, sd\<lparr>sd_status := 0\<rparr>, e1)"
    "sd_raw_spi_read H e1 = (0, e2)"
    "view e2 = (view e)\<lparr>card_phase := Standby, card_selected := True, card_app := False\<rparr>"
proof -
  have "specified (view e) CMD13 0" using e by (simp add: specified_def)
  then obtain r rest p c' bs e1 where
    re: "card_reply ci ((view e)\<lparr>card_selected := True, card_phase := Frame bs\<rparr>) CMD13 0 (r # rest) p c'"
    and cmd: "sd_raw_command H CMD13 0 (sd, e) = Some (r, sd\<lparr>sd_status := r\<rparr>, e1)"
    and v1: "view e1 = c'\<lparr>card_phase := send rest p\<rparr>" "card_selected c'"
    using command_ok [OF C sd e(1)] by metis
  have f: "r = 0" "rest = [0]" "p = Standby"
    and c': "c' = (view e)\<lparr>card_selected := True, card_phase := Frame bs, card_app := False\<rparr>"
    using re e by (auto simp: reply_cmd13 specified_def)
  obtain e2 where "spi_transfer H e1 0xFF = (0, e2)" "view e2 = c'\<lparr>card_phase := Standby\<rparr>"
    using step_sending [OF card_transfer(1) [OF C, of e1 "0xFF"]] v1 f
    by (cases "spi_transfer H e1 0xFF") simp
  then show thesis using cmd f c' by (intro that [of e1 e2]) (simp_all add: sd_raw_spi_read_def)
qed

lemma write_block_stored:
  assumes C: "sd_card H ci cs view cycles K u" and i: "sd_invar ci cs view (sd, e)"
    and a: "addressed ci (sd_address sd b) = Some k" and src: "length src = 512"
  obtains sd' e' where "sd_raw_write_block H b src (sd, e) = Some (True, sd', e')"
    "sd_invar ci cs view (sd', e')" "card_blocks (view e') = (card_blocks (view e))(k := src)"
proof -
  have pre: "\<not> sd_inBlock sd" "sd_cs sd = cs" "card_phase (view e) = Standby"
    "specified (view e) CMD24 (sd_address sd b)"
    using i by (simp_all add: sd_invar_def specified_def)
  obtain r rest p c' bs e1 where
    re: "card_reply ci ((view e)\<lparr>card_selected := True, card_phase := Frame bs\<rparr>) CMD24 (sd_address sd b) (r # rest) p c'"
    and cmd: "sd_raw_command H CMD24 (sd_address sd b) (sd, e) = Some (r, sd\<lparr>sd_status := r\<rparr>, e1)"
    and v1: "view e1 = c'\<lparr>card_phase := send rest p\<rparr>" "card_selected c'"
    using command_ok [OF C pre] by metis
  have f: "r = 0" "send rest p = Token k"
    and c': "c' = (view e)\<lparr>card_selected := True, card_phase := Frame bs, card_app := False\<rparr>"
    using re a i by (auto simp: reply_cmd24 specified_def sd_invar_def)
  have v1': "view e1 = c'\<lparr>card_phase := Token k\<rparr>" using v1(1) f(2) by simp
  obtain r2 busy e2 where w: "sd_raw_write_data H DATA_START_BLOCK src (sd\<lparr>sd_status := r\<rparr>, e1) =
      Some (True, sd\<lparr>sd_status := r, sd_status := r2\<rparr>, e2)"
    and v2: "view e2 = (c'\<lparr>card_blocks := (card_blocks c')(k := src)\<rparr>)\<lparr>card_phase := send busy Standby\<rparr>"
    and busy: "length busy \<le> ci_delay ci" "0xFF \<notin> set busy"
    by (rule write_data_ok [OF C v1(2) src v1', of "sd\<lparr>sd_status := r\<rparr>"])
  obtain e3 where fl: "sd_raw_flush H 600 e2 = Some (True, e3)"
    and v3: "view e3 = c'\<lparr>card_blocks := (card_blocks c')(k := src), card_phase := Standby\<rparr>"
    using flush_ok [OF C _ busy(2,1) v2, of 600] v1(2) by auto
  obtain e4 e5 where st: "sd_raw_command H CMD13 0 (sd\<lparr>sd_status := r2\<rparr>, e3) = Some (0, sd\<lparr>sd_status := 0\<rparr>, e4)"
    "sd_raw_spi_read H e4 = (0, e5)"
    and v5: "view e5 = (view e3)\<lparr>card_phase := Standby, card_selected := True, card_app := False\<rparr>"
    using status_ok [OF C, of "sd\<lparr>sd_status := r2\<rparr>" e3] pre v3 c' i by (auto simp: sd_invar_def)
  let ?e6 = "spi_digitalWrite H e5 cs True"
  show thesis
  proof (rule that [of "sd\<lparr>sd_status := 0\<rparr>" ?e6])
    show "sd_raw_write_block H b src (sd, e) = Some (True, sd\<lparr>sd_status := 0\<rparr>, ?e6)"
      using cmd f(1) w fl st pre(2) by (simp add: sd_raw_write_block_def sd_raw_cs_high_def)
  qed (use i v5 v3 c' src card_select(1) [OF C, of e5 True] in \<open>simp_all add: sd_invar_def\<close>)
qed

section \<open>The size of the card\<close>

text \<open>The number of blocks a register gives, if it is one the driver can read: version 1 with fields in
  the range of the specification, or version 2.\<close>

definition csd_blocks :: "bytes \<Rightarrow> u32 option" where
  "csd_blocks csd = (if csd1_csd_ver (csd_v1 csd) = 0 then csd_v1_blocks (csd_v1 csd)
     else if csd2_csd_ver (csd_v2 csd) = 1 then Some (csd_v2_blocks (csd_v2 csd)) else None)"

lemma card_size_ok:
  assumes C: "sd_card H ci cs view cycles K u" and i: "sd_invar ci cs view (sd, e)"
    and k: "csd_blocks (ci_csd ci) = Some n" and st: "length stack = 16"
  obtains sd' e' where "sd_raw_card_size H stack (sd, e) = Some (n, sd', e')"
    "sd_invar ci cs view (sd', e')" "card_blocks (view e') = card_blocks (view e)"
proof -
  have pre: "\<not> sd_inBlock sd" "sd_cs sd = cs" "card_phase (view e) = Standby" "specified (view e) CMD9 0"
    and l: "length (ci_csd ci) = 16"
    using i by (simp_all add: sd_invar_def specified_def)
  obtain r rest p c' bs e1 where
    re: "card_reply ci ((view e)\<lparr>card_selected := True, card_phase := Frame bs\<rparr>) CMD9 0 (r # rest) p c'"
    and cmd: "sd_raw_command H CMD9 0 (sd, e) = Some (r, sd\<lparr>sd_status := r\<rparr>, e1)"
    and v1: "view e1 = c'\<lparr>card_phase := send rest p\<rparr>" "card_selected c'"
    using command_ok [OF C pre] by metis
  have f: "r = 0" "data_packet ci (ci_csd ci) rest" "p = Standby"
    and c': "c' = (view e)\<lparr>card_selected := True, card_phase := Frame bs, card_app := False\<rparr>"
    using re i by (auto simp: reply_cmd9 specified_def sd_invar_def)
  obtain e2 crc where w: "sd_wait_start_block H (sd\<lparr>sd_status := r\<rparr>, e1) = Some (True, sd\<lparr>sd_status := 0xFE\<rparr>, e2)"
    and v2: "view e2 = c'\<lparr>card_phase := send (ci_csd ci @ crc) Standby\<rparr>" "length crc = 2"
    using wait_start_block_ok [OF C v1(2) f(2) v1(1), of "sd\<lparr>sd_status := r\<rparr>"] f(3) by auto
  obtain e3 where rd: "spi_reads H 16 e2 = (ci_csd ci, e3)" "view e3 = c'\<lparr>card_phase := send crc Standby\<rparr>"
    using reads_sending [OF C v1(2) v2(1)] l by metis
  obtain e4 where rc: "spi_reads H 2 e3 = (crc, e4)" "view e4 = c'\<lparr>card_phase := Standby\<rparr>"
    using reads_sending [OF C v1(2), of e3 crc "[]" Standby] rd(2) v2(2) by auto
  let ?sd = "sd\<lparr>sd_status := 0xFE\<rparr>" and ?e5 = "spi_digitalWrite H e4 cs True"
  have "sd_raw_read_csd H stack (sd, e) = Some (True, ci_csd ci, ?sd, ?e5)"
    using cmd f(1) w rd(1) rc(1) pre(2) l st
    by (simp add: sd_raw_read_csd_def sd_raw_read_register_def mem_write_def sd_raw_cs_high_def)
  then have "sd_raw_card_size H stack (sd, e) = Some (n, ?sd, ?e5)"
    using k by (auto simp: sd_raw_card_size_def csd_blocks_def split: if_splits)
  moreover have "sd_invar ci cs view (?sd, ?e5)" "card_blocks (view ?e5) = card_blocks (view e)"
    using i rc(2) c' card_select(1) [OF C, of e4 True] by (simp_all add: sd_invar_def)
  ultimately show thesis by (rule that)
qed

section \<open>The device\<close>

lemma invar_address:
  assumes "sd_invar ci cs view d" "sd_addressable ci b"
  shows "addressed ci (sd_address (fst d) b) = Some (unat b)"
  using assms addressed_block by (auto simp: sd_invar_def)

lemma read_block_frame:
  assumes C: "sd_card H ci cs view cycles K u" and i: "sd_invar ci cs view d" and buf: "length buf = 512"
    and eq: "sd_raw_read_block H b buf d = Some (ok, buf', d')"
  shows "sd_invar ci cs view d' \<and> sd_contents view d' = sd_contents view d \<and> length buf' = 512"
proof -
  obtain sd e where d: "d = (sd, e)" by (cases d)
  note i' = i [unfolded d]
  obtain bs sd1 e1 where "sd_raw_read_block H b buf (sd, e) = Some (ok, bs, sd1, e1)" "length bs = 512"
    "sd_invar ci cs view (sd1, e1)" "card_blocks (view e1) = card_blocks (view e)"
  proof (cases "addressed ci (sd_address sd b)")
    case None
    from read_block_refused [OF C i' this, of buf] show thesis using that buf eq d by auto
  next
    case (Some k)
    have "length (card_blocks (view e) k) = 512" using i' addressed_bound [OF Some] by (simp add: sd_invar_def)
    then show thesis using read_block_found [OF C i' Some buf] that eq d by auto
  qed
  then show ?thesis using eq by (auto simp: d sd_contents_def)
qed

lemma read_block_ok:
  assumes C: "sd_card H ci cs view cycles K u" and i: "sd_invar ci cs view d" and buf: "length buf = 512"
    and b: "sd_addressable ci b"
  shows "\<exists>d'. sd_raw_read_block H b buf d = Some (True, sd_contents view d b, d')"
proof -
  obtain sd e where d: "d = (sd, e)" by (cases d)
  have "addressed ci (sd_address sd b) = Some (unat b)" using invar_address [OF i b] d by simp
  from read_block_found [OF C i [unfolded d] this buf]
  show ?thesis unfolding d sd_contents_def prod.case by blast
qed

lemma write_block_ok:
  assumes C: "sd_card H ci cs view cycles K u" and i: "sd_invar ci cs view d" and src: "length src = 512"
    and b: "sd_addressable ci b"
  shows "\<exists>d'. sd_raw_write_block H b src d = Some (True, d') \<and> sd_invar ci cs view d'
    \<and> sd_contents view d' = (sd_contents view d)(b := src)"
proof -
  obtain sd e where d: "d = (sd, e)" by (cases d)
  have "addressed ci (sd_address sd b) = Some (unat b)" using invar_address [OF i b] d by simp
  from write_block_stored [OF C i [unfolded d] this src] obtain sd' e' where
    "sd_raw_write_block H b src (sd, e) = Some (True, sd', e')" "sd_invar ci cs view (sd', e')"
    "card_blocks (view e') = (card_blocks (view e))(unat b := src)" by blast
  then show ?thesis by (intro exI [of _ "(sd', e')"]) (simp add: d sd_contents_def fun_eq_iff word_unat_eq_iff)
qed

lemma card_size_returns:
  assumes C: "sd_card H ci cs view cycles K u" and i: "sd_invar ci cs view d"
    and n: "csd_blocks (ci_csd ci) = Some n"
  shows "\<exists>d'. plat_card_size (sd_platform H) d = Some (n, d') \<and> sd_invar ci cs view d'
    \<and> sd_contents view d' = sd_contents view d"
proof -
  obtain sd e where d: "d = (sd, e)" by (cases d)
  have "length (memzero 16 :: bytes) = 16" by (simp add: memzero_def)
  from card_size_ok [OF C i [unfolded d] n this] obtain sd' e' where
    "sd_raw_card_size H (memzero 16) (sd, e) = Some (n, sd', e')" "sd_invar ci cs view (sd', e')"
    "card_blocks (view e') = card_blocks (view e)" by blast
  then show ?thesis by (intro exI [of _ "(sd', e')"]) (simp add: d sd_contents_def sd_platform_def)
qed

lemma clock_frame:
  assumes "sd_card H ci cs view cycles K u" "sd_invar ci cs view d"
  shows "sd_invar ci cs view (snd (plat_millis (sd_platform H) d))"
    "sd_contents view (snd (plat_millis (sd_platform H) d)) = sd_contents view d"
    "sd_invar ci cs view (snd (plat_random (sd_platform H) d m))"
    "sd_contents view (snd (plat_random (sd_platform H) d m)) = sd_contents view d"
  using assms by (simp_all add: sd_card_def sd_platform_def sd_invar_def sd_contents_def split: prod.splits)
    (metis snd_conv)+

lemma sd_driver_device:
  assumes C: "sd_card H ci cs view cycles K u" and n: "csd_blocks (ci_csd ci) = Some n"
  shows "reliable_device (sd_platform H) (sd_invar ci cs view) (sd_addressable ci)
    (\<lambda>d b. sd_addressable ci b) (sd_contents view)"
proof (unfold_locales, goal_cases)
  case (1 d b)
  then show ?case by (auto simp: sd_invar_def sd_addressable_def sd_contents_def)
next
  case (2 d buf b buf' d')
  then show ?case using read_block_ok [OF C 2(1-3)] by (simp add: sd_platform_def)
next
  case (3 d buf b r buf' d')
  then show ?case using read_block_frame [OF C 3(1,2)] by (simp add: sd_platform_def)
next
  case (4 d src b d')
  then show ?case using write_block_ok [OF C 4(1-3)] by (auto simp: sd_platform_def)
next
  case (5 d src b c r d')
  then show ?case using write_block_ok [OF C 5(1-3)] by (auto simp: sd_platform_def)
next
  case (6 d src b r d')
  then show ?case using write_block_ok [OF C 6(1-3)] by (auto simp: sd_platform_def)
next
  case (7 d n d')
  then show ?case using card_size_returns [OF C 7(1) n] by auto
next
  case (8 d)
  then show ?case using clock_frame [OF C 8] by simp
next
  case (9 d m)
  then show ?case using clock_frame [OF C 9] by simp
next
  case (10 d buf b)
  then show ?case using read_block_ok [OF C 10] by (auto simp: sd_platform_def)
next
  case (11 d src b)
  then show ?case using write_block_ok [OF C 11] by (auto simp: sd_platform_def)
next
  case (12 d)
  then show ?case using card_size_returns [OF C 12 n] by auto
qed

section \<open>Properties\<close>

text \<open>C3: the driver refines the block device. With any card of the specification behind the SPI bus whose
  register the driver can read, the functions of \<^verbatim>\<open>sd_raw.cpp\<close> that the file system calls meet the whole
  contract: on every block the card has (and, for a card addressed in bytes, below 4 GB) reads and
  writes return, succeed within the time limits and deliver what was written last, no other block
  changes, and every call leaves driver and card ready for the next.\<close>

theorem sd_driver_is_reliable_device:
  assumes "sd_card H ci cs view cycles K u" "csd_blocks (ci_csd ci) = Some n"
  shows "reliable_device (sd_platform H) (sd_invar ci cs view) (sd_addressable ci)
    (\<lambda>d b. sd_addressable ci b) (sd_contents view)"
  using assms by (rule sd_driver_device)

end
