(* ===== verification/Sd_Card_Init.thy ===== *)
theory Sd_Card_Init
  imports Sd_Card_Device
begin

text \<open>
  \<^verbatim>\<open>sd_raw_initialize\<close> on a card that has just been powered: the version check, the wait until the
  card is ready and the kind of the card.
\<close>

section \<open>The wait for a card that wakes up\<close>

text \<open>One round of the loop: \<^verbatim>\<open>CMD55\<close> and \<^verbatim>\<open>ACMD41\<close>.\<close>

lemma op_cond_round:
  assumes C: "sd_card H ci cs view cycles K u" and sd: "\<not> sd_inBlock sd" "sd_cs sd = cs"
    and e: "card_phase (view e) = Standby" "\<not> card_ready (view e)" and arg: "ci_hc ci \<longrightarrow> bit arg 30"
  obtains r e' where "sd_raw_acommand H ACMD41 arg (sd, e) = Some (r, sd\<lparr>sd_status := r\<rparr>, e')"
    "r = (if card_polls (view e) = 0 then 0 else 1)"
    "view e' = (view e)\<lparr>card_phase := Standby, card_selected := True, card_app := False,
       card_ready := (card_polls (view e) = 0), card_polls := card_polls (view e) - 1\<rparr>"
    "cycles e \<le> cycles e'" "cycles e' \<le> cycles e + 36 * u"
proof -
  have "specified (view e) CMD55 0" by (simp add: specified_def)
  then obtain r1 rest1 p1 c1 bs1 e1 where
    re1: "card_reply ci ((view e)\<lparr>card_selected := True, card_phase := Frame bs1\<rparr>) CMD55 0 (r1 # rest1) p1 c1"
    and cmd1: "sd_raw_command H CMD55 0 (sd, e) = Some (r1, sd\<lparr>sd_status := r1\<rparr>, e1)"
    and v1: "view e1 = c1\<lparr>card_phase := send rest1 p1\<rparr>"
    and t1: "cycles e \<le> cycles e1" "cycles e1 \<le> cycles e + 18 * u"
    using command_ok [OF C sd e(1)] by metis
  have f1: "view e1 = (view e)\<lparr>card_phase := Standby, card_selected := True, card_app := True\<rparr>"
    using re1 v1 by (auto simp: reply_cmd55 specified_def)
  have sd1: "\<not> sd_inBlock (sd\<lparr>sd_status := r1\<rparr>)" "sd_cs (sd\<lparr>sd_status := r1\<rparr>) = cs"
    "card_phase (view e1) = Standby" "specified (view e1) ACMD41 arg"
    using sd f1 e by (simp_all add: specified_def)
  obtain r2 rest2 p2 c2 bs2 e2 where
    re2: "card_reply ci ((view e1)\<lparr>card_selected := True, card_phase := Frame bs2\<rparr>) ACMD41 arg (r2 # rest2) p2 c2"
    and cmd2: "sd_raw_command H ACMD41 arg (sd\<lparr>sd_status := r1\<rparr>, e1) =
      Some (r2, sd\<lparr>sd_status := r1, sd_status := r2\<rparr>, e2)"
    and v2: "view e2 = c2\<lparr>card_phase := send rest2 p2\<rparr>"
    and t2: "cycles e1 \<le> cycles e2" "cycles e2 \<le> cycles e1 + 18 * u"
    using command_ok [OF C sd1] by metis
  have f2: "r2 = (if card_polls (view e) = 0 then 0 else 1)"
    "view e2 = (view e)\<lparr>card_phase := Standby, card_selected := True, card_app := False,
       card_ready := (card_polls (view e) = 0), card_polls := card_polls (view e) - 1\<rparr>"
    using re2 v2 f1 e arg by (auto simp: reply_acmd41 specified_def)
  have "sd_raw_acommand H ACMD41 arg (sd, e) = Some (r2, sd\<lparr>sd_status := r2\<rparr>, e2)"
    using cmd1 cmd2 by (simp add: sd_raw_acommand_def)
  then show thesis using f2 t1 t2 by (intro that [of r2 e2]) simp_all
qed

lemma op_cond_loop:
  assumes C: "sd_card H ci cs view cycles K u" and arg: "ci_hc ci \<longrightarrow> bit arg 30"
    and sd: "\<not> sd_inBlock sd" "sd_cs sd = cs"
    and e: "card_phase (view e) = Standby" "\<not> card_ready (view e)" "t0 \<le> cycles e div K"
    and t: "cycles e + 37 * u * card_polls (view e) < (t0 + 2000) * K"
  obtains e' where "command_loop H (sd_raw_acommand H ACMD41 arg) 0 (of_nat t0) (sd, e) =
      Some (True, sd\<lparr>sd_status := 0\<rparr>, e')"
    "view e' = (view e)\<lparr>card_phase := Standby, card_selected := True, card_app := False, card_ready := True,
       card_polls := 0\<rparr>"
  using sd e t
proof (induction "card_polls (view e)" arbitrary: sd e thesis)
  case 0
  obtain r e1 where "sd_raw_acommand H ACMD41 arg (sd, e) = Some (r, sd\<lparr>sd_status := r\<rparr>, e1)"
    "r = (if card_polls (view e) = 0 then 0 else 1)"
    "view e1 = (view e)\<lparr>card_phase := Standby, card_selected := True, card_app := False,
       card_ready := (card_polls (view e) = 0), card_polls := card_polls (view e) - 1\<rparr>"
    by (rule op_cond_round [OF C "0.prems"(2-5) arg])
  then show ?case using 0(1) by (intro "0.prems"(1) [of e1]) (simp_all add: command_loop.simps)
next
  case (Suc n)
  obtain r e1 where cmd: "sd_raw_acommand H ACMD41 arg (sd, e) = Some (r, sd\<lparr>sd_status := r\<rparr>, e1)"
    and r: "r = (if card_polls (view e) = 0 then 0 else 1)"
    and v1: "view e1 = (view e)\<lparr>card_phase := Standby, card_selected := True, card_app := False,
       card_ready := (card_polls (view e) = 0), card_polls := card_polls (view e) - 1\<rparr>"
    and t1: "cycles e \<le> cycles e1" "cycles e1 \<le> cycles e + 36 * u"
    by (rule op_cond_round [OF C Suc.prems(2-5) arg])
  have r: "r = 1" and v1: "view e1 = (view e)\<lparr>card_phase := Standby, card_selected := True, card_app := False,
       card_ready := False, card_polls := n\<rparr>"
    using r v1 Suc(2) [symmetric] by simp_all
  obtain now e2 where mi: "spi_millis H e1 = (now, e2)" by (cases "spi_millis H e1")
  note m = card_millis [OF C, of e1, unfolded mi fst_conv snd_conv]
  have d: "t0 \<le> cycles e1 div K" "t0 \<le> cycles e2 div K"
    using Suc.prems(6) t1 m div_le_mono [of "cycles e" "cycles e1" K] div_le_mono [of "cycles e" "cycles e2" K] by simp_all
  have room: "cycles e + 37 * u * n + 37 * u < (t0 + 2000) * K"
    using Suc.prems(7) Suc(2) [symmetric] by simp
  then have "cycles e1 < (t0 + 2000) * K" using t1 by linarith
  then have go: "\<not> now - of_nat t0 > 2000"
    using elapsed_millis [OF C d(1), of 2000] mi by (simp add: word_less_nat_alt)
  have "cycles e2 + 37 * u * card_polls (view e2) < (t0 + 2000) * K" using room t1 m v1 by simp
  then obtain e3 where "command_loop H (sd_raw_acommand H ACMD41 arg) 0 (of_nat t0) (sd\<lparr>sd_status := 1\<rparr>, e2) =
      Some (True, sd\<lparr>sd_status := 1, sd_status := 0\<rparr>, e3)"
    "view e3 = (view e2)\<lparr>card_phase := Standby, card_selected := True, card_app := False, card_ready := True,
       card_polls := 0\<rparr>"
    using Suc(1) [of e2 "sd\<lparr>sd_status := 1\<rparr>"] Suc.prems(2,3) d(2) m(1) v1 by auto
  then show ?case
    using cmd r go m(1) v1 mi
    by (intro Suc.prems(1) [of e3]) (simp_all add: command_loop.simps [of _ _ _ _ "(sd, e)"])
qed

section \<open>The version and the kind of the card\<close>

lemma version_ok:
  assumes C: "sd_card H ci cs view cycles K u" and sd: "\<not> sd_inBlock sd" "sd_cs sd = cs"
    and e: "card_phase (view e) = Standby" "\<not> card_ready (view e)"
  obtains st e' where "initialize_version H (sd, e) = Some (True, sd\<lparr>sd_status := st,
      sd_type := if ci_version2 ci then SD_CARD_TYPE_SD2 else SD_CARD_TYPE_SD1\<rparr>, e')"
    "view e' = (view e)\<lparr>card_phase := Standby, card_selected := True, card_app := False\<rparr>"
    "cycles e \<le> cycles e'" "cycles e' \<le> cycles e + 22 * u"
proof -
  have "specified (view e) CMD8 0x1AA" using e by (simp add: specified_def)
  then obtain r rest p c bs e1 where
    re: "card_reply ci ((view e)\<lparr>card_selected := True, card_phase := Frame bs\<rparr>) CMD8 0x1AA (r # rest) p c"
    and cmd: "sd_raw_command H CMD8 0x1AA (sd, e) = Some (r, sd\<lparr>sd_status := r\<rparr>, e1)"
    and v1: "view e1 = c\<lparr>card_phase := send rest p\<rparr>" "card_selected c"
    and t1: "cycles e \<le> cycles e1" "cycles e1 \<le> cycles e + 18 * u"
    using command_ok [OF C sd e(1)] by metis
  have c: "c = (view e)\<lparr>card_selected := True, card_phase := Frame bs, card_app := False\<rparr>" "p = Standby"
    and r: "(r, rest) = (if ci_version2 ci then (1, [0, 0, 1, 0xAA]) else (5, []))"
    using re e by (auto simp: reply_cmd8 specified_def)
  show thesis
  proof (cases "ci_version2 ci")
    case True
    have "view e1 = c\<lparr>card_phase := send ([0, 0, 1, 0xAA] @ []) Standby\<rparr>" using v1 c r True by simp
    then obtain e2 where rd: "spi_reads H (length [0, 0, 1, 0xAA :: u8]) e1 = ([0, 0, 1, 0xAA], e2)"
      and "view e2 = c\<lparr>card_phase := send [] Standby\<rparr>"
      "cycles e1 \<le> cycles e2" "cycles e2 \<le> cycles e1 + u * length [0, 0, 1, 0xAA :: u8]"
      by (rule reads_sending [OF C v1(2)])
    moreover have "spi_reads H 4 e1 = ([0, 0, 1, 0xAA], e2)"
      using rd unfolding list.size by (simp add: eval_nat_numeral)
    ultimately show thesis using cmd t1 r c True
      by (intro that [of "0xAA" e2]) (simp_all add: initialize_version_def)
  next
    case False
    then show thesis using cmd t1 r c v1
      by (intro that [of 5 e1]) (simp_all add: initialize_version_def)
  qed
qed

lemma ocr_ok:
  assumes C: "sd_card H ci cs view cycles K u" and sd: "\<not> sd_inBlock sd" "sd_cs sd = cs"
    and e: "card_phase (view e) = Standby" "card_ready (view e)"
    and ty: "sd_type sd = (if ci_version2 ci then SD_CARD_TYPE_SD2 else SD_CARD_TYPE_SD1)"
    and hc: "ci_hc ci \<longrightarrow> ci_version2 ci"
  obtains sd' e' sel app where "initialize_ocr H (sd, e) = Some (True, sd', e')"
    "\<not> sd_inBlock sd'" "sd_cs sd' = cs" "(sd_type sd' = SD_CARD_TYPE_SDHC) = ci_hc ci"
    "view e' = (view e)\<lparr>card_phase := Standby, card_selected := sel, card_app := app\<rparr>"
proof (cases "ci_version2 ci")
  case False
  moreover have "view e = (view e)\<lparr>card_phase := Standby, card_selected := card_selected (view e),
      card_app := card_app (view e)\<rparr>"
    using e(1) by (cases "view e") simp
  ultimately show thesis using sd ty hc
    by (intro that [of sd e "card_app (view e)" "card_selected (view e)"]) (simp_all add: initialize_ocr_def)
next
  case True
  have "specified (view e) CMD58 0" using e by (simp add: specified_def)
  then obtain r rest p c bs e1 where
    re: "card_reply ci ((view e)\<lparr>card_selected := True, card_phase := Frame bs\<rparr>) CMD58 0 (r # rest) p c"
    and cmd: "sd_raw_command H CMD58 0 (sd, e) = Some (r, sd\<lparr>sd_status := r\<rparr>, e1)"
    and v1: "view e1 = c\<lparr>card_phase := send rest p\<rparr>" "card_selected c"
    using command_ok [OF C sd e(1)] by metis
  have c: "c = (view e)\<lparr>card_selected := True, card_phase := Frame bs, card_app := False\<rparr>" "p = Standby"
    and r: "r = 0" "length rest = 4" "(rest ! 0 AND 0xC0 = 0xC0) = ci_hc ci"
    using re e by (auto simp: reply_cmd58 specified_def)
  obtain o1 o2 o3 o4 where rest: "rest = [o1, o2, o3, o4]" using r(2) by (auto simp: length_Suc_conv numeral_eq_Suc)
  have "view e1 = c\<lparr>card_phase := send (rest @ []) Standby\<rparr>" using v1 c by simp
  then obtain e2 where rd: "spi_reads H (length rest) e1 = (rest, e2)" "view e2 = c\<lparr>card_phase := send [] Standby\<rparr>"
    by (rule reads_sending [OF C v1(2)])
  let ?sd = "if o1 AND 0xC0 = 0xC0 then sd\<lparr>sd_status := 0, sd_type := SD_CARD_TYPE_SDHC\<rparr> else sd\<lparr>sd_status := 0\<rparr>"
  have "initialize_ocr H (sd, e) = Some (True, ?sd, e2)"
    using cmd r rd(1) rest ty True
    by (auto simp: initialize_ocr_def numeral_3_eq_3 numeral_eq_Suc split: prod.splits)
  then show thesis using sd rd(2) c r(3) rest ty True
    by (intro that [of ?sd e2 False True]) simp_all
qed

section \<open>Initialisation\<close>

text \<open>A card that has just been powered: it waits for a command and its blocks are whole.\<close>

definition powered :: "card_info \<Rightarrow> card \<Rightarrow> bool" where
  "powered ci c \<longleftrightarrow> card_phase c = Standby \<and> length (ci_csd ci) = 16
     \<and> (\<forall>k < ci_blocks ci. length (card_blocks c k) = SD_RAW_BLOCK_SIZE)"

lemma configure_view:
  assumes C: "sd_card H ci cs view cycles K u" and d: "\<not> card_selected (view e)"
  shows "view (sd_raw_spi_configure H e) = (view e)\<lparr>card_clocks := card_clocks (view e) + 10\<rparr>"
proof -
  have "view (spi_writes H (replicate n 0xFF) e1) = (view e1)\<lparr>card_clocks := card_clocks (view e1) + n\<rparr>"
    if "\<not> card_selected (view e1)" for n e1
    using that
  proof (induction n arbitrary: e1)
    case (Suc n)
    have "view (snd (spi_transfer H e1 0xFF)) = (view e1)\<lparr>card_clocks := card_clocks (view e1) + 1\<rparr>"
      using card_transfer(1) [OF C, of e1 "0xFF"] Suc.prems by (auto elim!: card_stepE)
    then show ?case using Suc by (simp add: spi_writes_Cons)
  qed (simp add: spi_writes_def)
  moreover have "view (spi_setClockDivider H e1 b) = view e1" "view (spi_begin H e1) = view e1" for e1 b
    using C by (simp_all add: sd_card_def)
  ultimately show ?thesis using d by (simp add: sd_raw_spi_configure_def)
qed

lemma go_idle_ok:
  assumes C: "sd_card H ci cs view cycles K u" and sd: "\<not> sd_inBlock sd" "sd_cs sd = cs"
    and e: "card_phase (view e) = Standby" and cl: "74 \<le> 8 * card_clocks (view e)"
  obtains n e' where "command_loop H (sd_raw_command H CMD0 0) 1 t0 (sd, e) = Some (True, sd\<lparr>sd_status := 1\<rparr>, e')"
    "n \<le> ci_polls ci"
    "view e' = (view e)\<lparr>card_phase := Standby, card_selected := True, card_app := False, card_ready := False,
       card_polls := n\<rparr>"
    "cycles e \<le> cycles e'" "cycles e' \<le> cycles e + 18 * u"
proof -
  have "specified (view e) CMD0 0" using cl by (simp add: specified_def)
  then obtain r rest p c bs e1 where
    re: "card_reply ci ((view e)\<lparr>card_selected := True, card_phase := Frame bs\<rparr>) CMD0 0 (r # rest) p c"
    and cmd: "sd_raw_command H CMD0 0 (sd, e) = Some (r, sd\<lparr>sd_status := r\<rparr>, e1)"
    and v1: "view e1 = c\<lparr>card_phase := send rest p\<rparr>"
    and t1: "cycles e \<le> cycles e1" "cycles e1 \<le> cycles e + 18 * u"
    using command_ok [OF C sd e] by metis
  obtain n where n: "n \<le> ci_polls ci" "r = 1" "rest = []" "p = Standby"
    "c = (view e)\<lparr>card_selected := True, card_phase := Frame bs, card_ready := False, card_app := False,
      card_polls := n\<rparr>"
    using re cl by (auto simp: reply_cmd0 specified_def)
  then show thesis using cmd v1 t1 by (intro that [of e1 n]) (simp_all add: command_loop.simps)
qed

lemma init_room:
  assumes "sd_card H ci cs view cycles K u" "n \<le> ci_polls ci" "u * (37 * ci_polls ci + 41) < 1999 * K"
    and "c5 \<le> c2 + 41 * u"
  shows "c5 + 37 * u * n < (c2 div K + 2000) * K"
proof -
  have "37 * u * n \<le> 37 * u * ci_polls ci" using assms(2) by (rule mult_le_mono2)
  moreover have "u * (37 * ci_polls ci + 41) = 37 * u * ci_polls ci + 41 * u" by (simp add: algebra_simps)
  moreover have "c2 < (c2 div K + 1) * K"
    using card_times(1) [OF assms(1)] by (metis dividend_less_div_times mult.commute add.commute mult_Suc_right Suc_eq_plus1)
  moreover have "(c2 div K + 2000) * K = (c2 div K + 1) * K + 1999 * K" by (simp add: algebra_simps)
  ultimately show ?thesis using assms(3,4) by linarith
qed

text \<open>From the card in its idle state to the driver that knows the kind of the card.\<close>

lemma wake_up_ok:
  assumes C: "sd_card H ci cs view cycles K u" and hc: "ci_hc ci \<longrightarrow> ci_version2 ci"
    and sd: "\<not> sd_inBlock sd" "sd_cs sd = cs" and e: "card_phase (view e) = Standby" "\<not> card_ready (view e)"
    and t0: "t0 \<le> cycles e div K" and t: "cycles e + 22 * u + 37 * u * card_polls (view e) < (t0 + 2000) * K"
  obtains sd1 e1 sd2 e2 sd3 e3 where "initialize_version H (sd, e) = Some (True, sd1, e1)"
    "command_loop H (sd_raw_acommand H ACMD41 (if sd_type sd1 = SD_CARD_TYPE_SD2 then 0x40000000 else 0)) 0
       (of_nat t0) (sd1, e1) = Some (True, sd2, e2)"
    "initialize_ocr H (sd2, e2) = Some (True, sd3, e3)" "\<not> sd_inBlock sd3" "sd_cs sd3 = cs"
    "(sd_type sd3 = SD_CARD_TYPE_SDHC) = ci_hc ci" "card_ready (view e3)" "card_phase (view e3) = Standby"
    "card_blocks (view e3) = card_blocks (view e)"
proof -
  obtain st e1 where ver: "initialize_version H (sd, e) = Some (True, sd\<lparr>sd_status := st,
      sd_type := if ci_version2 ci then SD_CARD_TYPE_SD2 else SD_CARD_TYPE_SD1\<rparr>, e1)"
    and v1: "view e1 = (view e)\<lparr>card_phase := Standby, card_selected := True, card_app := False\<rparr>"
    and t1: "cycles e \<le> cycles e1" "cycles e1 \<le> cycles e + 22 * u"
    by (rule version_ok [OF C sd e])
  let ?sd1 = "sd\<lparr>sd_status := st, sd_type := if ci_version2 ci then SD_CARD_TYPE_SD2 else SD_CARD_TYPE_SD1\<rparr>"
  let ?arg = "if sd_type ?sd1 = SD_CARD_TYPE_SD2 then 0x40000000 else 0 :: u32"
  have arg: "ci_hc ci \<longrightarrow> bit ?arg 30" using hc by simp
  have p1: "\<not> sd_inBlock ?sd1" "sd_cs ?sd1 = cs" "card_phase (view e1) = Standby" "\<not> card_ready (view e1)"
    "t0 \<le> cycles e1 div K" "cycles e1 + 37 * u * card_polls (view e1) < (t0 + 2000) * K"
    using sd e v1 t1 t le_trans [OF t0 div_le_mono [OF t1(1)]] by simp_all
  obtain e2 where loop: "command_loop H (sd_raw_acommand H ACMD41 ?arg) 0 (of_nat t0) (?sd1, e1) =
      Some (True, ?sd1\<lparr>sd_status := 0\<rparr>, e2)"
    and v2: "view e2 = (view e1)\<lparr>card_phase := Standby, card_selected := True, card_app := False,
       card_ready := True, card_polls := 0\<rparr>"
    by (rule op_cond_loop [OF C arg p1])
  let ?sd2 = "?sd1\<lparr>sd_status := 0\<rparr>"
  have p2: "\<not> sd_inBlock ?sd2" "sd_cs ?sd2 = cs" "card_phase (view e2) = Standby" "card_ready (view e2)"
    "sd_type ?sd2 = (if ci_version2 ci then SD_CARD_TYPE_SD2 else SD_CARD_TYPE_SD1)"
    using p1 v2 by simp_all
  obtain sd3 e3 sel app where ocr: "initialize_ocr H (?sd2, e2) = Some (True, sd3, e3)"
    and sd3: "\<not> sd_inBlock sd3" "sd_cs sd3 = cs" "(sd_type sd3 = SD_CARD_TYPE_SDHC) = ci_hc ci"
    and v3: "view e3 = (view e2)\<lparr>card_phase := Standby, card_selected := sel, card_app := app\<rparr>"
    by (rule ocr_ok [OF C p2 hc])
  show thesis by (rule that [OF ver loop ocr sd3]) (use v3 v2 v1 in simp_all)
qed

lemma initialize_ok:
  assumes C: "sd_card H ci cs view cycles K u" and hc: "ci_hc ci \<longrightarrow> ci_version2 ci"
    and t: "u * (37 * ci_polls ci + 41) < 1999 * K"
    and l: "powered ci (view e)" and sd: "\<not> sd_inBlock sd"
  shows "\<exists>s. sd_raw_initialize H cs (sd, e) = Some (True, s) \<and> sd_invar ci cs view s
    \<and> sd_contents view s = sd_contents view (sd, e)"
proof -
  let ?sd = "sd\<lparr>sd_cs := cs\<rparr>"
  define e1 where "e1 = spi_digitalWrite H (spi_pinModeOutput H e cs) cs True"
  have "view e1 = (view e)\<lparr>card_selected := False\<rparr>"
    using C by (simp add: e1_def sd_card_def)
  moreover define e2 where "e2 = spi_digitalWrite H (sd_raw_spi_configure H e1) cs False"
  ultimately have v2: "view e2 = (view e)\<lparr>card_selected := True, card_clocks := card_clocks (view e) + 10\<rparr>"
    using card_select(1) [OF C, of _ False] configure_view [OF C, of e1] by simp
  obtain now e3 where mi: "spi_millis H e2 = (now, e3)" by (cases "spi_millis H e2")
  note m = card_millis [OF C, of e2, unfolded mi fst_conv snd_conv]
  have p3: "\<not> sd_inBlock ?sd" "sd_cs ?sd = cs" "card_phase (view e3) = Standby" "74 \<le> 8 * card_clocks (view e3)"
    using sd l m(1) v2 by (simp_all add: powered_def)
  obtain n e4 where g: "command_loop H (sd_raw_command H CMD0 0) 1 now (?sd, e3) = Some (True, ?sd\<lparr>sd_status := 1\<rparr>, e4)"
    and n: "n \<le> ci_polls ci"
    and v4: "view e4 = (view e3)\<lparr>card_phase := Standby, card_selected := True, card_app := False, card_ready := False,
       card_polls := n\<rparr>"
    and t4: "cycles e3 \<le> cycles e4" "cycles e4 \<le> cycles e3 + 18 * u"
    by (rule go_idle_ok [OF C p3])
  let ?sd4 = "?sd\<lparr>sd_status := 1\<rparr>"
  have t0: "cycles e2 div K \<le> cycles e4 div K" using le_trans [OF m(3) t4(1)] by (rule div_le_mono)
  have room: "cycles e4 + 22 * u + 37 * u * card_polls (view e4) < (cycles e2 div K + 2000) * K"
    using init_room [OF C n t, of "cycles e4 + 22 * u" "cycles e2"] m(4) t4 v4 by simp
  have p4: "\<not> sd_inBlock ?sd4" "sd_cs ?sd4 = cs" "card_phase (view e4) = Standby" "\<not> card_ready (view e4)"
    using p3 v4 by simp_all
  obtain sd5 e5 sd6 e6 sd7 e7 where w: "initialize_version H (?sd4, e4) = Some (True, sd5, e5)"
    "command_loop H (sd_raw_acommand H ACMD41 (if sd_type sd5 = SD_CARD_TYPE_SD2 then 0x40000000 else 0)) 0
       (of_nat (cycles e2 div K)) (sd5, e5) = Some (True, sd6, e6)"
    "initialize_ocr H (sd6, e6) = Some (True, sd7, e7)"
    and sd7: "\<not> sd_inBlock sd7" "sd_cs sd7 = cs" "(sd_type sd7 = SD_CARD_TYPE_SDHC) = ci_hc ci"
    and v7: "card_ready (view e7)" "card_phase (view e7) = Standby" "card_blocks (view e7) = card_blocks (view e4)"
    by (rule wake_up_ok [OF C hc p4 t0 room])
  let ?s = "(sd7, spi_digitalWrite H e7 cs True)"
  have "sd_raw_initialize H cs (sd, e) = Some (True, ?s)"
    using mi g w sd7(2) m(2)
    by (simp add: sd_raw_initialize_def sd_raw_cs_high_def sd_raw_cs_low_def e1_def [symmetric] e2_def [symmetric])
  moreover have "sd_invar ci cs view ?s \<and> sd_contents view ?s = sd_contents view (sd, e)"
    using card_select(1) [OF C, of e7 True] v7 v4 m(1) v2 sd7 l by (simp add: sd_invar_def sd_contents_def powered_def)
  ultimately show ?thesis by (intro exI [of _ ?s] conjI) simp_all
qed

section \<open>Properties\<close>

text \<open>C27: \<^verbatim>\<open>sd_raw_initialize\<close> succeeds on every powered card of the specification, of version 1 or 2 and of
  standard or high capacity, that answers in time and wakes up within the two seconds of
  \<^verbatim>\<open>SD_RAW_INIT_TIMEOUT\<close>: it clocks the card the 74 times it needs before the first command and sends
  \<^verbatim>\<open>CMD0\<close> and \<^verbatim>\<open>CMD8\<close> with their checksums, without which the card may do anything. Afterwards the driver holds its
  invariant, in particular it knows whether the card is addressed in blocks or in bytes, and no block has
  changed. In one unit of time \<open>u\<close> a call ends; a command takes at most eighteen. (The speed of the bus is
  not modelled.)\<close>

theorem sd_raw_initialize_ok:
  assumes "sd_card H ci cs view cycles K u" "ci_hc ci \<longrightarrow> ci_version2 ci"
    and "u * (37 * ci_polls ci + 41) < 1999 * K" "powered ci (view e)" "\<not> sd_inBlock sd"
  shows "\<exists>s. sd_raw_initialize H cs (sd, e) = Some (True, s) \<and> sd_invar ci cs view s
    \<and> sd_contents view s = sd_contents view (sd, e)"
  using assms by (rule initialize_ok)

end
