(* ===== verification/Sd_Card_Fs.thy ===== *)
theory Sd_Card_Fs
  imports Sd_Card_Init Fkfs_Truncate
begin

text \<open>
  The file system on the SPI driver on a card: the contract of the block device is discharged by the
  driver, so what holds of the file system on every device holds here of the two pieces of code together.
\<close>

text \<open>A card with room for \<open>limit\<close> blocks of log that the driver can reach, by its register too, and a log
  area that is erased.\<close>

definition card_room :: "card_info \<Rightarrow> nat \<Rightarrow> bool" where
  "card_room ci limit \<longleftrightarrow> 8000 + limit \<le> ci_blocks ci \<and> 8000 + limit \<le> 2 ^ 23
     \<and> (case csd_blocks (ci_csd ci) of None \<Rightarrow> False | Some n \<Rightarrow> 8000 + limit \<le> unat (n - 2))"

definition erased_log :: "nat \<Rightarrow> card \<Rightarrow> bool" where
  "erased_log limit c \<longleftrightarrow> (\<forall>i < limit. erased (card_blocks c (8000 + i)))"

lemma room_capacity:
  assumes "sd_card H ci cs view cycles K u" "card_room ci limit"
  shows "capacity (sd_invar ci cs view) (sd_platform H) limit"
proof -
  obtain n where n: "csd_blocks (ci_csd ci) = Some n" "8000 + limit \<le> unat (n - 2)"
    using assms(2) by (auto simp: card_room_def split: option.splits)
  show ?thesis
    unfolding capacity_def
  proof (intro allI impI)
    fix d m d' assume "sd_invar ci cs view d" "plat_card_size (sd_platform H) d = Some (m, d')"
    with card_size_returns [OF assms(1) _ n(1), of d] n(2) show "8000 + limit \<le> unat (m - 2)" by auto
  qed
qed

lemma room_addressable:
  assumes "card_room ci limit"
  shows "sd_addressable ci 0" "i < limit \<Longrightarrow> sd_addressable ci (log_block i)"
    "i < limit \<Longrightarrow> unat (log_block i) = 8000 + i"
proof -
  show "sd_addressable ci 0" using assms by (simp add: card_room_def sd_addressable_def)
  assume i: "i < limit"
  then show u: "unat (log_block i) = 8000 + i" using assms by (intro unat_log_block) (simp add: card_room_def)
  show "sd_addressable ci (log_block i)" using assms i u by (simp add: card_room_def sd_addressable_def)
qed

lemma erased_log_area:
  assumes "card_room ci limit" "erased_log limit (view (snd d))" "0 < limit"
  shows "erased_area (sd_addressable ci) (\<lambda>d b. sd_addressable ci b) (sd_contents view) limit d"
  using assms room_addressable(2,3) [OF assms(1)]
  by (cases d) (simp add: erased_area_def erased_log_def sd_contents_def card_room_def)

text \<open>C2: the file system and the driver together, on every card of the specification that answers in
  time and wakes up within two seconds. The driver initialises a powered card whose first \<open>limit\<close> blocks of
  log are erased and reachable, the file system wipes it, runs a list of appends, truncations,
  synchronisations and flushes and flushes; afterwards, also when the power was cut and a card with the same
  blocks is initialised again, another object mounts it and every file reads back the data appended to
  it since its last truncation, in order. The conditions on the list: its records have 1 to 505 bytes and
  its files are below 4, its log fits the \<open>limit\<close> blocks and leaves seven bytes in every block but the last
  (a scan reads one more header there), it has fewer than 65535 truncations, and its length is below
  $2^{31} - 1$. The card counts its start-up clocks and checks the checksums of \<^verbatim>\<open>CMD0\<close> and \<^verbatim>\<open>CMD8\<close>.\<close>

theorem log_on_card_survives_power_cycle:
  assumes C: "sd_card H ci cs view cycles K u" and hc: "ci_hc ci \<longrightarrow> ci_version2 ci"
    and t: "u * (37 * ci_polls ci + 41) < 1999 * K"
    and room: "card_room ci limit" "0 < limit"
    and fs: "fresh_object fs" "\<not> sd_inBlock (fst (fs_sd fs))"
    and e: "powered ci (view (snd (fs_sd fs)))" "erased_log limit (view (snd (fs_sd fs)))"
    and xs: "list_all valid_op xs" "length (foldl op_log [[]] xs) \<le> limit"
      "scannable (foldl op_log [[]] xs)" "truncations xs < 2 ^ 16 - 1" "2 * length xs + 2 < 2 ^ 32"
  shows "\<exists>s fs1 fs2 fs3. sd_raw_initialize H cs (fs_sd fs) = Some (True, s)
    \<and> fkfs_initialize (sd_platform H) (fs\<lparr>fs_sd := s\<rparr>) True = Some (True, fs1)
    \<and> run_ops (sd_platform H) fs1 xs = Some (True, fs2)
    \<and> fkfs_flush (sd_platform H) fs2 = Some (True, fs3) \<and> powered ci (view (snd (fs_sd fs3)))
    \<and> (\<forall>fs4 f. powered ci (view (snd (fs_sd fs4))) \<and> fresh_object fs4 \<and> \<not> sd_inBlock (fst (fs_sd fs4))
         \<and> card_blocks (view (snd (fs_sd fs4))) = card_blocks (view (snd (fs_sd fs3))) \<and> unat f < 4 \<longrightarrow>
         (\<exists>s4 fs5 fs6. sd_raw_initialize H cs (fs_sd fs4) = Some (True, s4)
            \<and> fkfs_initialize (sd_platform H) (fs4\<lparr>fs_sd := s4\<rparr>) False = Some (True, fs5)
            \<and> extract_file (sd_platform H) fs5 f True =
                Some (True, concat (foldl (op_file f) [] xs), fs6)))"
proof -
  let ?I = "sd_invar ci cs view" and ?A = "sd_addressable ci" and ?C = "sd_contents view"
  obtain n where n: "csd_blocks (ci_csd ci) = Some n"
    using room(1) by (auto simp: card_room_def split: option.splits)
  have dev: "reliable_device (sd_platform H) ?I ?A (\<lambda>d b. ?A b) ?C"
    by (rule sd_driver_device [OF C n])
  have init: "\<exists>s. sd_raw_initialize H cs d = Some (True, s) \<and> ?I s \<and> ?C s = ?C d"
    if "powered ci (view (snd d))" "\<not> sd_inBlock (fst d)" for d
    using that initialize_ok [OF C hc t, of "snd d" "fst d"] by simp
  obtain s where s: "sd_raw_initialize H cs (fs_sd fs) = Some (True, s)" "?I s" "?C s = ?C (fs_sd fs)"
    using init [OF e(1) fs(2)] by blast
  let ?fs = "fs\<lparr>fs_sd := s\<rparr>"
  have fresh: "fresh_object (fs'\<lparr>fs_sd := d\<rparr>)" if "fresh_object fs'" for fs' :: "'a sd fkfs_t" and d
    using that by (simp add: fresh_object_def wf_fs_def)
  have area: "erased_area ?A (\<lambda>d b. ?A b) ?C limit (fs_sd ?fs)"
    using erased_log_area [where view = view and d = "fs_sd fs", OF room(1) e(2) room(2)] s(3) by (simp add: erased_area_def)
  have inv: "?I (fs_sd ?fs)" using s(2) by simp
  from reliable_device.operations_survive [OF dev inv fresh [OF fs(1)] room_addressable(1) [OF room(1)]
      room_addressable(1) [OF room(1)] area room_capacity [OF C room(1)] xs]
  obtain fs1 fs2 fs3 where st: "fkfs_initialize (sd_platform H) ?fs True = Some (True, fs1)"
    "run_ops (sd_platform H) fs1 xs = Some (True, fs2)" "fkfs_flush (sd_platform H) fs2 = Some (True, fs3)"
    and i3: "?I (fs_sd fs3)"
    and rd: "\<And>fs4 f. ?I (fs_sd fs4) \<Longrightarrow> ?C (fs_sd fs4) = ?C (fs_sd fs3) \<Longrightarrow> fresh_object fs4 \<Longrightarrow> unat f < 4 \<Longrightarrow>
      \<exists>fs5 fs6. fkfs_initialize (sd_platform H) fs4 False = Some (True, fs5)
        \<and> extract_file (sd_platform H) fs5 f True =
            Some (True, concat (foldl (op_file f) [] xs), fs6)"
    by blast
  have "\<exists>s4 fs5 fs6. sd_raw_initialize H cs (fs_sd fs4) = Some (True, s4)
      \<and> fkfs_initialize (sd_platform H) (fs4\<lparr>fs_sd := s4\<rparr>) False = Some (True, fs5)
      \<and> extract_file (sd_platform H) fs5 f True = Some (True, concat (foldl (op_file f) [] xs), fs6)"
    if h: "powered ci (view (snd (fs_sd fs4)))" "fresh_object fs4" "\<not> sd_inBlock (fst (fs_sd fs4))"
      "card_blocks (view (snd (fs_sd fs4))) = card_blocks (view (snd (fs_sd fs3)))" "unat f < 4" for fs4 f
  proof -
    obtain s4 where s4: "sd_raw_initialize H cs (fs_sd fs4) = Some (True, s4)" "?I s4" "?C s4 = ?C (fs_sd fs4)"
      using init [OF h(1,3)] by blast
    have "?C s4 = ?C (fs_sd fs3)" using s4(3) h(4) by (simp add: sd_contents_def case_prod_beta)
    then show ?thesis using rd [of "fs4\<lparr>fs_sd := s4\<rparr>" f] s4(1,2) fresh [OF h(2)] h(5) by auto
  qed
  moreover have "powered ci (view (snd (fs_sd fs3)))" using i3 by (auto simp: sd_invar_def powered_def)
  ultimately show ?thesis using s(1) st by blast
qed

end
