(* ===== verification/Sd_Csd.thy ===== *)
theory Sd_Csd
  imports Sd_Raw
begin

text \<open>
  The size of the card. The SD specification gives the capacity of a version 1 card as
  \<open>(C_SIZE + 1) * 2^(C_SIZE_MULT + 2)\<close> blocks of \<open>2^READ_BL_LEN\<close> bytes and that of a version 2 card as
  \<open>(C_SIZE + 1) * 512\<close> kilobytes, and it places the fields by their bits in the 128 bit register,
  which the card sends with the highest byte first. The driver computes the number of 512 byte
  blocks from the bit fields of a C structure laid over the bytes.
\<close>

section \<open>The register of the specification\<close>

text \<open>The register as a number, and its bits from \<open>hi\<close> down to \<open>lo\<close>.\<close>

definition csd_register :: "bytes \<Rightarrow> nat" where
  "csd_register bs = foldl (\<lambda>n b. n * 256 + unat b) 0 bs"

definition csd_field :: "bytes \<Rightarrow> nat \<Rightarrow> nat \<Rightarrow> nat" where
  "csd_field bs hi lo = csd_register bs div 2 ^ lo mod 2 ^ (hi - lo + 1)"

section \<open>Bit fields\<close>

lemma unat_bits: "unat (bits b lo n) < 2 ^ n"
  unfolding bits_def by (simp add: unsigned_take_bit_eq take_bit_nat_less_exp)

lemma or_is_plus:
  fixes a b :: "'a::len word"
  assumes "\<And>n. \<not> bit a n \<or> \<not> bit b n"
  shows "a OR b = a + b"
  using disjunctive_add [of a b] assms by simp

lemma bit_small:
  assumes "unat (w :: 'a::len word) < 2 ^ k" "k \<le> n"
  shows "\<not> bit w n"
proof -
  have "take_bit k w = w"
    using assms(1) by (simp add: word_unat_eq_iff unsigned_take_bit_eq take_bit_nat_eq_self)
  then show ?thesis using assms(2) by (metis bit_take_bit_iff not_less)
qed

lemma unat_push: "unat (push_bit k (w :: 'a::len word)) = unat w * 2 ^ k"
  if "unat w * 2 ^ k < 2 ^ LENGTH('a)"
  using that by (subst unsigned_push_bit_eq) (simp add: push_bit_eq_mult take_bit_nat_eq_self)

lemma unat_ucast_u8 [simp]: "unat (ucast (w :: u8) :: u32) = unat w" "unat (ucast (w :: u8) :: u16) = unat w"
  by (transfer; simp)+

lemma u8_bound: "unat (w :: u8) < 256"
  using unsigned_less [of w, where ?'a = nat] by simp

lemma unat_or_push:
  fixes a b :: "'a::len word"
  assumes "unat b < 2 ^ k" "unat a * 2 ^ k + unat b < 2 ^ LENGTH('a)"
  shows "unat (push_bit k a OR b) = unat a * 2 ^ k + unat b"
proof -
  have "\<not> bit (push_bit k a) n \<or> \<not> bit b n" for n
    using bit_small [OF assms(1), of n] by (cases "n < k") (auto simp: bit_simps)
  then have "push_bit k a OR b = push_bit k a + b" by (rule or_is_plus)
  moreover have "unat (push_bit k a) = unat a * 2 ^ k" using assms(2) by (intro unat_push) simp
  ultimately show ?thesis using assms(2) by (simp add: unat_word_ariths)
qed

text \<open>Where the fields of the specification lie in the bytes.\<close>

lemma csd_register_snoc: "csd_register (bs @ [b]) = csd_register bs * 256 + unat b"
  by (simp add: csd_register_def)

lemma csd_register_nil: "csd_register [] = 0"
  by (simp add: csd_register_def)

lemma csd_register_prefix: "n \<le> length bs \<Longrightarrow> csd_register bs div 256 ^ n = csd_register (take (length bs - n) bs)"
proof (induction n arbitrary: bs)
  case 0
  then show ?case by simp
next
  case (Suc n)
  then obtain xs b where bs: "bs = xs @ [b]" by (cases bs rule: rev_cases) auto
  note b = u8_bound [of b]
  have "csd_register bs div 256 = csd_register xs" using b by (simp add: bs csd_register_snoc)
  then have "csd_register bs div 256 ^ Suc n = csd_register xs div 256 ^ n"
    by (metis div_mult2_eq power_Suc)
  then show ?case using Suc by (simp add: bs)
qed

lemma csd_register_take:
  assumes "k < length bs"
  shows "csd_register (take (Suc k) bs) = csd_register (take k bs) * 256 + unat (bs ! k)"
  using assms by (simp add: take_Suc_conv_app_nth csd_register_snoc)

lemma div_mod_block:
  assumes "x = (q * m + r) * d + s" "s < d" "r < (m :: nat)"
  shows "x div d mod m = r"
  using assms by simp

lemma csd_field_split:
  assumes "length bs = 16" "k < 16" "j < 8"
  shows "csd_field bs hi (8 * k + j) = csd_register (take (16 - k) bs) div 2 ^ j mod 2 ^ (hi - (8 * k + j) + 1)"
proof -
  have "(2 :: nat) ^ (8 * k + j) = 256 ^ k * 2 ^ j" by (simp add: power_add power_mult)
  then show ?thesis
    unfolding csd_field_def using csd_register_prefix [of k bs] assms by (simp add: div_mult2_eq)
qed

lemma csd_field_c_size_v1:
  assumes "length bs = 16"
  shows "csd_field bs 73 62 = unat (bs ! 6) mod 4 * 1024 + unat (bs ! 7) * 4 + unat (bs ! 8) div 64"
proof -
  define p q u v where "p = unat (bs ! 6) div 4" "q = unat (bs ! 6) mod 4"
    "u = unat (bs ! 8) div 64" "v = unat (bs ! 8) mod 64"
  note def = this
  have e: "unat (bs ! 6) = 4 * p + q" "unat (bs ! 8) = 64 * u + v" by (simp_all add: def)
  have b: "q < 4" "u < 4" "v < 64" using u8_bound [of "bs ! 8"] by (auto simp: def)
  have "csd_register (take 9 bs) = ((csd_register (take 6 bs) * 256 + unat (bs ! 6)) * 256 + unat (bs ! 7)) * 256 + unat (bs ! 8)"
    using assms csd_register_take [of 8 bs] csd_register_take [of 7 bs] csd_register_take [of 6 bs]
    by simp
  then have "csd_register (take 9 bs) div 64 mod 4096 = q * 1024 + unat (bs ! 7) * 4 + u"
    using b u8_bound [of "bs ! 7"]
    by (intro div_mod_block [where q = "csd_register (take 6 bs) * 64 + p" and s = v]) (simp_all add: e)
  then show ?thesis using assms csd_field_split [of bs 7 6 73] by (simp add: def)
qed

lemma csd_field_mult:
  assumes "length bs = 16"
  shows "csd_field bs 49 47 = unat (bs ! 9) mod 4 * 2 + unat (bs ! 10) div 128"
proof -
  define p q u v where "p = unat (bs ! 9) div 4" "q = unat (bs ! 9) mod 4"
    "u = unat (bs ! 10) div 128" "v = unat (bs ! 10) mod 128"
  note def = this
  have e: "unat (bs ! 9) = 4 * p + q" "unat (bs ! 10) = 128 * u + v" by (simp_all add: def)
  have b: "q < 4" "u < 2" "v < 128" using u8_bound [of "bs ! 10"] by (auto simp: def)
  have "csd_register (take 11 bs) = (csd_register (take 9 bs) * 256 + unat (bs ! 9)) * 256 + unat (bs ! 10)"
    using assms csd_register_take [of 10 bs] csd_register_take [of 9 bs] by simp
  then have "csd_register (take 11 bs) div 128 mod 8 = q * 2 + u"
    using b
    by (intro div_mod_block [where q = "csd_register (take 9 bs) * 64 + p" and s = v]) (simp_all add: e)
  then show ?thesis using assms csd_field_split [of bs 5 7 49] by (simp add: def)
qed

lemma csd_field_read_bl_len:
  assumes "length bs = 16"
  shows "csd_field bs 83 80 = unat (bs ! 5) mod 16"
proof -
  have "csd_register (take 6 bs) = (csd_register (take 5 bs) * 16) * 16 + unat (bs ! 5)"
    using assms csd_register_take [of 5 bs] by simp
  then have "csd_register (take 6 bs) mod 16 = unat (bs ! 5) mod 16" by (simp only: mod_mult_self3)
  then show ?thesis using assms csd_field_split [of bs 10 0 83] by simp
qed

lemma csd_field_c_size_v2:
  assumes "length bs = 16"
  shows "csd_field bs 69 48 = unat (bs ! 7) mod 64 * 65536 + unat (bs ! 8) * 256 + unat (bs ! 9)"
proof -
  define p q where "p = unat (bs ! 7) div 64" "q = unat (bs ! 7) mod 64"
  note def = this
  have e: "unat (bs ! 7) = 64 * p + q" and b: "q < 64" by (simp_all add: def)
  have "csd_register (take 10 bs) = ((csd_register (take 7 bs) * 256 + unat (bs ! 7)) * 256 + unat (bs ! 8)) * 256 + unat (bs ! 9)"
    using assms csd_register_take [of 9 bs] csd_register_take [of 8 bs] csd_register_take [of 7 bs]
    by simp
  then have "csd_register (take 10 bs) div 1 mod 4194304 = q * 65536 + unat (bs ! 8) * 256 + unat (bs ! 9)"
    using b u8_bound [of "bs ! 8"] u8_bound [of "bs ! 9"]
    by (intro div_mod_block [where q = "csd_register (take 7 bs) * 4 + p" and s = 0]) (simp_all add: e)
  then show ?thesis using assms csd_field_split [of bs 6 0 69] by (simp add: def)
qed

lemma csd_field_reserved_v2:
  assumes "length bs = 16" "csd_field bs 75 70 = 0"
  shows "unat (bs ! 7) < 64"
proof -
  define p q u v where "p = unat (bs ! 6) div 16" "q = unat (bs ! 6) mod 16"
    "u = unat (bs ! 7) div 64" "v = unat (bs ! 7) mod 64"
  note def = this
  have e: "unat (bs ! 6) = 16 * p + q" "unat (bs ! 7) = 64 * u + v" by (simp_all add: def)
  have b: "q < 16" "u < 4" "v < 64" using u8_bound [of "bs ! 7"] by (auto simp: def)
  have "csd_register (take 8 bs) = (csd_register (take 6 bs) * 256 + unat (bs ! 6)) * 256 + unat (bs ! 7)"
    using assms csd_register_take [of 7 bs] csd_register_take [of 6 bs] by simp
  then have "csd_register (take 8 bs) div 64 mod 64 = q * 4 + u"
    using b
    by (intro div_mod_block [where q = "csd_register (take 6 bs) * 16 + p" and s = v]) (simp_all add: e)
  then have "u = 0" using assms csd_field_split [of bs 8 6 75] by simp
  then show ?thesis using e b by simp
qed
lemma unat_bits_div: "unat (bits b lo n) = unat b div 2 ^ lo mod 2 ^ n"
  unfolding bits_def unsigned_take_bit_eq unsigned_drop_bit_eq
  using u8_bound [of b] by (simp add: take_bit_eq_mod drop_bit_eq_div)

text \<open>The fields of a register put together.\<close>

definition csd_v1_c_size :: "csd1_t \<Rightarrow> nat" where
  "csd_v1_c_size v1 = unat (csd1_c_size_high v1) * 1024 + unat (csd1_c_size_mid v1) * 4
     + unat (csd1_c_size_low v1)"

definition csd_v1_mult :: "csd1_t \<Rightarrow> nat" where
  "csd_v1_mult v1 = unat (csd1_c_size_mult_high v1) * 2 + unat (csd1_c_size_mult_low v1)"

definition csd_v2_c_size :: "csd2_t \<Rightarrow> nat" where
  "csd_v2_c_size v2 = unat (csd2_c_size_high v2) * 65536 + unat (csd2_c_size_mid v2) * 256
     + unat (csd2_c_size_low v2)"

lemma csd_v2_word:
  fixes h m l :: u8
  assumes "unat h < 64"
  shows "unat (push_bit 16 (ucast h) OR push_bit 8 (ucast m) OR ucast l :: u32) =
    unat h * 65536 + unat m * 256 + unat l"
proof -
  have ml: "unat (push_bit 8 (ucast m) OR ucast l :: u32) = unat m * 2 ^ 8 + unat l"
    using u8_bound [of m] u8_bound [of l] unat_or_push [of "ucast l :: u32" 8 "ucast m"] by simp
  then have "unat (push_bit 16 (ucast h) OR (push_bit 8 (ucast m) OR ucast l) :: u32) =
      unat h * 2 ^ 16 + (unat m * 2 ^ 8 + unat l)"
    using u8_bound [of m] u8_bound [of l] assms
      unat_or_push [of "push_bit 8 (ucast m) OR ucast l :: u32" 16 "ucast h"] by simp
  then show ?thesis by (simp add: or.assoc)
qed

lemma unat_times_1024: "unat ((w + 1) * 1024 :: u32) = (unat w + 1) * 1024 mod 2 ^ 32"
proof -
  have a: "unat (w + 1) = (unat w + 1) mod 2 ^ 32"
    using unat_word_ariths(1) [of w 1] by simp
  have k: "unat (1024 :: u32) = 1024" and len32: "LENGTH(32) = 32" by simp_all
  have "unat ((w + 1) * 1024) = unat (w + 1) * unat (1024 :: u32) mod 2 ^ LENGTH(32)"
    by (rule unat_word_ariths(2))
  also have "\<dots> = (unat w + 1) * 1024 mod 2 ^ 32"
    unfolding a k len32 by (rule mod_mult_left_eq)
  finally show ?thesis .
qed

lemma csd_v1_word:
  fixes h m l :: u8
  assumes "unat h < 4" "unat l < 4"
  shows "unat (push_bit 10 (ucast h) OR push_bit 2 (ucast m) OR ucast l :: u16) =
    unat h * 1024 + unat m * 4 + unat l"
proof -
  have ml: "unat (push_bit 2 (ucast m) OR ucast l :: u16) = unat m * 2 ^ 2 + unat l"
    using u8_bound [of m] assms unat_or_push [of "ucast l :: u16" 2 "ucast m"] by simp
  then have "unat (push_bit 10 (ucast h) OR (push_bit 2 (ucast m) OR ucast l) :: u16) =
      unat h * 2 ^ 10 + (unat m * 2 ^ 2 + unat l)"
    using u8_bound [of m] assms unat_or_push [of "push_bit 2 (ucast m) OR ucast l :: u16" 10 "ucast h"]
    by simp
  then show ?thesis by (simp add: or.assoc)
qed

lemma csd_v1_ranges:
  "unat (csd1_c_size_high (csd_v1 csd)) < 4" "unat (csd1_c_size_low (csd_v1 csd)) < 4"
  "unat (csd1_c_size_mult_high (csd_v1 csd)) < 4" "unat (csd1_c_size_mult_low (csd_v1 csd)) < 2"
  using unat_bits [of "csd ! 6" 0 2] unat_bits [of "csd ! 8" 6 2] unat_bits [of "csd ! 9" 0 2]
    unat_bits [of "csd ! 10" 7 1]
  by (simp_all add: csd_v1_def)

lemma csd_v1_fields:
  assumes "length csd = 16"
  shows "csd_v1_c_size (csd_v1 csd) = csd_field csd 73 62" "csd_v1_mult (csd_v1 csd) = csd_field csd 49 47"
    "unat (csd1_read_bl_len (csd_v1 csd)) = csd_field csd 83 80"
proof -
  have "unat (csd ! 8) div 64 < 4" "unat (csd ! 10) div 128 < 2"
    using u8_bound [of "csd ! 8"] u8_bound [of "csd ! 10"] by auto
  then show "csd_v1_c_size (csd_v1 csd) = csd_field csd 73 62" "csd_v1_mult (csd_v1 csd) = csd_field csd 49 47"
    "unat (csd1_read_bl_len (csd_v1 csd)) = csd_field csd 83 80"
    using assms
    by (simp_all add: csd_v1_c_size_def csd_v1_mult_def csd_v1_def unat_bits_div csd_field_c_size_v1
        csd_field_mult csd_field_read_bl_len)
qed

lemma csd_v2_fields:
  "csd_v2_c_size (csd_v2 csd) = unat (csd ! 7) div 4 mod 64 * 65536 + unat (csd ! 8) * 256 + unat (csd ! 9)"
  by (simp add: csd_v2_c_size_def csd_v2_def unat_bits_div)

text \<open>The number of blocks in terms of the structure.\<close>

lemma csd_v1_blocks_value:
  assumes "9 \<le> unat (csd1_read_bl_len (csd_v1 csd))" "unat (csd1_read_bl_len (csd_v1 csd)) \<le> 11"
  shows "\<exists>n. csd_v1_blocks (csd_v1 csd) = Some n \<and>
    unat n * 512 = (csd_v1_c_size (csd_v1 csd) + 1) * 2 ^ (csd_v1_mult (csd_v1 csd) + 2)
      * 2 ^ unat (csd1_read_bl_len (csd_v1 csd))"
proof -
  let ?v = "csd_v1 csd" and ?L = "unat (csd1_read_bl_len (csd_v1 csd))"
  note r = csd_v1_ranges [of csd]
  let ?M = "csd_v1_mult ?v" and ?C = "csd_v1_c_size ?v"
  have mult: "unat (push_bit 1 (csd1_c_size_mult_high ?v) OR csd1_c_size_mult_low ?v) = ?M"
    using unat_or_push [of "csd1_c_size_mult_low ?v" 1 "csd1_c_size_mult_high ?v"] r
    by (simp add: csd_v1_mult_def)
  have size: "unat (push_bit 10 (ucast (csd1_c_size_high ?v)) OR push_bit 2 (ucast (csd1_c_size_mid ?v))
      OR ucast (csd1_c_size_low ?v) :: u16) = ?C"
    using csd_v1_word [OF r(1,2)] by (simp add: csd_v1_c_size_def)
  have C: "?C + 1 \<le> 4096" using r u8_bound [of "csd1_c_size_mid ?v"] by (simp add: csd_v1_c_size_def)
  have M: "?M \<le> 7" using r by (simp add: csd_v1_mult_def)
  let ?s = "?M + ?L - 7"
  have "?s \<le> 11" using M assms(2) by simp
  then have "(2 :: nat) ^ ?s \<le> 2 ^ 11" by (rule power_increasing) simp
  then have "(?C + 1) * 2 ^ ?s \<le> 4096 * 2 ^ 11" using C by (rule mult_le_mono [rotated])
  then have lt: "(?C + 1) * 2 ^ ?s < 2 ^ 32" by simp
  have u: "unat (of_nat (?C + 1) :: u32) = ?C + 1" using C by (simp add: unat_of_nat del: of_nat_add of_nat_Suc)
  have n: "unat (push_bit ?s (of_nat (?C + 1) :: u32)) = (?C + 1) * 2 ^ ?s"
    using unat_push [of "of_nat (?C + 1) :: u32" ?s] lt unfolding u by simp
  have e: "?s + 9 = (?M + 2) + ?L" using assms(1) by simp
  have "(2 :: nat) ^ ?s * 512 = 2 ^ (?s + 9)" by (simp add: power_add)
  also have "\<dots> = 2 ^ (?M + 2) * 2 ^ ?L" unfolding e by (rule power_add)
  finally have pw: "(2 :: nat) ^ ?s * 512 = 2 ^ (?M + 2) * 2 ^ ?L" .
  have "unat (push_bit ?s (of_nat (?C + 1) :: u32)) * 512 = (?C + 1) * 2 ^ (?M + 2) * 2 ^ ?L"
    unfolding n mult.assoc pw ..
  moreover have "csd_v1_blocks ?v = Some (push_bit ?s (of_nat (?C + 1)))"
    unfolding csd_v1_blocks_def Let_def mult size using assms(1) by simp
  ultimately show ?thesis by blast
qed

lemma csd_v2_blocks_value:
  "unat (csd_v2_blocks (csd_v2 csd)) =
     (if csd_v2_c_size (csd_v2 csd) = 2 ^ 22 - 1 then 0 else (csd_v2_c_size (csd_v2 csd) + 1) * 1024)"
proof -
  let ?v = "csd_v2 csd" and ?C = "csd_v2_c_size (csd_v2 csd)"
  have h: "unat (csd2_c_size_high ?v) < 64"
    using unat_bits [of "csd ! 7" 2 6] by (simp add: csd_v2_def)
  have C: "?C \<le> 2 ^ 22 - 1"
    using h u8_bound [of "csd2_c_size_mid ?v"] u8_bound [of "csd2_c_size_low ?v"]
    by (simp add: csd_v2_c_size_def)
  have b: "unat (csd_v2_blocks ?v) = (?C + 1) * 1024 mod 2 ^ 32"
    unfolding csd_v2_blocks_def Let_def unat_times_1024 csd_v2_word [OF h] csd_v2_c_size_def ..
  show ?thesis
  proof (cases "?C = 2 ^ 22 - 1")
    case True
    then show ?thesis unfolding b by simp
  next
    case False
    then have "(?C + 1) * 1024 < 2 ^ 32" using C by simp
    then show ?thesis unfolding b using False by simp
  qed
qed

section \<open>Properties\<close>

text \<open>C30: for every version 1 register with a block length the specification allows, the driver
  computes exactly the capacity of the specification in blocks of 512 bytes, without overflow.\<close>

theorem csd_v1_capacity:
  assumes "length csd = 16" "9 \<le> csd_field csd 83 80" "csd_field csd 83 80 \<le> 11"
  shows "\<exists>n. csd_v1_blocks (csd_v1 csd) = Some n \<and>
    unat n * 512 = (csd_field csd 73 62 + 1) * 2 ^ (csd_field csd 49 47 + 2) * 2 ^ csd_field csd 83 80"
  using csd_v1_blocks_value [of csd] csd_v1_fields [OF assms(1)] assms(2,3) by simp

text \<open>C31: for a version 2 register with the reserved bits clear, the driver computes the capacity of
  the specification exactly when \<open>C_SIZE\<close> is below 65536 (32 GB), and too few blocks otherwise: the
  structure takes the high six bits of \<open>C_SIZE\<close> from the wrong end of their byte.\<close>

theorem csd_v2_capacity:
  assumes "length csd = 16" "csd_field csd 75 70 = 0"
  shows "unat (csd_v2_blocks (csd_v2 csd)) \<le> (csd_field csd 69 48 + 1) * 1024 \<and>
    (unat (csd_v2_blocks (csd_v2 csd)) = (csd_field csd 69 48 + 1) * 1024 \<longleftrightarrow>
      csd_field csd 69 48 < 65536)"
proof -
  let ?x = "unat (csd ! 7)"
  let ?y = "unat (csd ! 8) * 256 + unat (csd ! 9)"
  have x: "?x < 64" using assms by (rule csd_field_reserved_v2)
  have y: "?y < 65536" using u8_bound [of "csd ! 8"] u8_bound [of "csd ! 9"] by simp
  have C: "csd_field csd 69 48 = ?x * 65536 + ?y" using csd_field_c_size_v2 [OF assms(1)] x by simp
  have d: "?x div 4 < 16" "?x div 4 \<le> ?x" "?x div 4 = ?x \<longleftrightarrow> ?x = 0" using x by auto
  have c: "csd_v2_c_size (csd_v2 csd) = ?x div 4 * 65536 + ?y" using d(1) by (simp add: csd_v2_fields)
  have "csd_v2_c_size (csd_v2 csd) < 2 ^ 22 - 1" using c d(1) y by simp
  then have b: "unat (csd_v2_blocks (csd_v2 csd)) = (?x div 4 * 65536 + ?y + 1) * 1024"
    using csd_v2_blocks_value [of csd] c by simp
  show ?thesis unfolding b C using d(2,3) y by auto
qed

end
