(* ===== verification/Sd_Raw_Examples.thy ===== *)
theory Sd_Raw_Examples
  imports Sd_Raw_Props Sd_Csd
begin

text \<open>
  A card whose answers are written down in advance, and the properties of the driver at work on it.
\<close>

text \<open>The bytes the card will send, the number of transfers so far, which is the clock, and the rest
  of the world.\<close>

type_synonym 'x script = "bytes \<times> nat \<times> 'x"

definition script_spi :: "'x script spi" where
  "script_spi =
     \<lparr> spi_transfer = (\<lambda>(bs, t, x) b. (if bs = [] then 0xFF else hd bs, (tl bs, t + 1, x))),
       spi_digitalWrite = (\<lambda>e pin v. e), spi_pinModeOutput = (\<lambda>e pin. e), spi_begin = (\<lambda>e. e),
       spi_setClockDivider = (\<lambda>e d. e), spi_millis = (\<lambda>(bs, t, x). (of_nat t, (bs, t, x))),
       spi_random = (\<lambda>e m. (0, e)) \<rparr>"

lemma script_simps [simp]:
  "spi_transfer script_spi (b # bs, t, x) v = (b, (bs, t + 1, x))"
  "spi_digitalWrite script_spi e pin level = e"
  "spi_millis script_spi (bs, t, x) = (of_nat t, (bs, t, x))"
  by (simp_all add: script_spi_def)

lemma script_clocked: "clocked script_spi (fst \<circ> snd) 1"
  by (simp add: clocked_def script_spi_def split_beta)

lemma script_reads: "spi_reads script_spi (length bs) (bs @ rest, t, x) = (bs, (rest, t + length bs, x))"
  by (induction bs arbitrary: t) (simp_all add: sd_raw_spi_read_def)

lemma script_writes:
  "length out = length bs \<Longrightarrow> spi_writes script_spi out (bs @ rest, t, x) = (rest, t + length bs, x)"
  by (induction out bs arbitrary: t rule: list_induct2)
    (simp_all add: spi_writes_def sd_raw_spi_write_def)

text \<open>The card is ready, takes the six bytes of the command and answers it.\<close>

definition answer :: "u8 \<Rightarrow> bytes" where
  "answer status = 0xFF # replicate 6 0xFF @ [status]"

lemma script_command:
  assumes "\<not> sd_inBlock sd" "status AND 0x80 = 0"
  shows "sd_raw_command script_spi command arg (sd, (answer status @ rest, t, x)) =
    Some (status, sd\<lparr>sd_status := status\<rparr>, (rest, t + 8, x))"
proof -
  have f: "sd_raw_flush script_spi 300 (answer status @ rest, t, x) =
      Some (True, (replicate 6 0xFF @ status # rest, t + 1, x))"
    by (simp add: sd_raw_flush_def answer_def flush_loop.simps sd_raw_spi_read_def)
  have w: "spi_writes script_spi (command_frame command arg) (replicate 6 0xFF @ status # rest, Suc t, x) =
      (status # rest, t + 7, x)"
    by (subst script_writes) (simp_all add: command_frame_def)
  show ?thesis using assms
    by (simp add: sd_raw_command_def sd_raw_read_end_def sd_raw_cs_low_def f w response_loop.simps
        sd_raw_spi_read_def del: replicate.simps)
qed

definition card_data :: bytes where
  "card_data = replicate 512 0x2A"

definition ready_card :: "sd_raw_t \<times> unit script" where
  "ready_card = (sd_raw_zero\<lparr>sd_type := SD_CARD_TYPE_SDHC\<rparr>, (answer 0 @ 0xFE # card_data, 0, ()))"

definition refusing_card :: "sd_raw_t \<times> unit script" where
  "refusing_card = (sd_raw_zero\<lparr>sd_type := SD_CARD_TYPE_SDHC\<rparr>, (answer 5, 0, ()))"

lemma ready_card_read:
  "\<exists>s'. sd_raw_read_block script_spi 7 (memzero 512) ready_card = Some (True, card_data, s')"
proof -
  have l: "length card_data = 512" by (simp add: card_data_def)
  then have r: "spi_reads script_spi 512 (card_data, t, x) = (card_data, ([], t + 512, x))" for t x
    using script_reads [of card_data "[]" t x] by simp
  show ?thesis
    by (cases "sd_raw_read_end script_spi (\<lparr>sd_cs = 0, sd_status = 254, sd_type = 3, sd_offset = 512,
        sd_inBlock = True, sd_block = 7\<rparr>, [], 521, ())")
      (simp add: sd_raw_read_block_def sd_raw_read_data_def read_data_open_def ready_card_def
        sd_raw_zero_def script_command sd_wait_start_block_def start_block_loop.simps
        sd_raw_spi_read_def r l mem_write_def Let_def case_prod_beta)
qed

lemma refusing_card_read:
  "\<exists>s'. sd_raw_read_block script_spi 7 (memzero 512) refusing_card = Some (False, memzero 512, s')"
  using script_command [of "sd_raw_zero\<lparr>sd_type := 3, sd_block := 7\<rparr>" 5 _ _ "[]" 0 "()"]
  by (simp add: sd_raw_read_block_def sd_raw_read_data_def read_data_open_def refusing_card_def
      sd_raw_zero_def sd_raw_error_def sd_raw_cs_high_def Let_def case_prod_beta)

theorem sd_transfers_return_witness: "transfers_return (sd_platform (script_spi :: unit script spi))"
  by (rule sd_transfers_return [OF script_clocked])

theorem read_block_error_witness:
  "\<exists>s'. sd_raw_read_block script_spi 7 (memzero 512) refusing_card = Some (False, memzero 512, s')
    \<and> (sd_status (fst s') = ucast SD_CARD_ERROR_CMD17 \<or> sd_status (fst s') = ucast SD_CARD_ERROR_GENERAL)"
  using refusing_card_read read_block_error [of script_spi 7 "memzero 512" refusing_card] by blast

lemma read_block_delivers_example:
  "\<exists>s1 s2. sd_raw_command script_spi CMD17 (sd_address (fst ready_card) 7)
        ((fst ready_card)\<lparr>sd_block := 7\<rparr>, snd ready_card) = Some (0, s1)
    \<and> sd_wait_start_block script_spi s1 = Some (True, s2)
    \<and> card_data = fst (spi_reads script_spi 512 (snd s2))"
proof -
  obtain s' where "sd_raw_read_block script_spi 7 (memzero 512) ready_card = Some (True, card_data, s')"
    using ready_card_read by blast
  then show ?thesis
    by (rule read_block_delivers) (simp_all add: ready_card_def sd_raw_zero_def)
qed

text \<open>The registers of a 1 GB and of a 64 GB card.\<close>

definition csd_1gb :: bytes where
  "csd_1gb = [0x00, 0x26, 0x00, 0x32, 0x5F, 0x59, 0x83, 0xC8, 0xAD, 0xDB, 0xCF, 0xFF, 0xD2, 0x40, 0x40, 0xA5]"

definition csd_64gb :: bytes where
  "csd_64gb = [0x40, 0x0E, 0x00, 0x32, 0x5B, 0x59, 0x00, 0x01, 0xDB, 0xD3, 0x7F, 0x80, 0x0A, 0x40, 0x40, 0xDF]"

theorem csd_v1_capacity_witness:
  "\<exists>n. csd_v1_blocks (csd_v1 csd_1gb) = Some n \<and> unat n * 512 = 1015808000"
proof -
  have f: "csd_field csd_1gb 83 80 = 9" "csd_field csd_1gb 73 62 = 3874" "csd_field csd_1gb 49 47 = 7"
    by (simp_all add: csd_field_def csd_register_def csd_1gb_def)
  show ?thesis using csd_v1_capacity [of csd_1gb] unfolding f by (simp add: csd_1gb_def)
qed

theorem csd_v2_capacity_witness:
  "csd_field csd_64gb 69 48 = 121811 \<and> unat (csd_v2_blocks (csd_v2 csd_64gb)) < 121812 * 1024"
proof -
  have f: "csd_field csd_64gb 75 70 = 0" "csd_field csd_64gb 69 48 = 121811" "length csd_64gb = 16"
    by (simp_all add: csd_field_def csd_register_def csd_64gb_def)
  show ?thesis using csd_v2_capacity [OF f(3,1)] f(2) by simp
qed

end
