(* ===== verification/Sd_Card_Examples.thy ===== *)
theory Sd_Card_Examples
  imports Sketches_Props Fkfs_Examples Sd_Raw_Examples Truncate_Examples
begin

text \<open>
  A card that runs: a deterministic one that follows the specification, answers at once and needs a
  few polls to wake up, with a clock that counts the calls. It shows that the assumptions on a card
  can be met, and the properties of the driver are applied to it.
\<close>

section \<open>The card\<close>

definition sim_reply :: "card_info \<Rightarrow> card \<Rightarrow> u8 \<Rightarrow> u32 \<Rightarrow> bytes \<times> phase \<times> card" where
  "sim_reply ci c command arg =
     (if command = CMD0 \<and> arg = 0 \<and> 74 \<le> 8 * card_clocks c then ([1], Standby, c\<lparr>card_ready := False, card_app := False, card_polls := ci_polls ci\<rparr>)
      else if command = CMD55 then ([if card_ready c then 0 else 1], Standby, c\<lparr>card_app := True\<rparr>)
      else if command = CMD8 \<and> \<not> card_ready c \<and> arg = 0x1AA
      then (if ci_version2 ci then [1, 0, 0, 1, 0xAA] else [5], Standby, c\<lparr>card_app := False\<rparr>)
      else if command = ACMD41 \<and> card_app c \<and> \<not> card_ready c
      then if 0 < card_polls c \<or> ci_hc ci \<and> \<not> bit arg 30
        then ([1], Standby, c\<lparr>card_app := False, card_polls := card_polls c - 1\<rparr>)
        else ([0], Standby, c\<lparr>card_app := False, card_ready := True\<rparr>)
      else if command = CMD58 \<and> card_ready c
      then ([0] @ [if ci_hc ci then 0xC0 else 0x80, 0xFF, 0x80, 0], Standby, c\<lparr>card_app := False\<rparr>)
      else if command = CMD9 \<and> card_ready c
      then ([0] @ [0xFE] @ ci_csd ci @ [0, 0], Standby, c\<lparr>card_app := False\<rparr>)
      else if command = CMD13 \<and> card_ready c then ([0, 0], Standby, c\<lparr>card_app := False\<rparr>)
      else if (command = CMD17 \<or> command = CMD24) \<and> card_ready c
      then case addressed ci arg of
          None \<Rightarrow> ([0x20], Standby, c\<lparr>card_app := False\<rparr>)
        | Some k \<Rightarrow> if command = CMD17 then ([0] @ [0xFE] @ card_blocks c k @ [0, 0], Standby, c\<lparr>card_app := False\<rparr>)
            else ([0], Token k, c\<lparr>card_app := False\<rparr>)
      else ([4], Standby, c))"

definition sim_step :: "card_info \<Rightarrow> card \<Rightarrow> u8 \<Rightarrow> u8 \<times> card" where
  "sim_step ci c b =
     (if \<not> card_selected c then (0xFF, if b = 0xFF then c\<lparr>card_clocks := card_clocks c + 1\<rparr> else c)
      else case card_phase c of
        Standby \<Rightarrow> (0xFF, if b AND 0xC0 = 0x40 then c\<lparr>card_phase := Frame [b]\<rparr> else c)
      | Frame bs \<Rightarrow> if length bs < 5 then (0xFF, c\<lparr>card_phase := Frame (bs @ [b])\<rparr>)
          else if bs ! 0 AND 0x3F \<in> {CMD0, CMD8} \<and> b \<noteq> frame_crc bs
          then (0xFF, c\<lparr>card_phase := send [0x09] Standby\<rparr>)
          else let (reply, p, c') = sim_reply ci c (bs ! 0 AND 0x3F) (frame_arg bs)
               in (0xFF, c'\<lparr>card_phase := send reply p\<rparr>)
      | Sending [] p \<Rightarrow> (0xFF, c)
      | Sending (x # xs) p \<Rightarrow> (x, c\<lparr>card_phase := send xs p\<rparr>)
      | Token k \<Rightarrow> (0xFF, if b = 0xFE then c\<lparr>card_phase := Data k []\<rparr> else c)
      | Data k bs \<Rightarrow> if length bs < 513 then (0xFF, c\<lparr>card_phase := Data k (bs @ [b])\<rparr>)
          else (0xFF, c\<lparr>card_phase := Sending [5] Standby, card_blocks := (card_blocks c)(k := take 512 bs)\<rparr>))"

definition sim_spi :: "card_info \<Rightarrow> u8 \<Rightarrow> (card \<times> nat) spi" where
  "sim_spi ci cs =
     \<lparr> spi_transfer = (\<lambda>(c, t) b. let (out, c) = sim_step ci c b in (out, c, t + 1)),
       spi_digitalWrite = (\<lambda>(c, t) pin v. (if pin = cs then c\<lparr>card_selected := \<not> v\<rparr> else c, t + 1)),
       spi_pinModeOutput = (\<lambda>e pin. e), spi_begin = (\<lambda>e. e), spi_setClockDivider = (\<lambda>e d. e),
       spi_millis = (\<lambda>(c, t). (of_nat (t div 1000), c, t + 1)),
       spi_random = (\<lambda>e m. (0, e)) \<rparr>"

lemma data_packet_now: "data_packet ci bs (0xFE # bs @ [x, y])"
  unfolding data_packet_def by (intro exI [of _ 0] exI [of _ "[x, y]"]) simp

lemma sim_reply_ok:
  assumes "sim_reply ci c command arg = (reply, p, c')"
  shows "card_reply ci c command arg reply p c'"
proof (cases "specified c command arg")
  case True
  then consider "command = CMD0" | "command = CMD55" | "command = CMD8" | "command = ACMD41" | "command = CMD58"
    | "command = CMD9" | "command = CMD13" | "command = CMD17" | "command = CMD24"
    by (auto simp: specified_def)
  then show ?thesis
    using True assms
    by cases (auto simp: specified_def sim_reply_def reply_cmd0 reply_cmd8 reply_cmd9 reply_cmd13 reply_cmd17
      reply_cmd24 reply_cmd55 reply_cmd58 reply_acmd41 refusal_def data_packet_now split: if_splits option.splits)
qed (rule unspecified)

lemma sim_step_ok: "card_step ci c b (fst (sim_step ci c b)) (snd (sim_step ci c b))"
proof (cases "card_selected c")
  case False
  then show ?thesis using deselected [of c ci b "0xFF"] by (simp add: sim_step_def)
next
  case sel: True
  show ?thesis
  proof (cases "card_phase c")
    case (Frame bs)
    obtain reply p c' where r: "sim_reply ci c (bs ! 0 AND 0x3F) (frame_arg bs) = (reply, p, c')"
      by (metis prod_cases3)
    show ?thesis
      using execute [OF sel Frame _ _ sim_reply_ok [OF r], of b 0] frame [OF sel Frame] bad_crc [OF sel Frame]
        sel Frame r
      by (auto simp: sim_step_def)
  next
    case (Sending bs p)
    then show ?thesis using sending [OF sel] silent [OF sel] sel by (cases bs) (simp_all add: sim_step_def)
  next
    case (Data k bs)
    then show ?thesis using data [OF sel] program [OF sel Data, of 5 "[]"] sel by (simp add: sim_step_def)
  qed (use sel in \<open>simp_all add: sim_step_def standby first no_token token\<close>)
qed

lemma sim_card:
  assumes "ci_delay ci = 0"
  shows "sd_card (sim_spi ci cs) ci cs fst snd 1000 1"
  using assms sim_step_ok [of ci] by (simp add: sd_card_def sim_spi_def case_prod_beta)

section \<open>Witnesses\<close>

text \<open>A card of 8 MB that counts in blocks, as it comes from the factory.\<close>

definition sim_info :: card_info where
  "sim_info = \<lparr> ci_blocks = 16384, ci_hc = True, ci_version2 = True,
     ci_csd = [0x40, 0x0E, 0x00, 0x32, 0x5B, 0x59, 0x00, 0x00, 0x00, 0x0F, 0x7F, 0x80, 0x0A, 0x40, 0x40, 0xDF],
     ci_delay = 0, ci_polls = 3 \<rparr>"

definition sim_blank :: card where
  "sim_blank = \<lparr> card_phase = Standby, card_selected = False, card_ready = False, card_app = False,
     card_polls = 3, card_clocks = 0, card_blocks = (\<lambda>_. memzero 512) \<rparr>"

lemma sim_csd: "csd_blocks (ci_csd sim_info) = Some 16384"
  by (simp add: csd_blocks_def sim_info_def csd_v1_def csd_v2_def csd_v2_blocks_def bits_def)

lemma sim_delay: "ci_delay sim_info = 0"
  by (simp add: sim_info_def)

lemma sim_powered: "powered sim_info sim_blank"
  by (simp add: powered_def sim_info_def sim_blank_def memzero_def)

lemma sim_room: "limit \<le> 8000 \<Longrightarrow> card_room sim_info limit"
  by (simp add: card_room_def sim_csd) (simp add: sim_info_def)

lemma sim_erased: "erased_log limit sim_blank"
  by (simp add: erased_log_def sim_blank_def erased_def memzero_def list_all_iff)

theorem sd_driver_is_reliable_device_witness:
  "reliable_device (sd_platform (sim_spi sim_info 10)) (sd_invar sim_info 10 fst) (sd_addressable sim_info)
    (\<lambda>d b. sd_addressable sim_info b) (sd_contents fst)"
  by (rule sd_driver_is_reliable_device [OF sim_card [OF sim_delay] sim_csd])

theorem sd_raw_initialize_ok_witness:
  "\<exists>s. sd_raw_initialize (sim_spi sim_info 10) 10 (sd_raw_zero, (sim_blank, 0)) = Some (True, s)
    \<and> sd_invar sim_info 10 fst s"
proof -
  have "ci_hc sim_info \<longrightarrow> ci_version2 sim_info" "1 * (37 * ci_polls sim_info + 41) < 1999 * 1000"
    by (simp_all add: sim_info_def)
  moreover have "powered sim_info (fst (sim_blank, 0 :: nat))" "\<not> sd_inBlock sd_raw_zero"
    using sim_powered by (simp_all add: sd_raw_zero_def)
  ultimately show ?thesis using sd_raw_initialize_ok [OF sim_card [OF sim_delay]] by blast
qed

definition sim_fs :: "(card \<times> nat) sd fkfs_t" where
  "sim_fs = \<lparr> fs_headerIndex = 0, fs_cachedBlockDirty = False, fs_cachedBlockNumber = 0,
     fs_numberOfBlocks = 0, fs_header = header_zero, fs_sd = (sd_raw_zero, (sim_blank, 0)),
     fs_buffer = memzero 512, fs_files = replicate 4 settings_zero, fs_statistics = fkfs_statistics_zero \<rparr>"

lemma sim_fresh: "fresh_object (sim_fs\<lparr>fs_sd := d\<rparr>)"
  using header_of_zeros(1) by (simp add: fresh_object_def sim_fs_def wf_fs_def header_zero_def)

theorem log_on_card_survives_power_cycle_witness:
  "\<exists>s fs1 fs2 fs3 s4 fs5 fs6. sd_raw_initialize (sim_spi sim_info 10) 10 (fs_sd sim_fs) = Some (True, s)
    \<and> fkfs_initialize (sd_platform (sim_spi sim_info 10)) (sim_fs\<lparr>fs_sd := s\<rparr>) True = Some (True, fs1)
    \<and> run_ops (sd_platform (sim_spi sim_info 10)) fs1 demo_ops = Some (True, fs2)
    \<and> fkfs_flush (sd_platform (sim_spi sim_info 10)) fs2 = Some (True, fs3)
    \<and> sd_raw_initialize (sim_spi sim_info 10) 10 (sd_raw_zero, snd (fs_sd fs3)) = Some (True, s4)
    \<and> fkfs_initialize (sd_platform (sim_spi sim_info 10)) (sim_fs\<lparr>fs_sd := s4\<rparr>) False = Some (True, fs5)
    \<and> extract_file (sd_platform (sim_spi sim_info 10)) fs5 0 True = Some (True, [4, 5], fs6)"
proof -
  let ?H = "sim_spi sim_info 10" and ?P = "sd_platform (sim_spi sim_info 10)"
  have v: "ci_hc sim_info \<longrightarrow> ci_version2 sim_info" "1 * (37 * ci_polls sim_info + 41) < 1999 * 1000"
    "(0 :: nat) < 3" "fresh_object sim_fs" "\<not> sd_inBlock (fst (fs_sd sim_fs))"
    "powered sim_info (fst (snd (fs_sd sim_fs)))" "erased_log 3 (fst (snd (fs_sd sim_fs)))"
    using sim_fresh [of "fs_sd sim_fs"] sim_powered sim_erased
    by (simp_all add: sim_fs_def sd_raw_zero_def) (simp_all add: sim_info_def)
  have room: "card_room sim_info 3" by (simp add: sim_room)
  from log_on_card_survives_power_cycle [OF sim_card [OF sim_delay] v(1,2) room v(3-) demo_ops_ok, of 10]
  obtain s fs1 fs2 fs3 where st: "sd_raw_initialize ?H 10 (fs_sd sim_fs) = Some (True, s)"
    "fkfs_initialize ?P (sim_fs\<lparr>fs_sd := s\<rparr>) True = Some (True, fs1)"
    "run_ops ?P fs1 demo_ops = Some (True, fs2)" "fkfs_flush ?P fs2 = Some (True, fs3)"
    and pw: "powered sim_info (fst (snd (fs_sd fs3)))"
    and rd: "\<And>fs4 f. powered sim_info (fst (snd (fs_sd fs4))) \<and> fresh_object fs4 \<and> \<not> sd_inBlock (fst (fs_sd fs4))
         \<and> card_blocks (fst (snd (fs_sd fs4))) = card_blocks (fst (snd (fs_sd fs3))) \<and> unat f < 4 \<Longrightarrow>
         \<exists>s4 fs5 fs6. sd_raw_initialize ?H 10 (fs_sd fs4) = Some (True, s4)
            \<and> fkfs_initialize ?P (fs4\<lparr>fs_sd := s4\<rparr>) False = Some (True, fs5)
            \<and> extract_file ?P fs5 f True =
                Some (True, concat (foldl (op_file f) [] demo_ops), fs6)"
    by blast
  have "foldl (op_file 0) [] demo_ops = [[4, 5]]" by (simp add: demo_ops_def)
  with rd [of "sim_fs\<lparr>fs_sd := (sd_raw_zero, snd (fs_sd fs3))\<rparr>" 0] pw sim_fresh
  have "\<exists>s4 fs5 fs6. sd_raw_initialize ?H 10 (sd_raw_zero, snd (fs_sd fs3)) = Some (True, s4)
      \<and> fkfs_initialize ?P (sim_fs\<lparr>fs_sd := s4\<rparr>) False = Some (True, fs5)
      \<and> extract_file ?P fs5 0 True = Some (True, [4, 5], fs6)"
    by (simp add: sd_raw_zero_def)
  then show ?thesis using st by blast
qed



text \<open>The object of a program that has just created it.\<close>

lemma created_reachable: "fs_reachable P (snd (fkfs_create P fs))"
  by (rule created [of P fs "fst (fkfs_create P fs)"]) simp

theorem objects_stay_well_formed_witness:
  "wf_fs (snd (fkfs_create host_platform blank_fs))"
  by (rule objects_stay_well_formed [OF sized_host.sized_platform_axioms created_reachable])

theorem mount_and_sync_return_witness:
  "\<exists>ok fs'. fkfs_flush (sd_platform (script_spi :: unit script spi))
    (snd (fkfs_create (sd_platform script_spi) (fkfs_zero refusing_card))) = Some (ok, fs')"
  using mount_and_sync_return [OF sized_sd.sized_platform_axioms clocked_transfers [OF script_clocked] created_reachable]
  by blast

end
