(* ===== verification/Sd_Dma_Props.thy ===== *)
theory Sd_Dma_Props
  imports Sd_Raw_Dma
begin

text \<open>
  What the DMA transfers of the card's driver do: the descriptors they set up, the channels they
  take, when a wait for a job returns, and what the result of a block transfer says.
\<close>

section \<open>Set-up\<close>

text \<open>How the controller reads a descriptor whose step size is one beat: \<open>beat_bytes\<close> are the sizes of a beat, and
  the \<open>i\<close>-th beat of a transfer goes from \<open>beat_source\<close> to \<open>beat_destination\<close>. An address that is incremented is
  given by its end.\<close>

fun beat_bytes :: "dma_beat_size \<Rightarrow> nat" where
  "beat_bytes DMA_BEAT_SIZE_BYTE = 1"
| "beat_bytes DMA_BEAT_SIZE_HWORD = 2"
| "beat_bytes DMA_BEAT_SIZE_WORD = 4"

definition beat_address :: "bool \<Rightarrow> addr \<Rightarrow> DmacDescriptor \<Rightarrow> nat \<Rightarrow> addr" where
  "beat_address increment end_address desc i =
     (if increment then end_address - of_nat ((unat (BTCNT desc) - i) * beat_bytes (BTCTRL_BEATSIZE desc))
      else end_address)"

definition beat_source :: "DmacDescriptor \<Rightarrow> nat \<Rightarrow> addr" where
  "beat_source desc = beat_address (BTCTRL_SRCINC desc) (SRCADDR desc) desc"

definition beat_destination :: "DmacDescriptor \<Rightarrow> nat \<Rightarrow> addr" where
  "beat_destination desc = beat_address (BTCTRL_DSTINC desc) (DSTADDR desc) desc"

lemma beat_address_end:
  assumes "unat (BTCNT desc) = unat count" "i \<le> unat count" "BTCTRL_BEATSIZE desc = beat_size"
  shows "beat_address inc (if inc then a + ucast (bytes_per_beat beat_size) * count else a) desc i =
    (if inc then a + of_nat (i * beat_bytes beat_size) else a)"
proof -
  have "(ucast (bytes_per_beat beat_size) :: u32) = of_nat (beat_bytes beat_size)"
    by (cases beat_size) (simp_all add: bytes_per_beat_def)
  moreover have "(of_nat ((unat count - i) * beat_bytes beat_size) :: u32) =
      count * of_nat (beat_bytes beat_size) - of_nat (i * beat_bytes beat_size)"
    using assms(2) by (simp add: of_nat_diff left_diff_distrib)
  ultimately show ?thesis using assms by (simp add: beat_address_def mult.commute)
qed

text \<open>C39: a transfer descriptor makes the controller walk exactly the buffer. For fewer than 65536 beats (the
  count of a descriptor has 16 bits) the descriptor is valid and ends the list, has the beat size and the
  increments asked for and the step size one, and the controller takes beat after beat, each of one, two or
  four bytes, from the start of the source on, or from the one address of a register, and likewise to the
  destination.\<close>

theorem transfer_descriptor_covers_buffer:
  assumes "p \<noteq> NULL" "dma_descriptors d p = Some old" "unat transfer_count < 2 ^ 16"
  shows "\<exists>d' desc. setup_transfer_descriptor p source destination transfer_count beat_size src_inc dst_inc d
      = Some (STATUS_OK, d')
    \<and> dma_descriptors d' = (dma_descriptors d)(p \<mapsto> desc) \<and> dma_resources d' = dma_resources d
    \<and> BTCTRL_VALID desc \<and> DESCADDR desc = NULL \<and> unat (BTCNT desc) = unat transfer_count
    \<and> BTCTRL_BEATSIZE desc = beat_size \<and> BTCTRL_SRCINC desc = src_inc \<and> BTCTRL_DSTINC desc = dst_inc
    \<and> BTCTRL_STEPSIZE desc = DMA_ADDRESS_INCREMENT_STEP_SIZE_1
    \<and> (\<forall>i < unat transfer_count.
         beat_source desc i = (if src_inc then source + of_nat (i * beat_bytes beat_size) else source)
         \<and> beat_destination desc i =
             (if dst_inc then destination + of_nat (i * beat_bytes beat_size) else destination))"
proof -
  let ?desc = "descriptor_of_config (transfer_config source destination transfer_count beat_size src_inc dst_inc)"
  have n: "unat (BTCNT ?desc) = unat transfer_count"
    using assms(3)
    by (simp add: descriptor_of_config_def transfer_config_def Let_def unsigned_ucast_eq take_bit_nat_eq_self)
  have f: "BTCTRL_VALID ?desc" "DESCADDR ?desc = NULL" "BTCTRL_BEATSIZE ?desc = beat_size"
    "BTCTRL_SRCINC ?desc = src_inc" "BTCTRL_DSTINC ?desc = dst_inc"
    "BTCTRL_STEPSIZE ?desc = DMA_ADDRESS_INCREMENT_STEP_SIZE_1"
    "SRCADDR ?desc = (if src_inc then source + ucast (bytes_per_beat beat_size) * transfer_count else source)"
    "DSTADDR ?desc = (if dst_inc then destination + ucast (bytes_per_beat beat_size) * transfer_count else destination)"
    by (simp_all add: descriptor_of_config_def transfer_config_def dma_descriptor_get_config_defaults_def Let_def)
  have "beat_source ?desc i = (if src_inc then source + of_nat (i * beat_bytes beat_size) else source)"
    "beat_destination ?desc i = (if dst_inc then destination + of_nat (i * beat_bytes beat_size) else destination)"
    if "i < unat transfer_count" for i
    unfolding beat_source_def beat_destination_def f(4,5,7,8)
    by (rule beat_address_end [OF n less_imp_le [OF that] f(3)])+
  moreover have "setup_transfer_descriptor p source destination transfer_count beat_size src_inc dst_inc d
      = Some (STATUS_OK, set_descriptor p ?desc d)"
    using assms(1,2) by (simp add: setup_transfer_descriptor_def dma_descriptor_create_def deref_def)
  ultimately show ?thesis using n f(1-6) by (intro exI [of _ "set_descriptor p ?desc d"] exI [of _ ?desc]) (simp add: set_descriptor_def)
qed

text \<open>A resource as the initialisation leaves it.\<close>

definition ready_resource :: "nat \<Rightarrow> addr \<Rightarrow> addr \<Rightarrow> dma_resource \<Rightarrow> dma_resource" where
  "ready_resource j descriptor callback res =
     res\<lparr>res_channel_id := of_nat j, res_descriptor := descriptor,
       res_callback := (res_callback res)[1 := callback],
       res_callback_enable := res_callback_enable res OR 2\<rparr>"

definition channel_set_up ::
  "addr \<Rightarrow> addr \<Rightarrow> addr \<Rightarrow> dma_descriptor_config \<Rightarrow> dma_resource \<Rightarrow> 'w dma \<Rightarrow> nat \<Rightarrow> 'w dma \<Rightarrow> bool" where
  "channel_set_up p a f config res d j d' \<longleftrightarrow> dma_inv d' \<and> j < 5 \<and> j \<notin> used d \<and> used d' = insert j (used d)
     \<and> dma_active_resource d' = (dma_active_resource d)[j := p]
     \<and> dma_resources d' = (dma_resources d)(p \<mapsto> ready_resource j a f res)
     \<and> dma_descriptors d' = (dma_descriptors d)(a \<mapsto> descriptor_of_config config)"

lemma setup_channel_ok:
  assumes inv: "dma_inv d" and free: "used d \<noteq> {..<5}"
    and p: "p \<noteq> NULL" "p \<notin> set (dma_active_resource d)" "dma_resources d p = Some res"
      "res_job_status res \<noteq> STATUS_BUSY"
    and a: "a \<noteq> NULL" "dma_descriptors d a = Some old"
  shows "\<exists>d' j. setup_channel D p a trigger (setup_transfer_descriptor a source destination count beat si di) f d
      = Some (True, d')
    \<and> channel_set_up p a f (transfer_config source destination count beat si di) res d j d'"
proof -
  let ?c = "dma_get_config_defaults\<lparr>rc_peripheral_trigger := trigger, rc_trigger_action := DMA_TRIGGER_ACTION_BEAT\<rparr>"
  let ?desc = "descriptor_of_config (transfer_config source destination count beat si di)"
  obtain j where j: "first_free d j" using search_result [of d] free by blast
  then have j5: "j < 5" "j \<notin> used d" by (simp_all add: first_free_def)
  have l: "length (dma_active_resource d) = 5" "length (g_chan_interrupt_flag d) = 5"
    using inv by (simp_all add: dma_inv_def dma_tables_def)
  obtain d1 where d1: "dma_allocate D p ?c d = Some (STATUS_OK, d1)"
    "agree ((take_channel j p (fresh_resource j res) d)\<lparr>dma_init := True\<rparr>) d1"
    using allocate_free_channel [OF j p(1,3) l(1)] by blast
  note f1 = d1(2) [unfolded agree_def take_channel_def, simplified]
  have i1: "dma_inv d1" using allocate_inv [OF inv p(2) d1(1)] .
  have u1: "used d1 = insert j (used d)"
    using agree_used [OF d1(2)] used_take [OF j5(1), of p "fresh_resource j res" d] by (simp add: used_def)
  let ?d2 = "set_descriptor a ?desc d1"
  have d2: "setup_transfer_descriptor a source destination count beat si di d1 = Some (STATUS_OK, ?d2)"
    using a f1 by (simp add: setup_transfer_descriptor_def dma_descriptor_create_def deref_def)
  let ?d3 = "set_resource p ((fresh_resource j res)\<lparr>res_descriptor := a\<rparr>) ?d2"
  have d3: "dma_add_descriptor p a ?d2 = Some (STATUS_OK, ?d3)"
    using p(1,4) f1 by (simp add: dma_add_descriptor_def deref_def set_descriptor_def fresh_resource_def)
  let ?r4 = "(fresh_resource j res)\<lparr>res_descriptor := a, res_callback := (res_callback res)[1 := f]\<rparr>"
  let ?d4 = "set_resource p ?r4 ?d3"
  have d4: "dma_register_callback p f DMA_CALLBACK_TRANSFER_DONE ?d3 = Some ?d4"
    using p(1) by (simp add: dma_register_callback_def deref_def set_resource_def fresh_resource_def)
  obtain d5 where d5: "dma_enable_callback p DMA_CALLBACK_TRANSFER_DONE ?d4 = Some d5"
      "dma_resources d5 = (dma_resources d)(p \<mapsto> ready_resource j a f res)" "used d5 = used d1"
      "dma_active_resource d5 = dma_active_resource d1" "dma_descriptors d5 = (dma_descriptors d)(a \<mapsto> ?desc)"
    using p(1) j5(1) l(2) f1 channel_u8(1) [OF j5(1)]
    by (simp add: dma_enable_callback_def deref_def set_resource_def set_descriptor_def fresh_resource_def
        at_def ready_resource_def used_def)
  have "dma_inv d5"
    using i1 descriptor_inv(2) [OF _ d3] callback_inv(3) [OF _ d4] callback_inv(1) [OF _ d5(1)] by simp
  moreover have "setup_channel D p a trigger (setup_transfer_descriptor a source destination count beat si di) f d
      = Some (True, d5)"
    using d1(1) d2 d3 d4 d5(1) by (simp add: setup_channel_def)
  moreover have "channel_set_up p a f (transfer_config source destination count beat si di) res d j d5"
    using \<open>dma_inv d5\<close> j5 u1 d5 f1 by (simp add: channel_set_up_def)
  ultimately show ?thesis by blast
qed

lemma setup_channel_full:
  assumes "used d = {..<5}" "p \<noteq> NULL"
  shows "\<exists>d'. setup_channel D p a trigger setup f d = Some (False, d') \<and> agree (d\<lparr>dma_init := True\<rparr>) d'"
proof -
  obtain d' where "dma_allocate D p (dma_get_config_defaults\<lparr>rc_peripheral_trigger := trigger,
      rc_trigger_action := DMA_TRIGGER_ACTION_BEAT\<rparr>) d = Some (STATUS_ERR_NOT_FOUND, d')"
    "agree (d\<lparr>dma_init := True\<rparr>) d'"
    using allocate_no_channel [OF assms] by blast
  then show ?thesis by (simp add: setup_channel_def)
qed

text \<open>A structure whose parts exist, are apart and are not in use.\<close>

definition sdd_ready :: "sd_raw_dma_t \<Rightarrow> 'w dma \<Rightarrow> bool" where
  "sdd_ready sdd d \<longleftrightarrow> sdd_tx_resource sdd \<noteq> sdd_rx_resource sdd \<and> sdd_tx_descriptor sdd \<noteq> sdd_rx_descriptor sdd
     \<and> (\<forall>p \<in> {sdd_tx_resource sdd, sdd_rx_resource sdd}. p \<noteq> NULL \<and> p \<notin> set (dma_active_resource d)
          \<and> (\<exists>res. dma_resources d p = Some res \<and> res_job_status res \<noteq> STATUS_BUSY))
     \<and> (\<forall>a \<in> {sdd_tx_descriptor sdd, sdd_rx_descriptor sdd}. a \<noteq> NULL \<and> dma_descriptors d a \<noteq> None)"

lemma set_list_update_neq: "q \<notin> set xs \<Longrightarrow> q \<noteq> p \<Longrightarrow> q \<notin> set (xs[j := p])"
  by (meson insertE set_update_subset_insert subsetD)

lemma used_not_full: "card (used d) < 5 \<Longrightarrow> used d \<noteq> {..<5}"
  by (metis card_lessThan nat_neq_iff)

lemma used_full: "card (used d) = 5 \<Longrightarrow> used d = {..<5}"
  by (rule card_subset_eq) (auto simp: used_def)

text \<open>C40: the initialisation takes two channels and gives each its resource, with the
  transmit descriptor reading the source buffer and the receive descriptor writing the destination
  buffer byte by byte through the data register.\<close>

theorem sd_raw_dma_initialize_ok:
  assumes inv: "dma_inv d" and room: "card (used d) + 2 \<le> CONF_MAX_USED_CHANNEL_NUM" and sdd: "sdd_ready sdd d"
  shows "\<exists>d' jt jr rt rr. sd_raw_dma_initialize D S sdd source destination len d = Some (True, d')
    \<and> dma_inv d' \<and> jt \<noteq> jr \<and> jt \<notin> used d \<and> jr \<notin> used d \<and> used d' = {jt, jr} \<union> used d
    \<and> dma_active_resource d' ! jt = sdd_tx_resource sdd \<and> dma_active_resource d' ! jr = sdd_rx_resource sdd
    \<and> dma_resources d (sdd_tx_resource sdd) = Some rt \<and> dma_resources d (sdd_rx_resource sdd) = Some rr
    \<and> dma_resources d' (sdd_tx_resource sdd) = Some (ready_resource jt (sdd_tx_descriptor sdd) (tx_callback S) rt)
    \<and> dma_resources d' (sdd_rx_resource sdd) = Some (ready_resource jr (sdd_rx_descriptor sdd) (rx_callback S) rr)
    \<and> dma_descriptors d' (sdd_tx_descriptor sdd) = Some (descriptor_of_config
        (transfer_config source (SERCOM4_SPI_DATA S) len DMA_BEAT_SIZE_BYTE True False))
    \<and> dma_descriptors d' (sdd_rx_descriptor sdd) = Some (descriptor_of_config
        (transfer_config (SERCOM4_SPI_DATA S) destination len DMA_BEAT_SIZE_BYTE False True))"
proof -
  let ?tx = "sdd_tx_resource sdd" and ?rx = "sdd_rx_resource sdd"
  let ?ta = "sdd_tx_descriptor sdd" and ?ra = "sdd_rx_descriptor sdd"
  obtain rt rr ot orx where s: "?tx \<noteq> NULL" "?tx \<notin> set (dma_active_resource d)" "dma_resources d ?tx = Some rt"
      "res_job_status rt \<noteq> STATUS_BUSY" "?ta \<noteq> NULL" "dma_descriptors d ?ta = Some ot"
    and r: "?rx \<noteq> NULL" "?rx \<notin> set (dma_active_resource d)" "dma_resources d ?rx = Some rr"
      "res_job_status rr \<noteq> STATUS_BUSY" "?ra \<noteq> NULL" "dma_descriptors d ?ra = Some orx"
    and n: "?tx \<noteq> ?rx" "?ta \<noteq> ?ra"
    using sdd unfolding sdd_ready_def by auto
  have u: "used d \<noteq> {..<5}" using room by (intro used_not_full) simp
  let ?ct = "transfer_config source (SERCOM4_SPI_DATA S) len DMA_BEAT_SIZE_BYTE True False"
  obtain d1 jt where d1: "setup_channel D ?tx ?ta (SERCOM4_DMAC_ID_TX S) (setup_transfer_descriptor ?ta source
        (SERCOM4_SPI_DATA S) len DMA_BEAT_SIZE_BYTE True False) (tx_callback S) d = Some (True, d1)"
      and c1: "channel_set_up ?tx ?ta (tx_callback S) ?ct rt d jt d1"
    using setup_channel_ok [OF inv u s(1-6)] by blast
  note e1 = c1 [unfolded channel_set_up_def]
  then have i1: "dma_inv d1" by simp
  have u1: "used d1 \<noteq> {..<5}" using e1 room by (intro used_not_full) simp
  have r1: "?rx \<notin> set (dma_active_resource d1)" "dma_resources d1 ?rx = Some rr" "dma_descriptors d1 ?ra = Some orx"
    using r(2,3,6) n e1 set_list_update_neq [of ?rx _ ?tx] by simp_all
  let ?cr = "transfer_config (SERCOM4_SPI_DATA S) destination len DMA_BEAT_SIZE_BYTE False True"
  obtain d2 jr where d2: "setup_channel D ?rx ?ra (SERCOM4_DMAC_ID_RX S) (setup_transfer_descriptor ?ra
        (SERCOM4_SPI_DATA S) destination len DMA_BEAT_SIZE_BYTE False True) (rx_callback S) d1 = Some (True, d2)"
      and c2: "channel_set_up ?rx ?ra (rx_callback S) ?cr rr d1 jr d2"
    using setup_channel_ok [OF i1 u1 r(1) r1(1,2) r(4,5) r1(3)] by blast
  note e2 = c2 [unfolded channel_set_up_def]
  have l: "length (dma_active_resource d) = 5" using inv by (simp add: dma_inv_def dma_tables_def)
  have j: "jt \<noteq> jr" "jr \<notin> used d" using e1 e2 by auto
  have i: "sd_raw_dma_initialize D S sdd source destination len d = Some (True, d2)"
    by (simp add: sd_raw_dma_initialize_def d1 d2)
  have u2: "used d2 = {jt, jr} \<union> used d" using e1 e2 by auto
  show ?thesis
    by (intro exI [of _ d2] exI [of _ jt] exI [of _ jr] exI [of _ rt] exI [of _ rr])
      (use e1 e2 l j i u2 n s(3) r(3) in simp)
qed

text \<open>With a single channel left the initialisation fails, and the channel it had taken
  for the transmitter is not given back: no channel is free any more.\<close>

lemma sd_raw_dma_initialize_leaks_channel:
  assumes inv: "dma_inv d" and room: "card (used d) + 1 = CONF_MAX_USED_CHANNEL_NUM" and sdd: "sdd_ready sdd d"
  shows "\<exists>d'. sd_raw_dma_initialize D S sdd source destination len d = Some (False, d')
    \<and> sdd_tx_resource sdd \<in> set (dma_active_resource d') \<and> free_channels d' = 0"
proof -
  let ?tx = "sdd_tx_resource sdd" and ?rx = "sdd_rx_resource sdd" and ?ta = "sdd_tx_descriptor sdd"
  obtain rt ot where s: "?tx \<noteq> NULL" "?tx \<notin> set (dma_active_resource d)" "dma_resources d ?tx = Some rt"
      "res_job_status rt \<noteq> STATUS_BUSY" "?ta \<noteq> NULL" "dma_descriptors d ?ta = Some ot" and r: "?rx \<noteq> NULL"
    using sdd unfolding sdd_ready_def by auto
  have u: "used d \<noteq> {..<5}" using room by (intro used_not_full) simp
  let ?ct = "transfer_config source (SERCOM4_SPI_DATA S) len DMA_BEAT_SIZE_BYTE True False"
  obtain d1 jt where d1: "setup_channel D ?tx ?ta (SERCOM4_DMAC_ID_TX S) (setup_transfer_descriptor ?ta source
        (SERCOM4_SPI_DATA S) len DMA_BEAT_SIZE_BYTE True False) (tx_callback S) d = Some (True, d1)"
      and c1: "channel_set_up ?tx ?ta (tx_callback S) ?ct rt d jt d1"
    using setup_channel_ok [OF inv u s(1-6)] by blast
  note e1 = c1 [unfolded channel_set_up_def]
  have c: "card (used d1) = 5" using e1 room by simp
  then have "used d1 = {..<5}" by (rule used_full)
  from setup_channel_full [OF this r] obtain d2 where d2: "setup_channel D ?rx (sdd_rx_descriptor sdd) (SERCOM4_DMAC_ID_RX S)
      (setup_transfer_descriptor (sdd_rx_descriptor sdd) (SERCOM4_SPI_DATA S) destination len DMA_BEAT_SIZE_BYTE
         False True) (rx_callback S) d1 = Some (False, d2)" "agree (d1\<lparr>dma_init := True\<rparr>) d2"
    by blast
  have "free_channels d1 = 0" using e1 c by (simp add: dma_inv_def dma_tables_def unat_eq_0)
  moreover have "?tx \<in> set (dma_active_resource d1)"
    using inv e1 by (auto simp: dma_inv_def dma_tables_def set_update_memI)
  moreover have "sd_raw_dma_initialize D S sdd source destination len d = Some (False, d2)"
    by (simp add: sd_raw_dma_initialize_def d1 d2(1))
  ultimately show ?thesis using d2(2) by (simp add: agree_def)
qed

section \<open>Waiting for a job\<close>

text \<open>The world after \<open>k\<close> polls without an interrupt.\<close>

definition polled :: "'w dmac \<Rightarrow> nat \<Rightarrow> 'w \<Rightarrow> 'w" where
  "polled D k w = ((\<lambda>w. snd (dmac_irq D w)) ^^ k) w"

lemma polled_simps [simp]: "polled D 0 w = w" "polled D (Suc k) w = polled D k (snd (dmac_irq D w))"
  by (simp_all add: polled_def funpow_Suc_right del: funpow.simps(2))

text \<open>The wait for a job ends with the first interrupt after which the job is no longer
  busy, however many polls it takes until then.\<close>

lemma wait_job_returns:
  assumes "p \<noteq> NULL" "dma_resources d p = Some res" "res_job_status res = STATUS_BUSY"
    and quiet_polls: "\<forall>i < k. \<not> fst (dmac_irq D (polled D i (dma_world d)))"
    and irq: "fst (dmac_irq D (polled D k (dma_world d)))"
    and handled: "DMAC_Handler D call (d\<lparr>dma_world := polled D (Suc k) (dma_world d)\<rparr>) = Some d'"
    and finished: "dma_resources d' p = Some res'" "res_job_status res' \<noteq> STATUS_BUSY"
  shows "wait_job D call p d = Some d'"
  using assms(2) quiet_polls irq handled
proof (induction k arbitrary: d)
  case 0
  have "wait_job D call p d' = Some d'"
    using assms(1) finished by (subst wait_job.simps) (simp add: dma_get_job_status_def deref_def)
  then show ?case
    using 0 assms(1,3)
    by (subst wait_job.simps) (simp add: dma_get_job_status_def deref_def case_prod_beta Let_def)
next
  case (Suc k)
  let ?d = "d\<lparr>dma_world := snd (dmac_irq D (dma_world d))\<rparr>"
  have "\<not> fst (dmac_irq D (dma_world d))" using Suc.prems(2) by (metis polled_simps(1) zero_less_Suc)
  moreover have "\<forall>i < k. \<not> fst (dmac_irq D (polled D i (dma_world ?d)))"
    using Suc.prems(2) by (metis Suc_less_eq dma.select_convs(9) dma.surjective dma.update_convs(9) polled_simps(2))
  then have "wait_job D call p ?d = Some d'"
    using Suc.IH [of ?d] Suc.prems(1,3,4) by simp
  ultimately show ?case
    using Suc.prems(1) assms(1,3)
    by (subst wait_job.simps) (simp add: dma_get_job_status_def deref_def case_prod_beta Let_def)
qed

text \<open>Without an interrupt the wait never ends: unlike the waits of the polled driver it has
  no time limit.\<close>

lemma wait_job_without_interrupt_hangs:
  assumes "p \<noteq> NULL" "dma_resources d p = Some res" "res_job_status res = STATUS_BUSY"
    and "\<forall>w. \<not> fst (dmac_irq D w)"
  shows "wait_job D call p d = None"
proof (rule ccontr)
  assume "wait_job D call p d \<noteq> None"
  then obtain y where y: "wait_job D call p d = Some y" by auto
  have "dma_resources d p = Some res \<longrightarrow> p \<noteq> NULL \<longrightarrow> (\<forall>w. \<not> fst (dmac_irq D w)) \<longrightarrow> False"
  proof (rule wait_job.raw_induct [where P = "\<lambda>D call p d y. dma_resources d p = Some res \<longrightarrow> p \<noteq> NULL \<longrightarrow>
      (\<forall>w. \<not> fst (dmac_irq D w)) \<longrightarrow> False", OF _ y], goal_cases)
    case (1 loop D call p d y)
    from 1(2) show ?case
      using assms(3)
      by (auto simp: dma_get_job_status_def deref_def bind_eq_Some_conv case_prod_beta Let_def
          split: if_splits dest!: 1(1))
  qed
  then show False using assms by simp
qed

section \<open>Block transfers\<close>

text \<open>The result of a read by DMA says only that the card accepted the command and sent a
  start token. A transfer that fails (or that could not be started) is not noticed: whatever the
  status of the jobs, a read that returns after the start token returns success.\<close>

lemma sd_raw_dma_read_ignores_transfer_status:
  assumes "sd_raw_dma_read_block H D S sdd block s = Some (ok, s')"
    and "sd_command H CMD17 block s = Some (0, sd, d)"
    and "sd_wait_start_block H (sd, dma_world d) = Some (started, sd1, w)"
  shows "ok \<longleftrightarrow> started"
  using assms
  by (auto simp: sd_raw_dma_read_block_def bind_eq_Some_conv sd_error_def sd_raw_error_def Let_def
      case_prod_beta split: if_splits)

text \<open>The DMA functions hand the block number to the card as it is. That is the address the polled
  functions use exactly on SDHC cards, and on others for block 0 only.\<close>

lemma sd_address_is_block: "sd_address sd block = block \<longleftrightarrow> sd_type sd = SD_CARD_TYPE_SDHC \<or> block = 0"
proof -
  have "block = 0" if "push_bit 9 block = block"
  proof (rule bit_eqI)
    fix n
    show "bit block n = bit 0 n"
    proof (induction n rule: less_induct)
      case (less n)
      have "bit block n = bit (push_bit 9 block) n" using that by simp
      also have "\<dots> = (9 \<le> n \<and> n < 32 \<and> bit block (n - 9))"
        by (auto simp: bit_push_bit_iff dest: bit_imp_le_length)
      finally show ?case using less [of "n - 9"] by auto
    qed
  qed
  then show ?thesis by (auto simp: sd_address_def)
qed

end
