(* ===== verification/Dma_Examples.thy ===== *)
theory Dma_Examples
  imports Sd_Dma_Props Sd_Raw_Examples
begin

text \<open>
  A simulated controller, with the masks of a SAMD21, and the properties of the DMA driver at work
  on it. Its interrupt names the channel and the flags of its state, and it counts critical
  sections.
\<close>

record sim =
  sim_depth :: int
  sim_intpend :: u32
  sim_flags :: u32

type_synonym sim_world = "sim script"

definition sim_reg :: "dmac_reg \<Rightarrow> sim \<Rightarrow> u32" where
  "sim_reg r w = (case r of INTPEND \<Rightarrow> sim_intpend w | CHINTFLAG \<Rightarrow> sim_flags w | _ \<Rightarrow> 0)"

definition sim_dmac :: "bool \<Rightarrow> sim_world dmac" where
  "sim_dmac irq =
     \<lparr> dmac_read = (\<lambda>r (bs, t, w). (sim_reg r w, (bs, t, w))), dmac_write = (\<lambda>r v w. w),
       dmac_write_back_BTCNT = (\<lambda>w c. 0),
       system_interrupt_enter_critical_section = (\<lambda>(bs, t, w). (bs, t, w\<lparr>sim_depth := sim_depth w + 1\<rparr>)),
       system_interrupt_leave_critical_section = (\<lambda>(bs, t, w). (bs, t, w\<lparr>sim_depth := sim_depth w - 1\<rparr>)),
       system_clock_set_mask_DMAC = (\<lambda>w. w), system_interrupt_enable_DMA = (\<lambda>w. w),
       dmac_irq = (\<lambda>w. (irq, w)), DMAC_CTRL_DMAENABLE = 2, DMAC_CTRL_SWRST = 1,
       DMAC_CTRL_LVLEN = (\<lambda>v. push_bit 8 (v AND 0xf)), DMAC_CHID_ID = (\<lambda>c. ucast c AND 0xf),
       DMAC_CHCTRLA_ENABLE = 2, DMAC_CHCTRLA_SWRST = 1, DMAC_CHCTRLB_LVL = (\<lambda>p. 0),
       DMAC_CHCTRLB_TRIGSRC = (\<lambda>v. push_bit 8 (ucast v)), DMAC_CHCTRLB_TRIGACT = (\<lambda>a. push_bit 22 2),
       DMAC_CHCTRLB_EVIE = 8, DMAC_CHCTRLB_EVACT = (\<lambda>a. 0), DMAC_CHCTRLB_EVOE = 16,
       DMAC_CHCTRLB_CMD_SUSPEND = push_bit 24 1, DMAC_CHCTRLB_CMD_RESUME = push_bit 24 2,
       DMAC_INTPEND_ID_Msk = 0xf, DMAC_CHINTENCLR_TERR = 1, DMAC_CHINTENCLR_TCMPL = 2,
       DMAC_CHINTENCLR_SUSP = 4, DMAC_CHINTENSET_MASK = 7, descriptor_section_addr = 0x2000,
       write_back_section_addr = 0x2100 \<rparr>"

definition sim_sercom :: "sim_world sercom" where
  "sim_sercom = \<lparr> spi_beginTransaction = (\<lambda>w. w), spi_endTransaction = (\<lambda>w. w), SERCOM4_DMAC_ID_TX = 0xA,
     SERCOM4_DMAC_ID_RX = 9, SERCOM4_SPI_DATA = 0x42001828, tx_callback = 0x800, rx_callback = 0x900 \<rparr>"

definition sim_resource :: dma_resource where
  "sim_resource = \<lparr> res_channel_id = 0, res_callback = [NULL, NULL, NULL], res_callback_enable = 0,
     res_job_status = STATUS_OK, res_transfered_size = 0, res_descriptor = NULL \<rparr>"

text \<open>Two resources and two descriptors, in memory that starts out as zeros.\<close>

definition sim_resources :: "addr \<rightharpoonup> dma_resource" where
  "sim_resources = [0x100 \<mapsto> sim_resource, 0x200 \<mapsto> sim_resource]"

definition sim_descriptors :: "addr \<rightharpoonup> DmacDescriptor" where
  "sim_descriptors = [0x300 \<mapsto> dma_descriptor_zero, 0x400 \<mapsto> dma_descriptor_zero]"

definition sim_start :: "sim_world" where
  "sim_start = ([], 0, \<lparr> sim_depth = 0, sim_intpend = 0, sim_flags = 2 \<rparr>)"

definition sim_boot :: "sim_world dma" where
  "sim_boot = dma_boot sim_resources sim_descriptors sim_start"

definition sim_call :: "addr \<Rightarrow> addr \<Rightarrow> sim_world dma \<Rightarrow> sim_world dma option" where
  "sim_call = sd_dma_call sim_sercom"

lemma sim_callbacks: "\<forall>p res. sim_resources p = Some res \<longrightarrow> length (res_callback res) = 3"
  by (auto simp: sim_resources_def sim_resource_def)

lemma sim_call_result: "sim_call f p d = Some d' \<Longrightarrow> d' = d"
  by (auto simp: sim_call_def sd_dma_call_def dma_tx_callback_def dma_rx_callback_def split: if_splits)

lemma sim_keeps_inv: "keeps_inv sim_call"
  by (auto simp: keeps_inv_def dest!: sim_call_result)

lemma sim_boot_inv: "dma_inv sim_boot"
  unfolding sim_boot_def using sim_callbacks by (rule boot_inv)

lemma sim_boot_fields [simp]:
  "dma_resources sim_boot = sim_resources" "dma_descriptors sim_boot = sim_descriptors"
  "dma_active_resource sim_boot = [0, 0, 0, 0, 0]" "used sim_boot = {}" "dma_world sim_boot = sim_start"
  "descriptor_section sim_boot = replicate 5 dma_descriptor_zero" "g_chan_interrupt_flag sim_boot = [0, 0, 0, 0, 0]"
  by (simp_all add: sim_boot_def dma_boot_def used_def eval_nat_numeral)

lemma sim_resources_at [simp]: "sim_resources 0x100 = Some sim_resource" "sim_resources 0x200 = Some sim_resource"
  by (simp_all add: sim_resources_def)

lemma sim_descriptors_at [simp]:
  "sim_descriptors 0x300 = Some dma_descriptor_zero" "sim_descriptors 0x400 = Some dma_descriptor_zero"
  by (simp_all add: sim_descriptors_def)

lemma used_init [simp]: "used (d\<lparr>dma_init := b\<rparr>) = used d"
  by (simp add: used_def)

lemma sim_write_back [simp]: "dmac_write_back_BTCNT (sim_dmac irq) w c = 0"
  by (simp add: sim_dmac_def)

lemma not_all_channels: "{} \<noteq> {..<5::nat}"
  by (metis empty_iff lessThan_iff zero_less_numeral)

text \<open>The first channel in the hands of the first resource, which is busy or suspended.\<close>

definition sim_job :: "status_code \<Rightarrow> sim_world dma" where
  "sim_job st = take_channel 0 0x100 (sim_resource\<lparr>res_job_status := st, res_descriptor := 0x300\<rparr>) sim_boot"

lemma sim_first_free: "first_free sim_boot 0"
  by (simp add: first_free_def)

lemma sim_job_inv: "dma_inv (sim_job st)"
  unfolding sim_job_def
  by (rule dma_inv_take [OF sim_boot_inv sim_first_free]) (simp_all add: sim_resource_def)

lemma sim_job_fields [simp]:
  "dma_resources (sim_job st) = sim_resources(0x100 \<mapsto> sim_resource\<lparr>res_job_status := st, res_descriptor := 0x300\<rparr>)"
  "dma_descriptors (sim_job st) = sim_descriptors" "dma_active_resource (sim_job st) = [0x100, 0, 0, 0, 0]"
  "used (sim_job st) = {0}" "dma_world (sim_job st) = sim_start"
  "descriptor_section (sim_job st) = replicate 5 dma_descriptor_zero"
  "g_chan_interrupt_flag (sim_job st) = [0, 0, 0, 0, 0]"
  using used_take [of 0 "0x100" "sim_resource\<lparr>res_job_status := st, res_descriptor := 0x300\<rparr>" sim_boot]
  by (simp_all add: sim_job_def take_channel_def)

section \<open>The controller's driver\<close>

theorem dma_tables_consistent_witness:
  "\<exists>d. dma_run (sim_dmac True) sim_call sim_boot d \<and> used d = {0}
    \<and> dma_active_resource d ! 0 \<noteq> NULL \<and> unat (free_channels d) + card (used d) = 5"
proof -
  obtain d where d: "dma_allocate (sim_dmac True) 0x100 dma_get_config_defaults sim_boot = Some (STATUS_OK, d)"
    "agree ((take_channel 0 0x100 (fresh_resource 0 sim_resource) sim_boot)\<lparr>dma_init := True\<rparr>) d"
    using allocate_free_channel [OF sim_first_free, where p = "0x100" and res = sim_resource and D = "sim_dmac True"] by simp blast
  have "dma_op (sim_dmac True) sim_call sim_boot d" by (rule dma_op.Allocate [OF _ d(1)]) simp
  then have r: "dma_run (sim_dmac True) sim_call sim_boot d" by (metis run_refl run_step Op)
  have u: "used d = {0}"
    using agree_used [OF d(2)] used_take [of 0 "0x100" "fresh_resource 0 sim_resource" sim_boot] by simp
  note t = dma_tables_consistent [OF sim_callbacks sim_keeps_inv r [unfolded sim_boot_def]]
  then have "0 \<in> used d \<longleftrightarrow> dma_active_resource d ! 0 \<noteq> NULL" by (metis zero_less_numeral)
  then have "dma_active_resource d ! 0 \<noteq> NULL" using u by simp
  with r u t show ?thesis by (intro exI [of _ d]) simp
qed

theorem dma_allocate_lowest_free_witness:
  "\<exists>d' j. dma_allocate (sim_dmac True) 0x200 dma_get_config_defaults (sim_job STATUS_OK) = Some (STATUS_OK, d')
    \<and> j \<notin> {0} \<and> (\<forall>i < j. i = 0) \<and> used d' = insert j {0}"
proof -
  have "used (sim_job STATUS_OK) \<noteq> {..<5}" by (rule used_not_full) simp
  then show ?thesis
    using dma_allocate_lowest_free [OF sim_job_inv [of STATUS_OK], where p = "0x200" and res = sim_resource
        and D = "sim_dmac True" and config = dma_get_config_defaults]
    by simp blast
qed

theorem dma_allocate_free_roundtrip_witness:
  "\<exists>d1 d2. dma_allocate (sim_dmac True) 0x100 dma_get_config_defaults sim_boot = Some (STATUS_OK, d1)
    \<and> dma_free (sim_dmac True) 0x100 d1 = Some (STATUS_OK, d2)
    \<and> allocated_channels d2 = allocated_channels sim_boot \<and> free_channels d2 = free_channels sim_boot
    \<and> dma_active_resource d2 = dma_active_resource sim_boot"
  by (rule dma_allocate_free_roundtrip [OF sim_boot_inv, where res = sim_resource])
    (simp_all add: sim_resource_def not_all_channels)

lemma dma_stale_free_takes_channel_example:
  "\<exists>d'. dma_free (sim_dmac True) 0x200 (sim_job STATUS_BUSY) = Some (STATUS_OK, d')
    \<and> 0x100 \<notin> set (dma_active_resource d') \<and> used d' = {}"
proof -
  have "\<exists>d'. dma_free (sim_dmac True) 0x200 (sim_job STATUS_BUSY) = Some (STATUS_OK, d')
    \<and> 0x100 \<notin> set (dma_active_resource d') \<and> used d' = used (sim_job STATUS_BUSY) - {0}"
    by (rule dma_stale_free_takes_channel [OF _ _ _ sim_job_inv, where res = sim_resource])
      (simp_all add: sim_resource_def)
  then show ?thesis by simp
qed

theorem dma_add_descriptor_appends_witness:
  "\<exists>d' res'. dma_add_descriptor 0x100 0x400 (sim_job STATUS_OK) = Some (STATUS_OK, d')
    \<and> dma_resources d' 0x100 = Some res'
    \<and> desc_list (dma_descriptors d') (res_descriptor res') [0x300, 0x400]"
proof -
  have l: "desc_list sim_descriptors 0x300 [0x300]" by (simp add: dma_descriptor_zero_def)
  show ?thesis
    using dma_add_descriptor_appends [where p = "0x100" and d = "sim_job STATUS_OK" and a = "0x400"
        and as = "[0x300]" and end_node = dma_descriptor_zero
        and res = "sim_resource\<lparr>res_job_status := STATUS_OK, res_descriptor := 0x300\<rparr>"] l
    by (auto simp: dma_descriptor_zero_def)
qed

lemma dma_add_descriptor_twice_hangs_example:
  "\<exists>d1 d2. dma_add_descriptor 0x100 0x300 sim_boot = Some (STATUS_OK, d1)
    \<and> dma_add_descriptor 0x100 0x300 d1 = Some (STATUS_OK, d2) \<and> dma_add_descriptor 0x100 0x400 d2 = None"
  using dma_add_descriptor_twice_hangs [where p = "0x100" and d = sim_boot and a = "0x300"
      and node = dma_descriptor_zero and res = sim_resource]
  by (auto simp: sim_resource_def dma_descriptor_zero_def)

lemma dma_start_transfer_job_cases_example:
  "\<exists>d'. dma_start_transfer_job (sim_dmac True) 0x100 (sim_job STATUS_OK) = Some (STATUS_ERR_INVALID_ARG, d')"
  using dma_start_transfer_job_cases [where p = "0x100" and d = "sim_job STATUS_OK" and j = 0
      and desc = dma_descriptor_zero and D = "sim_dmac True"
      and res = "sim_resource\<lparr>res_job_status := STATUS_OK, res_descriptor := 0x300\<rparr>"]
  by (auto simp: sim_resource_def dma_descriptor_zero_def)

theorem dma_resume_job_bounded_witness:
  "\<exists>d'. dma_resume_job (sim_dmac True) 0x100 (sim_job STATUS_SUSPEND) = Some d'
    \<and> dma_resources d' = sim_resources(0x100 \<mapsto>
        sim_resource\<lparr>res_job_status := STATUS_ERR_TIMEOUT, res_descriptor := 0x300\<rparr>)"
proof -
  have "busy_poll (sim_dmac True) k w = 0" for k w
    by (simp add: busy_poll_def sim_dmac_def case_prod_beta sim_reg_def)
  then show ?thesis
    using dma_resume_job_bounded [where p = "0x100" and d = "sim_job STATUS_SUSPEND" and j = 0
        and D = "sim_dmac True"
        and res = "sim_resource\<lparr>res_job_status := STATUS_SUSPEND, res_descriptor := 0x300\<rparr>"]
    by (simp add: sim_resource_def)
qed

text \<open>The state when the handler has read the pending channel and its flags.\<close>

lemma sim_pending:
  "reg_get (sim_dmac True) INTPEND (enter_critical (sim_dmac True) (sim_job st)) =
     (0, enter_critical (sim_dmac True) (sim_job st))"
  "select_flags (sim_dmac True) c (enter_critical (sim_dmac True) (sim_job st)) =
     (2, enter_critical (sim_dmac True) (sim_job st))"
  by (simp_all add: select_flags_def reg_get_def reg_put_def enter_critical_def world_def sim_dmac_def
      sim_reg_def sim_start_def)

lemma sim_quiet: "quiet sim_call (sim_resource\<lparr>res_job_status := st, res_descriptor := a\<rparr>)"
  by (simp add: quiet_def sim_resource_def)

theorem dma_handler_updates_owner_witness:
  "\<exists>d'. DMAC_Handler (sim_dmac True) sim_call (sim_job STATUS_BUSY) = Some d'
    \<and> dma_resources d' = sim_resources(0x100 \<mapsto> sim_resource\<lparr>res_job_status := STATUS_OK, res_descriptor := 0x300\<rparr>)"
proof -
  have p: "pending_channel (sim_dmac True) 0 = of_nat 0" by (simp add: pending_channel_def)
  have f: "flag_status (sim_dmac True) 2 st = STATUS_OK" for st
    by (simp add: flag_status_def sim_dmac_def)
  have r: "dma_resources (sim_job STATUS_BUSY) (dma_active_resource (sim_job STATUS_BUSY) ! 0) =
      Some (sim_resource\<lparr>res_job_status := STATUS_BUSY, res_descriptor := 0x300\<rparr>)"
    by simp
  show ?thesis
    using dma_handler_updates_owner [OF sim_job_inv r sim_quiet sim_pending(1) p _ sim_pending(2) refl] f
    by (simp add: dma_descriptor_zero_def sim_resource_def) blast
qed

theorem dma_critical_sections_balanced_witness:
  "\<exists>d'. dma_start_transfer_job (sim_dmac True) 0x100 (sim_job STATUS_BUSY) = Some (STATUS_BUSY, d')
    \<and> sim_depth (snd (snd (dma_world d'))) = 0"
proof -
  have n: "nesting (sim_dmac True) (\<lambda>w. sim_depth (snd (snd w)))"
    by (simp add: nesting_def sim_dmac_def case_prod_beta)
  have c: "level_callbacks sim_call (\<lambda>w. sim_depth (snd (snd w)))"
    by (auto simp: level_callbacks_def dest!: sim_call_result)
  obtain d' where d': "dma_start_transfer_job (sim_dmac True) 0x100 (sim_job STATUS_BUSY) = Some (STATUS_BUSY, d')"
    by (simp add: dma_start_transfer_job_def deref_def Assert_def sim_resource_def Let_def)
  then have "dma_op (sim_dmac True) sim_call (sim_job STATUS_BUSY) d'" by (rule dma_op.Start)
  from dma_critical_sections_balanced [OF n c this] d' show ?thesis by (simp add: sim_start_def)
qed

section \<open>Transfers by DMA\<close>

theorem transfer_descriptor_covers_buffer_witness:
  "\<exists>d' desc. setup_transfer_descriptor 0x300 0x5000 0x42001828 512 DMA_BEAT_SIZE_HWORD True False sim_boot
      = Some (STATUS_OK, d')
    \<and> dma_descriptors d' = sim_descriptors(0x300 \<mapsto> desc) \<and> unat (BTCNT desc) = 512
    \<and> BTCTRL_BEATSIZE desc = DMA_BEAT_SIZE_HWORD \<and> BTCTRL_SRCINC desc \<and> \<not> BTCTRL_DSTINC desc
    \<and> beat_source desc 0 = 0x5000 \<and> beat_source desc 511 = 0x53FE \<and> beat_destination desc 511 = 0x42001828"
proof -
  obtain d' desc where t: "setup_transfer_descriptor 0x300 0x5000 0x42001828 512 DMA_BEAT_SIZE_HWORD True False sim_boot
      = Some (STATUS_OK, d')"
    "dma_descriptors d' = sim_descriptors(0x300 \<mapsto> desc)" "unat (BTCNT desc) = 512"
    "BTCTRL_BEATSIZE desc = DMA_BEAT_SIZE_HWORD" "BTCTRL_SRCINC desc" "\<not> BTCTRL_DSTINC desc"
    and i: "\<forall>i < 512. beat_source desc i = 0x5000 + of_nat (i * 2) \<and> beat_destination desc i = 0x42001828"
    using transfer_descriptor_covers_buffer [where p = "0x300" and d = sim_boot and old = dma_descriptor_zero
        and transfer_count = 512 and source = "0x5000" and destination = "0x42001828"
        and beat_size = DMA_BEAT_SIZE_HWORD and src_inc = True and dst_inc = False]
    by simp blast
  from i have "beat_source desc 0 = 0x5000 + of_nat (0 * 2)" "beat_source desc 511 = 0x5000 + of_nat (511 * 2)"
    "beat_destination desc 511 = 0x42001828" by simp_all
  with t show ?thesis by (intro exI [of _ d'] exI [of _ desc]) simp
qed

definition sim_sdd :: sd_raw_dma_t where
  "sim_sdd = \<lparr> sdd_rx_resource = 0x200, sdd_tx_resource = 0x100, sdd_tx_descriptor = 0x300,
     sdd_rx_descriptor = 0x400 \<rparr>"

lemma sim_sdd_ready: "sdd_ready sim_sdd sim_boot"
  by (simp add: sdd_ready_def sim_sdd_def sim_resource_def)

theorem sd_raw_dma_initialize_ok_witness:
  "\<exists>d' jt jr. sd_raw_dma_initialize (sim_dmac True) sim_sercom sim_sdd 0x5000 0x6000 512 sim_boot = Some (True, d')
    \<and> jt \<noteq> jr \<and> used d' = {jt, jr}"
  using sd_raw_dma_initialize_ok [OF sim_boot_inv _ sim_sdd_ready, of "sim_dmac True" sim_sercom "0x5000" "0x6000" 512]
  by (simp del: used_def) blast

text \<open>The first \<open>n\<close> channels taken, by resources at other addresses.\<close>

fun sim_crowd :: "nat \<Rightarrow> sim_world dma" where
  "sim_crowd 0 = sim_boot"
| "sim_crowd (Suc j) = take_channel j (of_nat (0x1000 + j)) (sim_resource\<lparr>res_channel_id := of_nat j\<rparr>) (sim_crowd j)"

lemma sim_crowd_inv:
  assumes "n < 5"
  shows "dma_inv (sim_crowd n) \<and> used (sim_crowd n) = {..<n}
    \<and> set (dma_active_resource (sim_crowd n)) \<subseteq> insert 0 ((\<lambda>i. of_nat (0x1000 + i)) ` {..<n})
    \<and> (\<forall>p. p \<in> {0x100, 0x200} \<longrightarrow> dma_resources (sim_crowd n) p = Some sim_resource)
    \<and> dma_descriptors (sim_crowd n) = sim_descriptors"
  using assms
proof (induction n)
  case 0
  show ?case using sim_boot_inv by simp
next
  case (Suc n)
  let ?p = "of_nat (0x1000 + n) :: addr"
  have inj: "(of_nat (0x1000 + i) :: addr) = of_nat (0x1000 + j) \<longleftrightarrow> i = j" if "i < 5" "j < 5" for i j :: nat
    using that by (simp add: word_unat_eq_iff unat_of_nat del: of_nat_add)
  have small: "(of_nat (0x1000 + n) :: addr) \<notin> {0, 0x100, 0x200}"
    using Suc.prems by (auto simp: word_unat_eq_iff unat_of_nat simp del: of_nat_add)
  have ih: "dma_inv (sim_crowd n)" "used (sim_crowd n) = {..<n}"
    "set (dma_active_resource (sim_crowd n)) \<subseteq> insert 0 ((\<lambda>i. of_nat (0x1000 + i)) ` {..<n})"
    "\<forall>p. p \<in> {0x100, 0x200} \<longrightarrow> dma_resources (sim_crowd n) p = Some sim_resource"
    "dma_descriptors (sim_crowd n) = sim_descriptors"
    using Suc by simp_all
  have "?p \<notin> set (dma_active_resource (sim_crowd n))"
  proof
    assume "?p \<in> set (dma_active_resource (sim_crowd n))"
    then obtain i where "i < n" "?p = of_nat (0x1000 + i)" using ih(3) small by blast
    then show False using inj [of n i] Suc.prems by simp
  qed
  moreover have "first_free (sim_crowd n) n" using ih(2) Suc.prems by (simp add: first_free_def)
  ultimately have "dma_inv (sim_crowd (Suc n))"
    using dma_inv_take [OF ih(1), of n ?p "sim_resource\<lparr>res_channel_id := of_nat n\<rparr>"] small
    by (simp add: sim_resource_def)
  moreover have "used (sim_crowd (Suc n)) = {..<Suc n}"
    using used_take [of n ?p "sim_resource\<lparr>res_channel_id := of_nat n\<rparr>" "sim_crowd n"] Suc.prems ih(2)
    by (simp add: lessThan_Suc)
  moreover have "set (dma_active_resource (sim_crowd (Suc n))) \<subseteq> insert 0 ((\<lambda>i. of_nat (0x1000 + i)) ` {..<Suc n})"
    using ih(3) set_update_subset_insert [of "dma_active_resource (sim_crowd n)" n ?p]
    by (fastforce simp: take_channel_def lessThan_Suc)
  moreover have "\<forall>p. p \<in> {0x100, 0x200} \<longrightarrow> dma_resources (sim_crowd (Suc n)) p = Some sim_resource"
    using ih(4) small by (auto simp: take_channel_def)
  moreover have "dma_descriptors (sim_crowd (Suc n)) = sim_descriptors"
    using ih(5) by (simp add: take_channel_def)
  ultimately show ?case by blast
qed

lemma sd_raw_dma_initialize_leaks_channel_example:
  "\<exists>d'. sd_raw_dma_initialize (sim_dmac True) sim_sercom sim_sdd 0x5000 0x6000 512 (sim_crowd 4) = Some (False, d')
    \<and> 0x100 \<in> set (dma_active_resource d') \<and> free_channels d' = 0"
proof -
  note c = sim_crowd_inv [of 4, simplified]
  have "x \<notin> {0x100, 0x200}" if "x \<in> set (dma_active_resource (sim_crowd 4))" for x
  proof -
    have "x = 0 \<or> (\<exists>i < 4. x = of_nat (0x1000 + i))" using c that by auto
    then show ?thesis by (auto simp: word_unat_eq_iff unat_of_nat simp del: of_nat_add)
  qed
  then have r: "sdd_ready sim_sdd (sim_crowd 4)"
    using c by (auto simp: sdd_ready_def sim_sdd_def sim_resource_def)
  have "card (used (sim_crowd 4)) + 1 = 5" using c by simp
  from sd_raw_dma_initialize_leaks_channel [OF _ this r, of "sim_dmac True" sim_sercom "0x5000" "0x6000" 512] c
  show ?thesis by (simp add: sim_sdd_def)
qed

lemma wait_job_without_interrupt_hangs_example:
  "wait_job (sim_dmac False) sim_call 0x100 (sim_job STATUS_BUSY) = None"
  by (rule wait_job_without_interrupt_hangs
      [where res = "sim_resource\<lparr>res_job_status := STATUS_BUSY, res_descriptor := 0x300\<rparr>"])
    (simp_all add: sim_dmac_def)

lemma sim_dmac_select [simp]:
  "dmac_read (sim_dmac irq) r (bs, t, w) = (sim_reg r w, (bs, t, w))" "dmac_write (sim_dmac irq) r v x = x"
  "system_interrupt_enter_critical_section (sim_dmac irq) (bs, t, w) = (bs, t, w\<lparr>sim_depth := sim_depth w + 1\<rparr>)"
  "system_interrupt_leave_critical_section (sim_dmac irq) (bs, t, w) = (bs, t, w\<lparr>sim_depth := sim_depth w - 1\<rparr>)"
  "system_interrupt_enable_DMA (sim_dmac irq) x = x" "dmac_irq (sim_dmac irq) x = (irq, x)"
  "DMAC_INTPEND_ID_Msk (sim_dmac irq) = 0xf" "DMAC_CHINTENCLR_TERR (sim_dmac irq) = 1"
  "DMAC_CHINTENCLR_TCMPL (sim_dmac irq) = 2" "DMAC_CHINTENCLR_SUSP (sim_dmac irq) = 4"
  by (simp_all add: sim_dmac_def)

lemma sim_reg_simps [simp]: "sim_reg INTPEND w = sim_intpend w" "sim_reg CHINTFLAG w = sim_flags w"
  by (simp_all add: sim_reg_def)

lemmas register_defs = reg_get_def reg_put_def reg_or_def enter_critical_def leave_critical_def world_def

lemmas handler_defs = DMAC_Handler_def pending_channel_def select_flags_def transfered_def handle_flags_def
  handle_event_def run_callback_def set_resource_def deref_def at_def register_defs

lemma wait_job_returns_example:
  "\<exists>d'. wait_job (sim_dmac True) sim_call 0x100 (sim_job STATUS_BUSY) = Some d'"
proof -
  obtain d' where d': "DMAC_Handler (sim_dmac True) sim_call (sim_job STATUS_BUSY) = Some d'"
    "dma_resources d' 0x100 = Some (sim_resource\<lparr>res_job_status := STATUS_OK, res_descriptor := 0x300\<rparr>)"
    by (simp add: handler_defs sim_start_def sim_resource_def dma_descriptor_zero_def Let_def)
  have w: "sim_job STATUS_BUSY\<lparr>dma_world := sim_start\<rparr> = sim_job STATUS_BUSY"
    by (simp add: sim_job_def take_channel_def sim_boot_def dma_boot_def)
  have "wait_job (sim_dmac True) sim_call 0x100 (sim_job STATUS_BUSY) = Some d'"
    by (rule wait_job_returns [where k = 0 and
          res = "sim_resource\<lparr>res_job_status := STATUS_BUSY, res_descriptor := 0x300\<rparr>", OF _ _ _ _ _ _ d'(2)])
      (simp_all add: w d'(1))
  then show ?thesis by blast
qed

text \<open>A card that accepts the command and sends the start token, and a transfer that fails.\<close>

definition sim_pair :: "sim_world dma" where
  "sim_pair = take_channel 1 0x200 (sim_resource\<lparr>res_channel_id := 1, res_descriptor := 0x400\<rparr>) (sim_job STATUS_OK)
     \<lparr>dma_descriptors := sim_descriptors(0x300 \<mapsto> dma_descriptor_zero\<lparr>BTCNT := 512\<rparr>,
        0x400 \<mapsto> dma_descriptor_zero\<lparr>BTCNT := 512\<rparr>),
      dma_world := (answer 0 @ [0xFE], 0, \<lparr> sim_depth = 0, sim_intpend = 0, sim_flags = 1 \<rparr>)\<rparr>"

lemma sim_pair_fields [simp]:
  "dma_resources sim_pair = sim_resources(0x100 \<mapsto> sim_resource\<lparr>res_job_status := STATUS_OK, res_descriptor := 0x300\<rparr>,
     0x200 \<mapsto> sim_resource\<lparr>res_channel_id := 1, res_descriptor := 0x400\<rparr>)"
  "dma_descriptors sim_pair 0x300 = Some (dma_descriptor_zero\<lparr>BTCNT := 512\<rparr>)"
  "dma_descriptors sim_pair 0x400 = Some (dma_descriptor_zero\<lparr>BTCNT := 512\<rparr>)"
  "dma_active_resource sim_pair = [0x100, 0x200, 0, 0, 0]"
  "dma_world sim_pair = (answer 0 @ [0xFE], 0, \<lparr> sim_depth = 0, sim_intpend = 0, sim_flags = 1 \<rparr>)"
  "descriptor_section sim_pair = replicate 5 dma_descriptor_zero"
  "g_chan_interrupt_flag sim_pair = [0, 0, 0, 0, 0]"
  by (simp_all add: sim_pair_def take_channel_def)

definition sim_card :: sd_raw_t where
  "sim_card = sd_raw_zero\<lparr>sd_type := SD_CARD_TYPE_SDHC\<rparr>"

lemma sim_card_command:
  "sd_command script_spi CMD17 7 (sim_card, sim_pair) = Some (0, sim_card,
     sim_pair\<lparr>dma_world := ([0xFE], 8, \<lparr> sim_depth = 0, sim_intpend = 0, sim_flags = 1 \<rparr>)\<rparr>)"
  by (simp add: sd_command_def script_command sim_card_def sd_raw_zero_def)

lemma sim_card_token:
  "sd_wait_start_block script_spi (sim_card, [0xFE], t, x) = Some (True, sim_card\<lparr>sd_status := 0xFE\<rparr>, [], Suc t, x)"
  by (simp add: sd_wait_start_block_def start_block_loop.simps sd_raw_spi_read_def)

lemma sim_card_read:
  "\<exists>ok s' res. sd_raw_dma_read_block script_spi (sim_dmac True) sim_sercom sim_sdd 7 (sim_card, sim_pair) = Some (ok, s')
    \<and> dma_resources (snd s') 0x100 = Some res \<and> res_job_status res = STATUS_ERR_IO"
  apply (simp add: sd_raw_dma_read_block_def sim_card_command sim_card_token Let_def)
  apply (simp add: dma_start_transfer_job_def sim_sdd_def sim_sercom_def register_defs at_def deref_def
      set_resource_def sim_resource_def Assert_def Let_def dma_descriptor_zero_def)
  apply (subst wait_job.simps)
  apply (simp add: dma_get_job_status_def handler_defs Let_def)
  apply (subst wait_job.simps)
  apply (simp add: dma_get_job_status_def deref_def sd_select_off_def sd_raw_cs_high_def)
  apply blast
  done

lemma sd_raw_dma_read_ignores_transfer_status_example:
  "\<exists>s' res. sd_raw_dma_read_block script_spi (sim_dmac True) sim_sercom sim_sdd 7 (sim_card, sim_pair) = Some (True, s')
    \<and> dma_resources (snd s') 0x100 = Some res \<and> res_job_status res = STATUS_ERR_IO"
proof -
  obtain ok s' res where r:
    "sd_raw_dma_read_block script_spi (sim_dmac True) sim_sercom sim_sdd 7 (sim_card, sim_pair) = Some (ok, s')"
    "dma_resources (snd s') 0x100 = Some res" "res_job_status res = STATUS_ERR_IO"
    using sim_card_read by blast
  have "sd_wait_start_block script_spi (sim_card, [0xFE], 8, \<lparr> sim_depth = 0, sim_intpend = 0, sim_flags = 1 \<rparr>)
      = Some (True, sim_card\<lparr>sd_status := 0xFE\<rparr>, [], Suc 8, \<lparr> sim_depth = 0, sim_intpend = 0, sim_flags = 1 \<rparr>)"
    by (rule sim_card_token)
  then have "ok = True"
    using sd_raw_dma_read_ignores_transfer_status [OF r(1) sim_card_command] by simp
  with r show ?thesis by blast
qed

end
