(* ===== verification/Spec2Isabelle.thy ===== *)
theory Spec2Isabelle
  imports Fkfs_Safety_Examples Truncate_Examples Sd_Card_Examples Dma_Examples
begin

text \<open>
  \<^bold>\<open>fkfs, a log file system for SD cards: a verification library.\<close>

  \<^bold>\<open>The program.\<close> fkfs keeps four files in one append-only log on the raw blocks of an SD card.
  Block 0 holds two header slots that are written in turn; the log starts at block 8000, and every
  block of it is a chain of entries (a seven byte header, then the data), each sealed by a CRC-16 that
  is seeded with the version of its file, so that truncating a file is a change of its version.
  \<^verbatim>\<open>fkfs.cpp\<close> reaches the card through \<^verbatim>\<open>sd_raw_read_block\<close>, \<^verbatim>\<open>sd_raw_write_block\<close> and
  \<^verbatim>\<open>sd_raw_card_size\<close>, which the SPI driver (\<^verbatim>\<open>sd_raw.cpp\<close>) provides on the board and an image file
  (\<^verbatim>\<open>testing/hal.cpp\<close>) on the host. \<^verbatim>\<open>fkfs_log.cpp\<close> is a text log on top; \<^verbatim>\<open>sd_raw_dma.cpp\<close> moves blocks
  by DMA with the controller driver of \<^verbatim>\<open>utility/dma.c\<close>; \<^verbatim>\<open>testing/test.cpp\<close> and \<^verbatim>\<open>testing/read.cpp\<close> are
  host programs, \<^verbatim>\<open>examples/simple\<close> and \<^verbatim>\<open>examples/dma\<close> programs for the board.

  \<^bold>\<open>How C is modelled.\<close> Structures are records, enumerations are datatypes, integers are words of their
  width, and a function that updates its arguments returns them. A read or write outside a buffer, a
  null pointer and a loop that does not end are the value \<open>None\<close>; a \<open>False\<close> inside \<open>Some\<close> is the
  error return of the source. The platform, the SPI bus and the DMA registers are records of functions
  that the definitions take as an argument, over a state the model leaves open. What the host programs
  print and what the logging macros print is left out.

  \<^bold>\<open>Theories.\<close>
  \<^item> \<^verbatim>\<open>Prelude\<close>: word and byte types, bounds-checked memory, little-endian integers, collections of
    simplification rules, and the rules for what holds when an operation returns (\<open>returns\<close>, \<open>after\<close>).
  \<^item> \<^verbatim>\<open>Crc16\<close> (\<^verbatim>\<open>fkfs.cpp\<close>, \<^verbatim>\<open>crc16_update\<close>): the nibble table equals the bit-serial CRC, and a change of
    one byte is detected.
  \<^item> \<^verbatim>\<open>Fkfs_Types\<close> (\<^verbatim>\<open>fkfs.h\<close>): every structure, with the byte image of those on the card and both
    directions of the round trip.
  \<^item> \<^verbatim>\<open>Block_Device\<close>: the platform record and the locales \<open>block_store\<close> and \<open>reliable_device\<close>, the
    contract the file system relies on, and \<open>sized_platform\<close>, what its type invariant needs.
  \<^item> \<^verbatim>\<open>Fkfs_Core\<close>, \<^verbatim>\<open>Fkfs_Append\<close>, \<^verbatim>\<open>Fkfs_Iter\<close>, \<^verbatim>\<open>Fkfs_Log\<close>: every function of \<^verbatim>\<open>fkfs.cpp\<close> and
    \<^verbatim>\<open>fkfs_log.cpp\<close>, in the order of the source: creation, mounting and headers; entry check, search,
    synchronisation, allocation, append; iteration and truncation; the text log.
  \<^item> \<^verbatim>\<open>Fkfs_Persist\<close>: headers on the card. Synchronising and mounting again gives the header back, a
    synchronisation that is cut off falls back to the header before it, a mount takes the newest valid slot, a wipe empties the file
    system, and the generation counter wraps.
  \<^item> \<^verbatim>\<open>Fkfs_Layout\<close>, \<^verbatim>\<open>Fkfs_Refine\<close>, \<^verbatim>\<open>Fkfs_Scan\<close>, \<^verbatim>\<open>Fkfs_Roundtrip\<close>: the log as a list of blocks, each a
    list of entries with the file, the age (how often the file was truncated since) and the data.
    \<open>represents\<close> relates it to the object, its cached block and the card; append
    implements \<open>place\<close>, iteration enumerates the live records of a file, and the whole path from a wipe
    over appends and a mount to the extraction is proved on every reliable device.
  \<^item> \<^verbatim>\<open>Fkfs_Truncate\<close>: truncation implements \<open>truncate_log\<close>, a sequence of appends, truncations,
    synchronisations and flushes does to the files what the specification \<open>op_file\<close> says, also after a flush and
    a mount, and a truncation that is only synchronised is lost. \<^verbatim>\<open>Fkfs_Size\<close>: \<^verbatim>\<open>calculate_file_size\<close> agrees with the
    size the appends keep, on logs of fewer than ten blocks. \<^verbatim>\<open>Fkfs_Reuse\<close>: where the search of a block stops, and that overwriting an entry of
    lower priority cuts the chain behind it when the old data is erased there.
  \<^item> \<^verbatim>\<open>Fkfs_Safety\<close>: what holds on every platform, reliable or not: what an iteration delivers was
    checked (in the runs in which no check reads behind the block buffer, which the source does not prevent), truncation invalidates exactly the entries of its file, allocation stays in its block,
    and the size guards with their gaps. \<^verbatim>\<open>Fkfs_Wf\<close>: the type invariant of the object under every sequence of
    calls, and that mounting and synchronising never leave the object's memory. \<^verbatim>\<open>Fkfs_Log_Props\<close>: the text log loses and duplicates nothing.
  \<^item> \<^verbatim>\<open>Host_Hal\<close> (\<^verbatim>\<open>testing/hal.cpp\<close>): the image file, and the interpretation \<open>host\<close> of the device contract on
    it. \<^verbatim>\<open>Host_Tools\<close> (\<^verbatim>\<open>testing/test.cpp\<close>, \<^verbatim>\<open>testing/read.cpp\<close>): the two programs. \<^verbatim>\<open>Single_Record\<close>
    (\<^verbatim>\<open>examples/simple/main.cpp\<close>): the helpers that keep one record in a file; a read gives what was written last.
  \<^item> \<^verbatim>\<open>Sd_Raw\<close>, \<^verbatim>\<open>Sd_Raw_Props\<close>, \<^verbatim>\<open>Sd_Csd\<close> (\<^verbatim>\<open>sd_raw.cpp\<close>, \<^verbatim>\<open>sd_raw.h\<close>, \<^verbatim>\<open>sd_raw_internal.h\<close>): the SPI driver.
    Block reads deliver what the card sends, every block operation returns when the clock runs,
    errors leave the destination alone, and the capacities read from the CSD register are compared
    with the SD specification.
  \<^item> \<^verbatim>\<open>Sd_Card\<close>: the card, which is not part of the repository, as a step relation that states what the SD
    specification documents of a card in SPI mode, with its start-up clocks and the checksums of \<^verbatim>\<open>CMD0\<close> and
    \<^verbatim>\<open>CMD8\<close>, which it checks, and \<open>sd_card\<close>, the hypothesis that a world holds such a card and
    a clock. \<^verbatim>\<open>Sd_Card_Props\<close>, \<^verbatim>\<open>Sd_Card_Device\<close>, \<^verbatim>\<open>Sd_Card_Init\<close>: the driver at work on it, byte by byte; with such
    a card the driver refines \<open>reliable_device\<close>, and its initialisation succeeds. \<^verbatim>\<open>Sd_Card_Fs\<close>: so what was
    proved of the file system on every reliable device holds of the file system on the driver on a card.
  \<^item> \<^verbatim>\<open>Sketches\<close>, \<^verbatim>\<open>Sketches_Props\<close> (\<^verbatim>\<open>examples/simple/main.cpp\<close>, \<^verbatim>\<open>examples/dma/main.cpp\<close>): the two programs for the
    board, over a record of the calls to its serial port, inputs and random generator. The first one
    mounts a card and every one of its writes succeeds, the last of them into the caches it never flushes.
  \<^item> \<^verbatim>\<open>Dma\<close>, \<^verbatim>\<open>Dma_Props\<close>, \<^verbatim>\<open>Dma_Jobs\<close> (\<^verbatim>\<open>utility/dma.c\<close>, \<^verbatim>\<open>utility/dma.h\<close>): the DMA driver, with descriptors in
    an explicit heap. The channel tables stay consistent under every sequence of calls and
    interrupts in which the client allocates only resources without a channel and frees only those with one; allocation and release are inverse, the descriptor list refines a list, and the
    outcomes of starting, resuming and interrupting a job.
  \<^item> \<^verbatim>\<open>Sd_Raw_Dma\<close>, \<^verbatim>\<open>Sd_Dma_Props\<close> (\<^verbatim>\<open>sd_raw_dma.cpp\<close>): block transfers by DMA, their set-up, with the beats
    the controller derives from a descriptor, and the wait for a job.
  \<^item> \<^verbatim>\<open>Fkfs_Examples\<close>, \<^verbatim>\<open>Fkfs_Safety_Examples\<close>, \<^verbatim>\<open>Truncate_Examples\<close>, \<^verbatim>\<open>Sd_Raw_Examples\<close>, \<^verbatim>\<open>Dma_Examples\<close>,
    \<^verbatim>\<open>Sd_Card_Examples\<close>: the properties at concrete inputs, on the host platform, on a scripted card, on a
    simulated controller and on a simulated card that follows the step relation.
  \<^item> This theory: the property that spans the file system, the image file and both programs.

  \<^bold>\<open>Loops and bounds.\<close> No fuel is used. Loops with a bound of their own are total functions with a measure: the
  search of a block by the offset, allocation by the five blocks of \<^verbatim>\<open>FKFS_SEEK_BLOCKS_MAX\<close>, the copy loop
  of the text log by the bytes left, \<^verbatim>\<open>dma_resume_job\<close> by \<^verbatim>\<open>MAX_JOB_RESUME_COUNT\<close>. The scan of an iteration, the
  waits for the card and for a DMA job and the walk along a descriptor list may run for ever and are partial
  functions with values in \<open>option\<close>; that they return is proved where it holds (on a represented log, under a clock
  that advances, with an interrupt that completes the job), and that they do not where it does not.
  The parameter \<open>limit\<close> of the log relation is the number of erased blocks available; it keeps the log
  from wrapping around the end of the card, where the iterator of the source gives up. Ages stay below the
  65536 versions of a file, so at most 65534 truncations are allowed for while an entry is in the log: after one
  more turn of the version counter a stale entry would pass its check again.

  Against a card the time limits are those of the source: \<open>sd_card\<close> bounds the time of one call by \<open>u\<close> and
  the waits of the card by the 250 milliseconds of the specification, which is below the driver's 300 and 600;
  the initialisation needs the card to wake up within the two seconds of \<^verbatim>\<open>SD_RAW_INIT_TIMEOUT\<close>.

  \<^bold>\<open>Not modelled.\<close> The logging macros, which are empty in the build, and the text they would format; \<^verbatim>\<open>loop\<close> of the
  two programs for the board is empty. \<^verbatim>\<open>cid_t\<close> is declared and never used. \<^verbatim>\<open>src/read.go\<close> is a reader in another
  language. Build files hold no logic. The variant of the DMA driver with \<^verbatim>\<open>FEATURE_DMA_CHANNEL_STANDBY\<close> is not built
  for the target, and interrupts of the controller are taken where the program polls a job, not between any two
  statements. In \<^verbatim>\<open>testing/\<close>, output files and the image are different files.

  \<^bold>\<open>Limits of the properties.\<close> The log relation covers cards whose log area was erased and logs that have not wrapped
  around, with every block but the last leaving room for one more entry header, since the scan of the source reads past
  the block otherwise. Files are read while nothing unwritten is cached, because loading another block drops it. The
  reuse of space is described for one block, not as a refinement, because it does not keep the log. Torn
  writes are considered for \<^verbatim>\<open>fkfs_fsync\<close>, not for \<^verbatim>\<open>fkfs_touch\<close>, which writes the header slot in use. A function that would
  read or write outside its buffer has no value in the model (\<open>None\<close>): properties that assume a value speak of the
  runs without such an access. The speed of the bus is not modelled. The
  card of \<^verbatim>\<open>Sd_Card\<close> answers the commands of initialisation, block reads and block writes; erasing and the transfers
  by DMA are modelled and their own properties shown without a card behind them.
\<close>

section \<open>The programs on the host\<close>

text \<open>C11: the programs of \<^verbatim>\<open>testing/\<close> fit together. Start from an image with no valid header and an
  erased log area, and run the test program in any number of processes, up to the 25 whose records
  fill a block: every run exits with 0. Then run the extraction tool in another process: it exits
  with 0 and writes the line once for every run to \<^verbatim>\<open>FK.LOG\<close>, and an empty \<^verbatim>\<open>DATA.BIN\<close>. Only the disk
  carries over from one process to the next.\<close>

theorem test_runs_then_read:
  assumes "image_blank path limit disk" "fss \<noteq> []" "length fss \<le> 25"
    and "opened (dir @ ''/FK.LOG'')" "opened (dir @ ''/DATA.BIN'')"
  shows "\<exists>disk'. test_runs path fss disk = Some (replicate (length fss) 0, disk')
    \<and> (\<forall>fs. host_disk (fs_sd fs) = disk' \<longrightarrow> (\<exists>fs'. read_main [prog, path, dir] opened fs =
         Some (0, [(dir @ ''/FK.LOG'', concat (replicate (length fss) (str ''Hello, world!''))),
                   (dir @ ''/DATA.BIN'', [])], fs')))"
proof -
  obtain fs0 fss' where fss: "fss = fs0 # fss'" using assms(2) by (cases fss) auto
  let ?n = "length fss'"
  have lim: "0 < limit" "8000 + limit < 2 ^ 23" using assms(1) by (auto simp: image_blank_def)
  have bs: "foldl place (place [[]] hello) (replicate ?n hello) = [replicate (Suc ?n) (stored hello)]"
    using hellos_fit [of "Suc ?n"] assms(3) fss by simp
  let ?fs = "fs0\<lparr>fs_sd := (fs_sd fs0)\<lparr>host_disk := disk\<rparr>\<rparr>"
  have b: "image_blank path limit (host_disk (fs_sd ?fs))" using assms(1) by simp
  have len: "length (place [[]] hello) \<le> limit" using hellos_fit [of 1] lim(1) by simp
  obtain fsm where st: "tool_start path ?fs = Some (True, fsm)"
    "represents (host_open path) host_addressable host_readable host_contents limit fsm [[]]"
    "settings_sync (fs_files fsm ! 0) = 1" "sealed_at host_contents 1 fsm"
    using tool_start_blank [OF b] by blast
  have "(1 :: nat) + 3 < 2 ^ 32" by simp
  then obtain fs1 where m: "test_main [''test'', path] ?fs = Some (0, fs1)"
    and l1: "image_log path limit (1 + 3) (place [[]] hello) (host_disk (fs_sd fs1))"
    using test_main_appends [OF st len, of "''test''"] by blast
  have "length (foldl place (place [[]] hello) (replicate ?n hello)) \<le> limit" "1 + 3 + 3 * ?n < 2 ^ 32"
    using bs lim(1) assms(3) fss by simp_all
  from test_runs_append [OF l1 lim(2) this]
  obtain disk' where t: "test_runs path fss' (host_disk (fs_sd fs1)) = Some (replicate ?n 0, disk')"
    and l: "image_log path limit (1 + 3 + 3 * ?n) [replicate (Suc ?n) (stored hello)] disk'"
    unfolding bs by blast
  have sc: "scannable [replicate (Suc ?n) (stored hello)]" by (simp add: scannable_def)
  have out: "file_records 0 [replicate (Suc ?n) (stored hello)] = replicate (length fss) (str ''Hello, world!'')"
    "file_records 1 [replicate (Suc ?n) (stored hello)] = []"
    using fss by (simp_all add: file_records_def)
  have "\<exists>fs'. read_main [prog, path, dir] opened fs =
      Some (0, [(dir @ ''/FK.LOG'', concat (replicate (length fss) (str ''Hello, world!''))),
                (dir @ ''/DATA.BIN'', [])], fs')" if "host_disk (fs_sd fs) = disk'" for fs
    using read_main_extracts [OF l [folded that] lim(2) sc assms(4,5), of prog] unfolding out by simp
  moreover have "test_runs path fss disk = Some (replicate (length fss) 0, disk')"
    using m t by (simp add: fss)
  ultimately show ?thesis by blast
qed

text \<open>The image of the examples, run twice.\<close>

lemma blank_image: "image_blank ''card'' 3 [''card'' \<mapsto> memzero (512 * 8004)]"
proof -
  have "take 512 (memzero (512 * 8004)) = memzero 512" by (simp add: memzero_def)
  then show ?thesis
    using zero_slot_invalid [of 0] zero_slot_invalid [of 1]
    by (simp add: image_blank_def) (simp add: memzero_def erased_def list_all_iff)
qed

theorem test_runs_then_read_witness:
  "\<exists>disk'. test_runs ''card'' [blank_fs, blank_fs] [''card'' \<mapsto> memzero (512 * 8004)] = Some ([0, 0], disk')
    \<and> (\<exists>fs'. read_main [''read'', ''card'', ''out''] (\<lambda>_. True)
          (blank_fs\<lparr>fs_sd := (fs_sd blank_fs)\<lparr>host_disk := disk'\<rparr>\<rparr>) =
        Some (0, [(''out/FK.LOG'', str ''Hello, world!'' @ str ''Hello, world!''), (''out/DATA.BIN'', [])], fs'))"
proof -
  have "[blank_fs, blank_fs] \<noteq> []" "length [blank_fs, blank_fs] \<le> 25" by simp_all
  from test_runs_then_read [OF blank_image this, of "\<lambda>_. True" "''out''" "''read''"]
  obtain disk' where "test_runs ''card'' [blank_fs, blank_fs] [''card'' \<mapsto> memzero (512 * 8004)] = Some ([0, 0], disk')"
    and r: "\<And>fs. host_disk (fs_sd fs) = disk' \<Longrightarrow> \<exists>fs'. read_main [''read'', ''card'', ''out''] (\<lambda>_. True) fs =
        Some (0, [(''out/FK.LOG'', str ''Hello, world!'' @ str ''Hello, world!''), (''out/DATA.BIN'', [])], fs')"
    by (auto simp: numeral_2_eq_2)
  then show ?thesis
    using r [of "blank_fs\<lparr>fs_sd := (fs_sd blank_fs)\<lparr>host_disk := disk'\<rparr>\<rparr>"] by auto
qed

end
